(* ===== verification/Prelude.thy ===== *)
theory Prelude
  imports Complex_Main "HOL-Library.AList"
begin

text \<open>
  What every component shares: the exceptions of the Python code as values, the sum type of
  fallible operations and its sequencing, Python's slices \<open>xs[-n:]\<close> and \<open>xs[::k]\<close>, Python's
  insertion-ordered \<open>dict\<close> as an association list, and the development's named theorem
  collections.
\<close>

section \<open>Collections of facts\<close>

named_theorems py_simps \<open>rewrite rules for the Python-level primitives\<close>
named_theorems frame_simps \<open>state components that an operation leaves alone\<close>

section \<open>Exceptions as values\<close>

datatype py_error =
    KeyError string
  | ValueError string
  | TypeError string
  | AttributeError string
  | OverflowError string
  | ZeroDivisionError string
  | RuntimeError string
  | FileNotFoundError string

type_synonym 'a result = "py_error + 'a"

definition rbind :: "'e + 'a \<Rightarrow> ('a \<Rightarrow> 'e + 'b) \<Rightarrow> 'e + 'b" where
  "rbind r f = (case r of Inl e \<Rightarrow> Inl e | Inr x \<Rightarrow> f x)"

lemma rbind_simps [simp]: "rbind (Inl e) f = Inl e" "rbind (Inr x) f = f x"
  by (simp_all add: rbind_def)

lemma rbind_Inr_iff: "rbind r f = Inr y \<longleftrightarrow> (\<exists>x. r = Inr x \<and> f x = Inr y)"
  by (cases r) simp_all

lemma rbind_Inl_iff: "rbind r f = Inl e \<longleftrightarrow> r = Inl e \<or> (\<exists>x. r = Inr x \<and> f x = Inl e)"
  by (cases r) simp_all

lemma rbind_assoc: "rbind (rbind r f) g = rbind r (\<lambda>x. rbind (f x) g)"
  by (cases r) simp_all

text \<open>A comprehension whose body may raise: the first exception ends it.\<close>

fun rmap :: "('a \<Rightarrow> 'e + 'b) \<Rightarrow> 'a list \<Rightarrow> 'e + 'b list" where
  "rmap f [] = Inr []"
| "rmap f (x # xs) = rbind (f x) (\<lambda>y. rbind (rmap f xs) (\<lambda>ys. Inr (y # ys)))"

lemma rmap_Inr_length: "rmap f xs = Inr ys \<Longrightarrow> length ys = length xs"
  by (induction xs arbitrary: ys) (auto simp: rbind_Inr_iff)

lemma rmap_total: "(\<And>x. x \<in> set xs \<Longrightarrow> f x = Inr (g x)) \<Longrightarrow> rmap f xs = Inr (map g xs)"
  by (induction xs) auto

section \<open>Slices\<close>

definition last_n :: "nat \<Rightarrow> 'a list \<Rightarrow> 'a list" where
  "last_n n xs = drop (length xs - n) xs"

lemma length_last_n [simp]: "length (last_n n xs) = min n (length xs)"
  by (simp add: last_n_def)

lemma last_n_short [simp]: "length xs \<le> n \<Longrightarrow> last_n n xs = xs"
  by (simp add: last_n_def)

lemma last_n_suffix: "\<exists>ys. xs = ys @ last_n n xs"
  by (metis append_take_drop_id last_n_def)

lemma last_n_append:
  "last_n n (xs @ ys) = (if n \<le> length ys then last_n n ys else last_n (n - length ys) xs @ ys)"
  by (simp add: last_n_def)

lemma last_n_snoc: "0 < n \<Longrightarrow> last_n n (xs @ [x]) = last_n (n - 1) xs @ [x]"
  by (cases "n = 1") (auto simp: last_n_append last_n_def)

lemma set_last_n: "set (last_n n xs) \<subseteq> set xs"
  by (simp add: last_n_def set_drop_subset)

text \<open>\<open>xs[::k]\<close> for a positive step \<open>k\<close>.\<close>

function every_nth :: "nat \<Rightarrow> 'a list \<Rightarrow> 'a list" where
  "every_nth k [] = []"
| "every_nth k (x # xs) = x # every_nth k (drop (k - 1) xs)"
  by pat_completeness auto
termination
  by (relation "measure (\<lambda>(k, xs). length xs)") auto

lemma length_every_nth: "0 < k \<Longrightarrow> length (every_nth k xs) = (length xs + k - 1) div k"
proof (induction k xs rule: every_nth.induct)
  case (2 k x xs)
  show ?case
  proof (cases "length xs < k")
    case True
    with "2.prems" have "drop (k - 1) xs = []" "(length (x # xs) + k - 1) div k = 1"
      by (auto intro: div_nat_eqI)
    then show ?thesis by simp
  next
    case False
    with "2.prems" have "length (x # xs) + k - 1 = k + (length xs - (k - 1) + k - 1)" by simp
    then have "(length (x # xs) + k - 1) div k = Suc ((length xs - (k - 1) + k - 1) div k)"
      using "2.prems" by (simp only: div_add_self1)
    moreover have "length (every_nth k (drop (k - 1) xs)) = (length xs - (k - 1) + k - 1) div k"
      using 2 by simp
    ultimately show ?thesis by simp
  qed
qed simp

lemma every_nth_one [simp]: "every_nth (Suc 0) xs = xs"
  by (induction xs) simp_all

lemma set_every_nth: "set (every_nth k xs) \<subseteq> set xs"
  by (induction k xs rule: every_nth.induct) (auto dest: in_set_dropD)

end
