(* ===== verification/PyText.thy ===== *)
theory PyText
  imports Prelude
begin

text \<open>
  Python's \<open>str\<close> as a list of code points. A \<open>char\<close> of HOL is a number below 256, read here as
  the code point of that number, so a text is a Latin-1 text: the classes (white space, word
  character), the case folding and the escapes below are CPython's for these code points. Texts
  with code points above 255 are outside the model.

  Holds the string methods the services call (\<open>strip\<close>, \<open>split\<close>, \<open>splitlines\<close>, \<open>startswith\<close>,
  \<open>repr\<close>, \<open>int()\<close>, decimal printing) and the one shape of regular expression they compile:
  \<open>\b\<close> keyword \<open>\b\<close>, searched without regard to case.
\<close>

section \<open>Character classes\<close>

definition is_space :: "char \<Rightarrow> bool" where
  "is_space c = (let n = (of_char c :: nat) in
     (9 \<le> n \<and> n \<le> 13) \<or> (28 \<le> n \<and> n \<le> 32) \<or> n = 133 \<or> n = 160)"

definition is_digit :: "char \<Rightarrow> bool" where
  "is_digit c = (let n = (of_char c :: nat) in 48 \<le> n \<and> n \<le> 57)"

text \<open>\<open>\w\<close>: alphanumeric in Unicode's sense, or the underscore.\<close>

definition is_word :: "char \<Rightarrow> bool" where
  "is_word c = (let n = (of_char c :: nat) in
     (48 \<le> n \<and> n \<le> 57) \<or> (65 \<le> n \<and> n \<le> 90) \<or> (97 \<le> n \<and> n \<le> 122) \<or> n = 95
     \<or> n \<in> {170, 178, 179, 181, 185, 186, 188, 189, 190}
     \<or> (192 \<le> n \<and> n \<le> 255 \<and> n \<noteq> 215 \<and> n \<noteq> 247))"

definition lower_c :: "char \<Rightarrow> char" where
  "lower_c c = (let n = (of_char c :: nat) in
     if (65 \<le> n \<and> n \<le> 90) \<or> (192 \<le> n \<and> n \<le> 222 \<and> n \<noteq> 215) then char_of (n + 32) else c)"

definition is_printable :: "char \<Rightarrow> bool" where
  "is_printable c = (let n = (of_char c :: nat) in
     (32 \<le> n \<and> n \<le> 126) \<or> (161 \<le> n \<and> n \<noteq> 173))"

lemma of_lower_c:
  "(of_char (lower_c c) :: nat) = (let n = of_char c in
     if (65 \<le> n \<and> n \<le> 90) \<or> (192 \<le> n \<and> n \<le> 222 \<and> n \<noteq> 215) then n + 32 else n)"
  by (auto simp: lower_c_def Let_def of_char_of)

lemma is_word_lower [simp]: "is_word (lower_c c) = is_word c"
  using nat_of_char_less_256 [of c] unfolding is_word_def of_lower_c Let_def by auto

lemma lower_c_lower_c [simp]: "lower_c (lower_c c) = lower_c c"
  unfolding lower_c_def [of "lower_c c"] of_lower_c Let_def by (auto split: if_splits)

section \<open>Trimming, prefixes, splitting\<close>

definition lstrip :: "string \<Rightarrow> string" where
  "lstrip s = dropWhile is_space s"

definition rstrip :: "string \<Rightarrow> string" where
  "rstrip s = rev (dropWhile is_space (rev s))"

definition strip :: "string \<Rightarrow> string" where
  "strip s = rstrip (lstrip s)"

definition startswith :: "string \<Rightarrow> string \<Rightarrow> bool" where
  "startswith s p = (take (length p) s = p)"

text \<open>\<open>s.split(c)\<close> for a one-character separator.\<close>

fun split_on :: "char \<Rightarrow> string \<Rightarrow> string list" where
  "split_on c [] = [[]]"
| "split_on c (x # xs) =
     (if x = c then [] # split_on c xs
      else (case split_on c xs of [] \<Rightarrow> [[x]] | y # ys \<Rightarrow> (x # y) # ys))"

text \<open>\<open>s.partition(c)\<close>: what is before the first separator, whether there is one, what follows.\<close>

definition partition_on :: "char \<Rightarrow> string \<Rightarrow> string \<times> bool \<times> string" where
  "partition_on c s =
     (let a = takeWhile (\<lambda>x. x \<noteq> c) s; r = dropWhile (\<lambda>x. x \<noteq> c) s
      in (a, r \<noteq> [], drop 1 r))"

definition rpartition_on :: "char \<Rightarrow> string \<Rightarrow> string \<times> bool \<times> string" where
  "rpartition_on c s =
     (let b = rev (takeWhile (\<lambda>x. x \<noteq> c) (rev s)); r = dropWhile (\<lambda>x. x \<noteq> c) (rev s)
      in (rev (drop 1 r), r \<noteq> [], b))"

text \<open>
  \<open>s.splitlines()\<close>: line feed, carriage return (alone or before a line feed), vertical tab, form
  feed, the three information separators and the next-line control end a line; a text that ends
  in a separator has no empty last line.
\<close>

definition is_linesep :: "char \<Rightarrow> bool" where
  "is_linesep c = (let n = (of_char c :: nat) in
     (10 \<le> n \<and> n \<le> 13) \<or> (28 \<le> n \<and> n \<le> 30) \<or> n = 133)"

fun splitlines_acc :: "string \<Rightarrow> string \<Rightarrow> string list" where
  "splitlines_acc acc [] = (if acc = [] then [] else [rev acc])"
| "splitlines_acc acc (c # cs) =
     (if is_linesep c
      then (if c = CHR 0x0D \<and> cs \<noteq> [] \<and> hd cs = CHR 0x0A then splitlines_acc acc cs
            else rev acc # splitlines_acc [] cs)
      else splitlines_acc (c # acc) cs)"

definition splitlines :: "string \<Rightarrow> string list" where
  "splitlines s = splitlines_acc [] s"

lemma lstrip_idem: "lstrip (lstrip s) = lstrip s"
  by (simp add: lstrip_def)

lemma hd_lstrip: "lstrip s \<noteq> [] \<Longrightarrow> \<not> is_space (hd (lstrip s))"
  by (simp add: lstrip_def hd_dropWhile)

lemma last_rstrip: "rstrip s \<noteq> [] \<Longrightarrow> \<not> is_space (last (rstrip s))"
  by (simp add: rstrip_def hd_dropWhile last_rev)

lemma rstrip_prefix: "\<exists>t. s = rstrip s @ t \<and> (\<forall>c\<in>set t. is_space c)"
proof -
  have "s = rstrip s @ rev (takeWhile is_space (rev s))"
    by (metis rev_append rev_rev_ident rstrip_def takeWhile_dropWhile_id)
  then show ?thesis using set_takeWhileD by fastforce
qed

lemma hd_strip: "strip s \<noteq> [] \<Longrightarrow> \<not> is_space (hd (strip s))"
proof -
  assume ne: "strip s \<noteq> []"
  obtain t where t: "lstrip s = strip s @ t"
    using rstrip_prefix by (metis strip_def)
  with ne have "hd (lstrip s) = hd (strip s)" "lstrip s \<noteq> []"
    by simp_all
  then show ?thesis using hd_lstrip by metis
qed

lemma strip_fixpoint:
  "s = [] \<or> (\<not> is_space (hd s) \<and> \<not> is_space (last s)) \<Longrightarrow> strip s = s"
proof (cases "s = []")
  case False
  moreover assume "s = [] \<or> (\<not> is_space (hd s) \<and> \<not> is_space (last s))"
  ultimately have "dropWhile is_space s = s" "dropWhile is_space (rev s) = rev s"
    by (simp_all add: dropWhile_eq_self_iff hd_rev)
  then show ?thesis by (simp add: strip_def lstrip_def rstrip_def)
qed (simp add: strip_def lstrip_def rstrip_def)

lemma strip_strip [simp]: "strip (strip s) = strip s"
  using hd_strip last_rstrip by (intro strip_fixpoint) (auto simp: strip_def)

lemma strip_Nil_iff: "strip s = [] \<longleftrightarrow> (\<forall>c\<in>set s. is_space c)"
proof
  assume "strip s = []"
  then have "\<forall>c\<in>set (lstrip s). is_space c"
    by (simp add: strip_def rstrip_def)
  then have "lstrip s = []"
    using hd_lstrip by (metis hd_in_set)
  then show "\<forall>c\<in>set s. is_space c" by (simp add: lstrip_def)
next
  assume "\<forall>c\<in>set s. is_space c"
  then have "lstrip s = []" by (simp add: lstrip_def)
  then show "strip s = []" by (simp add: strip_def rstrip_def)
qed

lemma split_on_not_Nil [simp]: "split_on c s \<noteq> []"
  by (induction s) (auto split: list.splits)

lemma split_on_no_sep: "c \<notin> set s \<Longrightarrow> split_on c s = [s]"
  by (induction s) auto

lemma split_on_append: "c \<notin> set s \<Longrightarrow> split_on c (s @ c # t) = s # split_on c t"
  by (induction s) auto

lemma split_on_parts: "p \<in> set (split_on c s) \<Longrightarrow> c \<notin> set p"
  by (induction s arbitrary: p) (auto split: list.splits if_splits)

section \<open>Keyword search\<close>

text \<open>
  \<open>re.compile(rf"\b{re.escape(kw)}\b", re.IGNORECASE).search(text)\<close>: \<open>\b\<close> holds at a position
  when exactly one of its two neighbours is a word character (outside the text there is none), the
  escaped keyword matches itself up to case, and the search tries every start position.
\<close>

definition boundary :: "string \<Rightarrow> nat \<Rightarrow> bool" where
  "boundary s i =
     ((0 < i \<and> i \<le> length s \<and> is_word (s ! (i - 1))) \<noteq> (i < length s \<and> is_word (s ! i)))"

definition re_word_search :: "string \<Rightarrow> string \<Rightarrow> bool" where
  "re_word_search kw s =
     (\<exists>i\<in>set [0..<Suc (length s)].
        boundary s i \<and> map lower_c (take (length kw) (drop i s)) = map lower_c kw
        \<and> boundary s (i + length kw))"

lemma boundary_left:
  "m \<noteq> [] \<Longrightarrow> boundary (p @ m @ q) (length p) = ((p \<noteq> [] \<and> is_word (last p)) \<noteq> is_word (hd m))"
  by (cases m; cases p rule: rev_cases) (auto simp: boundary_def nth_append)

lemma boundary_right:
  "m \<noteq> [] \<Longrightarrow>
    boundary (p @ m @ q) (length p + length m) = (is_word (last m) \<noteq> (q \<noteq> [] \<and> is_word (hd q)))"
  by (cases m rule: rev_cases; cases q) (auto simp: boundary_def nth_append)

lemma re_word_search_iff:
  assumes "kw \<noteq> []"
  shows "re_word_search kw s \<longleftrightarrow>
    (\<exists>p m q. s = p @ m @ q \<and> map lower_c m = map lower_c kw
       \<and> (p \<noteq> [] \<and> is_word (last p)) \<noteq> is_word (hd kw)
       \<and> is_word (last kw) \<noteq> (q \<noteq> [] \<and> is_word (hd q)))"
    (is "_ \<longleftrightarrow> (\<exists>p m q. ?split p m q)")
proof -
  have edges: "m \<noteq> []" "is_word (hd m) = is_word (hd kw)" "is_word (last m) = is_word (last kw)"
    "length m = length kw"
    if "map lower_c m = map lower_c kw" for m
  proof -
    show "length m = length kw" using that by (rule map_eq_imp_length_eq)
    with assms show "m \<noteq> []" by auto
    with that assms have "lower_c (hd m) = lower_c (hd kw)" "lower_c (last m) = lower_c (last kw)"
      by (metis hd_map, metis last_map)
    then show "is_word (hd m) = is_word (hd kw)" "is_word (last m) = is_word (last kw)"
      by (metis is_word_lower)+
  qed
  show ?thesis
  proof
    assume "re_word_search kw s"
    then obtain i where i: "i \<le> length s" "boundary s i" "boundary s (i + length kw)"
        and m: "map lower_c (take (length kw) (drop i s)) = map lower_c kw"
      by (auto simp: re_word_search_def less_Suc_eq_le simp del: upt_Suc)
    let ?p = "take i s" and ?m = "take (length kw) (drop i s)" and ?q = "drop (length kw) (drop i s)"
    have s: "s = ?p @ ?m @ ?q" by (simp only: append_take_drop_id)
    have len: "length ?p = i" "length ?m = length kw" using i edges(4) [OF m] by simp_all
    have "?split ?p ?m ?q"
      using s m i(2,3) boundary_left [of ?m ?p ?q] boundary_right [of ?m ?p ?q]
        edges [OF m] len by (metis append_take_drop_id)
    then show "\<exists>p m q. ?split p m q" by blast
  next
    assume "\<exists>p m q. ?split p m q"
    then obtain p m q where "?split p m q" by blast
    then show "re_word_search kw s"
      using edges [of m] boundary_left [of m p q] boundary_right [of m p q]
      by (auto simp: re_word_search_def simp del: upt_Suc intro!: bexI [of _ "length p"])
  qed
qed

section \<open>Numbers as text, \<open>repr\<close>\<close>

definition digit_char :: "nat \<Rightarrow> char" where
  "digit_char d = char_of (48 + d)"

fun nat_dec :: "nat \<Rightarrow> string" where
  "nat_dec n = (if n < 10 then [digit_char n] else nat_dec (n div 10) @ [digit_char (n mod 10)])"

declare nat_dec.simps [simp del]

definition int_dec :: "int \<Rightarrow> string" where
  "int_dec i = (if i < 0 then CHR ''-'' # nat_dec (nat (- i)) else nat_dec (nat i))"

definition digit_val :: "char \<Rightarrow> nat" where
  "digit_val c = of_char c - 48"

text \<open>
  A run of digits, an underscore being allowed between two of them: the value read, the number of
  digits, and the rest of the text.
\<close>

fun eat_digits :: "nat \<Rightarrow> nat \<Rightarrow> string \<Rightarrow> nat \<times> nat \<times> string" where
  "eat_digits a n [] = (a, n, [])"
| "eat_digits a n (c # cs) =
     (if is_digit c then eat_digits (10 * a + digit_val c) (Suc n) cs
      else if c = CHR ''_'' \<and> 0 < n \<and> cs \<noteq> [] \<and> is_digit (hd cs) then eat_digits a n cs
      else (a, n, c # cs))"

definition eat_sign :: "string \<Rightarrow> int \<times> string" where
  "eat_sign s = (case s of
       c # cs \<Rightarrow> if c = CHR ''-'' then (- 1, cs) else if c = CHR ''+'' then (1, cs) else (1, s)
     | [] \<Rightarrow> (1, []))"

definition py_int_of_str :: "string \<Rightarrow> int option" where
  "py_int_of_str s =
     (let (sg, r) = eat_sign (strip s); (v, n, rest) = eat_digits 0 0 r
      in if 0 < n \<and> rest = [] then Some (sg * int v) else None)"

lemma digit_char_props [simp]:
  "d < 10 \<Longrightarrow> is_digit (digit_char d)" "d < 10 \<Longrightarrow> digit_val (digit_char d) = d"
  by (auto simp: digit_char_def is_digit_def digit_val_def of_char_of Let_def)

lemma nat_dec_digits: "c \<in> set (nat_dec n) \<Longrightarrow> is_digit c"
  by (induction n rule: nat_dec.induct)
     (subst (asm) (2) nat_dec.simps, auto split: if_splits)

lemma nat_dec_not_Nil [simp]: "nat_dec n \<noteq> []"
  by (subst nat_dec.simps) simp

lemma eat_digits_append_digit:
  "(\<And>c. c \<in> set ds \<Longrightarrow> is_digit c) \<Longrightarrow>
    eat_digits a n (ds @ r) = eat_digits (foldl (\<lambda>v c. 10 * v + digit_val c) a ds) (n + length ds) r"
  by (induction ds arbitrary: a n) auto

lemma foldl_nat_dec: "foldl (\<lambda>v c. 10 * v + digit_val c) 0 (nat_dec n) = n"
proof (induction n rule: nat_dec.induct)
  case (1 n)
  then show ?case by (cases "n < 10") (simp_all add: nat_dec.simps [of n])
qed

lemma eat_digits_nat_dec: "eat_digits 0 0 (nat_dec n) = (n, length (nat_dec n), [])"
  using eat_digits_append_digit [of "nat_dec n" 0 0 "[]"] nat_dec_digits
  by (simp add: foldl_nat_dec)

definition hex_digit :: "nat \<Rightarrow> char" where
  "hex_digit d = (if d < 10 then char_of (48 + d) else char_of (87 + d))"

definition repr_char :: "char \<Rightarrow> char \<Rightarrow> string" where
  "repr_char q c =
     (if c = q \<or> c = CHR 0x5C then [CHR 0x5C, c]
      else if c = CHR 0x09 then [CHR 0x5C, CHR ''t'']
      else if c = CHR 0x0A then [CHR 0x5C, CHR ''n'']
      else if c = CHR 0x0D then [CHR 0x5C, CHR ''r'']
      else if is_printable c then [c]
      else [CHR 0x5C, CHR ''x'', hex_digit (of_char c div 16), hex_digit (of_char c mod 16)])"

definition py_repr :: "string \<Rightarrow> string" where
  "py_repr s =
     (let q = (if CHR 0x27 \<in> set s \<and> CHR 0x22 \<notin> set s then CHR 0x22 else CHR 0x27)
      in q # concat (map (repr_char q) s) @ [q])"

section \<open>Text files\<close>

text \<open>\<open>readlines()\<close> of a file opened as text: line ends of all three kinds come out as a newline.\<close>

fun universal_newlines :: "string \<Rightarrow> string" where
  "universal_newlines [] = []"
| "universal_newlines [c] = [if c = CHR 0x0D then CHR 0x0A else c]"
| "universal_newlines (c # d # cs) =
     (if c = CHR 0x0D then CHR 0x0A # universal_newlines (if d = CHR 0x0A then cs else d # cs)
      else c # universal_newlines (d # cs))"

definition readlines :: "string \<Rightarrow> string list" where
  "readlines text =
     (let parts = split_on (CHR 0x0A) (universal_newlines text)
      in map (\<lambda>l. l @ [CHR 0x0A]) (butlast parts) @ (if last parts = [] then [] else [last parts]))"

lemma universal_newlines_id: "CHR 0x0D \<notin> set s \<Longrightarrow> universal_newlines s = s"
  by (induction s rule: universal_newlines.induct) auto

lemma readlines_concat:
  assumes "\<And>s. s \<in> set ls \<Longrightarrow> CHR 0x0A \<notin> set s \<and> CHR 0x0D \<notin> set s"
  shows "readlines (concat (map (\<lambda>s. s @ [CHR 0x0A]) ls)) = map (\<lambda>s. s @ [CHR 0x0A]) ls"
proof -
  let ?t = "concat (map (\<lambda>s. s @ [CHR 0x0A]) ls)"
  have "CHR 0x0D \<notin> set ?t" using assms by (induction ls) auto
  moreover have "split_on (CHR 0x0A) ?t = ls @ [[]]"
    using assms by (induction ls) (auto simp: split_on_append)
  ultimately show ?thesis by (simp add: readlines_def universal_newlines_id)
qed

end
