(* ===== verification/PyVal.thy ===== *)
theory PyVal
  imports PyText
begin

text \<open>
  The Python values that cross the services' boundaries: what \<open>json.loads\<close> and \<open>yaml.safe_load\<close>
  build. A \<open>float\<close> is a real number or one of the three non-finite values; the rounding of binary
  floating point is not modelled, comparisons and conversions follow IEEE 754 on the non-finite
  values. A \<open>dict\<close> is the association list of its items in insertion order; its keys are strings
  (JSON objects have no others, and no lookup of the services uses another).

  Holds truth testing, \<open>==\<close>, the conversions \<open>float()\<close>, \<open>int()\<close>, \<open>str()\<close>, \<open>dict()\<close>, and the
  dictionary interface as a locale with its interpretation on association lists.
\<close>

section \<open>Floats\<close>

datatype pyfloat = Fin real | PInf | NInf | NaN

fun flt_less :: "pyfloat \<Rightarrow> pyfloat \<Rightarrow> bool" where
  "flt_less NaN y = False"
| "flt_less x NaN = False"
| "flt_less PInf y = False"
| "flt_less x NInf = False"
| "flt_less NInf y = True"
| "flt_less x PInf = True"
| "flt_less (Fin a) (Fin b) = (a < b)"

fun flt_eq :: "pyfloat \<Rightarrow> pyfloat \<Rightarrow> bool" where
  "flt_eq NaN y = False"
| "flt_eq x NaN = False"
| "flt_eq x y = (x = y)"

definition flt_le :: "pyfloat \<Rightarrow> pyfloat \<Rightarrow> bool" where
  "flt_le x y = (flt_less x y \<or> flt_eq x y)"

fun flt_uminus :: "pyfloat \<Rightarrow> pyfloat" where
  "flt_uminus (Fin a) = Fin (- a)"
| "flt_uminus PInf = NInf"
| "flt_uminus NInf = PInf"
| "flt_uminus NaN = NaN"

fun flt_add :: "pyfloat \<Rightarrow> pyfloat \<Rightarrow> pyfloat" where
  "flt_add NaN y = NaN"
| "flt_add x NaN = NaN"
| "flt_add PInf NInf = NaN"
| "flt_add NInf PInf = NaN"
| "flt_add PInf y = PInf"
| "flt_add x PInf = PInf"
| "flt_add NInf y = NInf"
| "flt_add x NInf = NInf"
| "flt_add (Fin a) (Fin b) = Fin (a + b)"

definition flt_sub :: "pyfloat \<Rightarrow> pyfloat \<Rightarrow> pyfloat" where
  "flt_sub x y = flt_add x (flt_uminus y)"

definition flt_sgn :: "pyfloat \<Rightarrow> real" where
  "flt_sgn x = (case x of Fin a \<Rightarrow> sgn a | PInf \<Rightarrow> 1 | NInf \<Rightarrow> - 1 | NaN \<Rightarrow> 0)"

text \<open>An infinity of the given sign, NaN for none.\<close>

definition flt_inf :: "real \<Rightarrow> pyfloat" where
  "flt_inf s = (if 0 < s then PInf else if s < 0 then NInf else NaN)"

fun flt_mul :: "pyfloat \<Rightarrow> pyfloat \<Rightarrow> pyfloat" where
  "flt_mul (Fin a) (Fin b) = Fin (a * b)"
| "flt_mul x y = (if x = NaN \<or> y = NaN then NaN else flt_inf (flt_sgn x * flt_sgn y))"

text \<open>\<open>x / y\<close> on two floats: division by zero raises.\<close>

fun flt_div :: "pyfloat \<Rightarrow> pyfloat \<Rightarrow> pyfloat result" where
  "flt_div (Fin a) (Fin b) = (if b = 0 then Inl (ZeroDivisionError ''float division by zero'') else Inr (Fin (a / b)))"
| "flt_div x (Fin b) = (if b = 0 then Inl (ZeroDivisionError ''float division by zero'')
     else if x = NaN then Inr NaN else Inr (flt_inf (flt_sgn x * sgn b)))"
| "flt_div (Fin a) y = Inr (if y = NaN then NaN else Fin 0)"
| "flt_div x y = Inr NaN"

text \<open>\<open>max(a, b)\<close> keeps its first argument unless the second is greater.\<close>

definition flt_max :: "pyfloat \<Rightarrow> pyfloat \<Rightarrow> pyfloat" where
  "flt_max x y = (if flt_less x y then y else x)"

lemma flt_le_Fin [simp]: "flt_le (Fin a) (Fin b) = (a \<le> b)"
  by (auto simp: flt_le_def)

lemma flt_sub_Fin [simp]: "flt_sub (Fin a) (Fin b) = Fin (a - b)"
  by (simp add: flt_sub_def)

lemma flt_le_NaN [simp]: "\<not> flt_le NaN y" "\<not> flt_le x NaN"
  by (auto simp: flt_le_def elim: flt_less.elims flt_eq.elims)

section \<open>Values\<close>

datatype pyval =
    PNone
  | PBool bool
  | PInt int
  | PFloat pyfloat
  | PStr string
  | PList "pyval list"
  | PDict "(string \<times> pyval) list"

type_synonym pydict = "(string \<times> pyval) list"

definition is_dict :: "pyval \<Rightarrow> bool" where
  "is_dict v = (case v of PDict _ \<Rightarrow> True | _ \<Rightarrow> False)"

definition is_str :: "pyval \<Rightarrow> bool" where
  "is_str v = (case v of PStr _ \<Rightarrow> True | _ \<Rightarrow> False)"

lemma is_dict_iff: "is_dict v \<longleftrightarrow> (\<exists>d. v = PDict d)"
  by (cases v) (auto simp: is_dict_def)

text \<open>Truth testing, \<open>bool(v)\<close>.\<close>

fun truthy :: "pyval \<Rightarrow> bool" where
  "truthy PNone = False"
| "truthy (PBool b) = b"
| "truthy (PInt i) = (i \<noteq> 0)"
| "truthy (PFloat x) = (x \<noteq> Fin 0)"
| "truthy (PStr s) = (s \<noteq> [])"
| "truthy (PList vs) = (vs \<noteq> [])"
| "truthy (PDict d) = (d \<noteq> [])"

text \<open>The number a value is, booleans included, if it is one.\<close>

fun num_of :: "pyval \<Rightarrow> pyfloat option" where
  "num_of (PBool b) = Some (Fin (if b then 1 else 0))"
| "num_of (PInt i) = Some (Fin (of_int i))"
| "num_of (PFloat x) = Some x"
| "num_of _ = None"

text \<open>
  \<open>v == w\<close>: numbers compare by value across types, lists element by element, dictionaries as
  maps.
\<close>

fun py_eq :: "pyval \<Rightarrow> pyval \<Rightarrow> bool" where
  "py_eq PNone w = (w = PNone)"
| "py_eq (PStr s) w = (w = PStr s)"
| "py_eq (PList vs) w = (case w of PList ws \<Rightarrow> length vs = length ws \<and> list_all2 py_eq vs ws | _ \<Rightarrow> False)"
| "py_eq (PDict d) w = (case w of
     PDict e \<Rightarrow> length d = length e
       \<and> (\<forall>(k, v)\<in>set d. case map_of e k of Some u \<Rightarrow> py_eq v u | None \<Rightarrow> False)
   | _ \<Rightarrow> False)"
| "py_eq v w = (case num_of v of
     Some x \<Rightarrow> (case num_of w of Some y \<Rightarrow> flt_eq x y | None \<Rightarrow> False)
   | None \<Rightarrow> False)"

lemma flt_eq_refl [simp]: "x \<noteq> NaN \<Longrightarrow> flt_eq x x"
  by (cases x) auto

lemma py_eq_str [simp]: "py_eq v (PStr s) = (v = PStr s)"
  by (cases v) auto

section \<open>Conversions\<close>

text \<open>
  \<open>float(text)\<close>: a sign, then \<open>inf\<close>, \<open>infinity\<close> or \<open>nan\<close> in any case, or a decimal literal
  with optional fraction and exponent. The literal stands for its exact value.
\<close>

definition eat_exponent :: "string \<Rightarrow> (int \<times> string) option" where
  "eat_exponent s = (case s of
     c # cs \<Rightarrow> if lower_c c = CHR ''e''
       then (let (sg, r) = eat_sign cs; (v, n, rest) = eat_digits 0 0 r
             in if 0 < n then Some (sg * int v, rest) else None)
       else Some (0, s)
   | [] \<Rightarrow> Some (0, []))"

definition ten_pow :: "int \<Rightarrow> real" where
  "ten_pow e = (if 0 \<le> e then 10 ^ nat e else inverse (10 ^ nat (- e)))"

definition py_float_of_str :: "string \<Rightarrow> pyfloat option" where
  "py_float_of_str s =
     (let (sg, r) = eat_sign (strip s); w = map lower_c r
      in if w = ''inf'' \<or> w = ''infinity'' then Some (if sg < 0 then NInf else PInf)
         else if w = ''nan'' then Some NaN
         else
           let (a, n, r1) = eat_digits 0 0 r;
               (b, m, r2) = (case r1 of
                   c # cs \<Rightarrow> if c = CHR ''.'' then eat_digits 0 0 cs else (0, 0, r1)
                 | [] \<Rightarrow> (0, 0, []))
           in if n = 0 \<and> m = 0 then None
              else (case eat_exponent r2 of
                  Some (e, []) \<Rightarrow>
                    Some (Fin (of_int sg * (of_nat a + of_nat b * ten_pow (- int m)) * ten_pow e))
                | _ \<Rightarrow> None))"

fun py_float :: "pyval \<Rightarrow> pyfloat result" where
  "py_float (PBool b) = Inr (Fin (if b then 1 else 0))"
| "py_float (PInt i) = Inr (Fin (of_int i))"
| "py_float (PFloat x) = Inr x"
| "py_float (PStr s) = (case py_float_of_str s of
     Some x \<Rightarrow> Inr x
   | None \<Rightarrow> Inl (ValueError (''could not convert string to float: '' @ py_repr s)))"
| "py_float _ = Inl (TypeError ''float() argument must be a string or a real number'')"

definition trunc :: "real \<Rightarrow> int" where
  "trunc r = (if r < 0 then \<lceil>r\<rceil> else \<lfloor>r\<rfloor>)"

fun int_of_float :: "pyfloat \<Rightarrow> int result" where
  "int_of_float (Fin r) = Inr (trunc r)"
| "int_of_float NaN = Inl (ValueError ''cannot convert float NaN to integer'')"
| "int_of_float _ = Inl (OverflowError ''cannot convert float infinity to integer'')"

fun py_int :: "pyval \<Rightarrow> int result" where
  "py_int (PBool b) = Inr (if b then 1 else 0)"
| "py_int (PInt i) = Inr i"
| "py_int (PFloat x) = int_of_float x"
| "py_int (PStr s) = (case py_int_of_str s of
     Some i \<Rightarrow> Inr i
   | None \<Rightarrow> Inl (ValueError (''invalid literal for int() with base 10: '' @ py_repr s)))"
| "py_int _ = Inl (TypeError ''int() argument must be a string or a real number'')"

text \<open>
  \<open>repr(v)\<close> and \<open>str(v)\<close>; the shortest decimal that \<open>repr\<close> prints for a float is the argument
  \<open>frepr\<close>.
\<close>

fun join :: "string \<Rightarrow> string list \<Rightarrow> string" where
  "join sep [] = []"
| "join sep [x] = x"
| "join sep (x # xs) = x @ sep @ join sep xs"

fun repr_val :: "(pyfloat \<Rightarrow> string) \<Rightarrow> pyval \<Rightarrow> string" where
  "repr_val frepr PNone = ''None''"
| "repr_val frepr (PBool b) = (if b then ''True'' else ''False'')"
| "repr_val frepr (PInt i) = int_dec i"
| "repr_val frepr (PFloat x) = frepr x"
| "repr_val frepr (PStr s) = py_repr s"
| "repr_val frepr (PList vs) = ''['' @ join '', '' (map (repr_val frepr) vs) @ '']''"
| "repr_val frepr (PDict d) =
     ''{'' @ join '', '' (map (\<lambda>(k, v). py_repr k @ '': '' @ repr_val frepr v) d) @ ''}''"

definition str_val :: "(pyfloat \<Rightarrow> string) \<Rightarrow> pyval \<Rightarrow> string" where
  "str_val frepr v = (case v of PStr s \<Rightarrow> s | _ \<Rightarrow> repr_val frepr v)"

text \<open>
  \<open>dict(v)\<close>: a copy of a dictionary, or the dictionary of a sequence of two-element items, the
  last item of a key winning. Items under keys that are not strings are dropped: no code of the
  services looks one up. An item that is not iterable, or has an unhashable key, is a
  \<open>TypeError\<close>, one of another length a \<open>ValueError\<close>.
\<close>

definition dict_item :: "pyval \<Rightarrow> (pyval \<times> pyval) result" where
  "dict_item v = (case v of
     PList [k, w] \<Rightarrow> (case k of
         PList _ \<Rightarrow> Inl (TypeError ''unhashable type'')
       | PDict _ \<Rightarrow> Inl (TypeError ''unhashable type'')
       | _ \<Rightarrow> Inr (k, w))
   | PStr [a, b] \<Rightarrow> Inr (PStr [a], PStr [b])
   | PDict [(k, _), (l, _)] \<Rightarrow> Inr (PStr k, PStr l)
   | PList _ \<Rightarrow> Inl (ValueError ''dictionary update sequence element has wrong length; 2 is required'')
   | PStr _ \<Rightarrow> Inl (ValueError ''dictionary update sequence element has wrong length; 2 is required'')
   | PDict _ \<Rightarrow> Inl (ValueError ''dictionary update sequence element has wrong length; 2 is required'')
   | _ \<Rightarrow> Inl (TypeError ''cannot convert dictionary update sequence element to a sequence''))"

definition put_str_key :: "pydict \<Rightarrow> pyval \<times> pyval \<Rightarrow> pydict" where
  "put_str_key d kv = (case fst kv of PStr k \<Rightarrow> AList.update k (snd kv) d | _ \<Rightarrow> d)"

definition py_dict :: "pyval \<Rightarrow> pydict result" where
  "py_dict v = (case v of
     PDict d \<Rightarrow> Inr d
   | PList vs \<Rightarrow> rbind (rmap dict_item vs) (\<lambda>kvs. Inr (foldl put_str_key [] kvs))
   | PStr s \<Rightarrow> (if s = [] then Inr []
       else Inl (ValueError ''dictionary update sequence element has wrong length; 2 is required''))
   | _ \<Rightarrow> Inl (TypeError ''object is not iterable''))"

section \<open>Insertion-ordered dictionaries\<close>

text \<open>
  The laws of a Python \<open>dict\<close> that code relying on insertion order uses: an assignment to a
  present key keeps its place, a new key goes last, \<open>pop\<close> removes the key and nothing else.
\<close>

locale ordered_dict =
  fixes get :: "'d \<Rightarrow> 'k \<Rightarrow> 'v option"
    and put :: "'k \<Rightarrow> 'v \<Rightarrow> 'd \<Rightarrow> 'd"
    and del :: "'k \<Rightarrow> 'd \<Rightarrow> 'd"
    and keys :: "'d \<Rightarrow> 'k list"
  assumes get_put: "get (put k v d) l = (if k = l then Some v else get d l)"
    and get_del: "get (del k d) l = (if k = l then None else get d l)"
    and keys_put: "keys (put k v d) = (if k \<in> set (keys d) then keys d else keys d @ [k])"
    and keys_del: "keys (del k d) = removeAll k (keys d)"
    and get_None_iff: "get d k = None \<longleftrightarrow> k \<notin> set (keys d)"
begin

lemma put_get_same: "get (put k v d) k = Some v"
  by (simp add: get_put)

lemma put_put: "get (put k v (put k w d)) = get (put k v d)"
  by (rule ext) (simp add: get_put)

lemma distinct_put: "distinct (keys d) \<Longrightarrow> distinct (keys (put k v d))"
  by (simp add: keys_put)

lemma distinct_del: "distinct (keys d) \<Longrightarrow> distinct (keys (del k d))"
  by (simp add: keys_del distinct_removeAll)

lemma set_keys_put: "set (keys (put k v d)) = insert k (set (keys d))"
  by (auto simp: keys_put)

lemma length_keys_put: "length (keys (put k v d)) \<le> Suc (length (keys d))"
  by (simp add: keys_put)

text \<open>Removing the oldest key, \<open>d.pop(next(iter(d)))\<close>, shifts the order by one.\<close>

lemma keys_pop_oldest:
  "distinct (keys d) \<Longrightarrow> keys d = k # ks \<Longrightarrow> keys (del k d) = ks"
  by (simp add: keys_del)

lemma get_pop_oldest:
  "distinct (keys d) \<Longrightarrow> keys d = k # ks \<Longrightarrow> l \<in> set ks \<Longrightarrow> get (del k d) l = get d l"
  by (auto simp: get_del)

end

interpretation od: ordered_dict map_of AList.update AList.delete "map fst"
  by unfold_locales (auto simp: update_conv' delete_conv' update_keys delete_keys map_of_eq_None_iff)

lemmas dict_laws = od.get_put od.get_del od.keys_put od.keys_del

end
