(* ===== verification/Config.thy ===== *)
theory Config
  imports PyVal
begin

text \<open>
  \<open>python/lexaire/config.py\<close>: the configuration tree with dotted-path access, the search for
  \<open>common/config.yaml\<close> and for \<open>.env\<close>, and the loading of both. The file system (which paths are
  files, what they hold), the working directory and the YAML parser are arguments; a path is the
  list of its components from the root, the root being \<open>[]\<close>, its own parent.
\<close>

section \<open>Access to the tree\<close>

fun lookup_path :: "pyval \<Rightarrow> string list \<Rightarrow> pyval option" where
  "lookup_path cur [] = Some cur"
| "lookup_path cur (part # parts) =
     (case cur of
        PDict d \<Rightarrow> (case map_of d part of Some v \<Rightarrow> lookup_path v parts | None \<Rightarrow> None)
      | _ \<Rightarrow> None)"

definition cfg_get :: "pydict \<Rightarrow> string \<Rightarrow> pyval \<Rightarrow> pyval" where
  "cfg_get cfg path dflt =
     (case lookup_path (PDict cfg) (split_on (CHR ''.'') path) of
        Some cur \<Rightarrow> (if cur = PNone then dflt else cur)
      | None \<Rightarrow> dflt)"

definition cfg_require :: "pydict \<Rightarrow> string \<Rightarrow> pyval result" where
  "cfg_require cfg path =
     (case lookup_path (PDict cfg) (split_on (CHR ''.'') path) of
        Some v \<Rightarrow> (if v = PNone then Inl (KeyError (''required config key missing: '' @ py_repr path))
                   else Inr v)
      | None \<Rightarrow> Inl (KeyError (''required config key missing: '' @ py_repr path)))"

text \<open>Attribute access reads and writes items; a missing one is an \<open>AttributeError\<close>.\<close>

definition attr_get :: "pydict \<Rightarrow> string \<Rightarrow> pyval result" where
  "attr_get d name = (case map_of d name of Some v \<Rightarrow> Inr v | None \<Rightarrow> Inl (AttributeError name))"

definition attr_set :: "pydict \<Rightarrow> string \<Rightarrow> pyval \<Rightarrow> pydict" where
  "attr_set d name v = AList.update name v d"

lemma lookup_path_append:
  "lookup_path v (ps @ qs) = Option.bind (lookup_path v ps) (\<lambda>u. lookup_path u qs)"
  by (induction v ps rule: lookup_path.induct) (auto split: pyval.splits option.splits)

lemma cfg_require_Inr_iff:
  "cfg_require cfg path = Inr v \<longleftrightarrow>
     v \<noteq> PNone \<and> lookup_path (PDict cfg) (split_on (CHR ''.'') path) = Some v"
  by (auto simp: cfg_require_def split: option.splits)

lemma cfg_get_present: "cfg_require cfg path = Inr v \<Longrightarrow> cfg_get cfg path dflt = v"
  by (auto simp: cfg_require_Inr_iff cfg_get_def)

lemma cfg_get_missing: "cfg_require cfg path = Inl e \<Longrightarrow> cfg_get cfg path dflt = dflt"
  by (auto simp: cfg_require_def cfg_get_def split: option.splits if_splits)

lemma cfg_get_not_None: "dflt \<noteq> PNone \<Longrightarrow> cfg_get cfg path dflt \<noteq> PNone"
  by (auto simp: cfg_get_def split: option.splits)

section \<open>Searching upwards\<close>

type_synonym path = "string list"

text \<open>
  The loop both searches share: look for \<open>rel\<close> below \<open>cur\<close>, then below its parent, at most \<open>n\<close>
  directories, stopping at the root.
\<close>

fun walk_up :: "nat \<Rightarrow> (path \<Rightarrow> bool) \<Rightarrow> path \<Rightarrow> path \<Rightarrow> path option" where
  "walk_up 0 is_file rel cur = None"
| "walk_up (Suc n) is_file rel cur =
     (if is_file (cur @ rel) then Some (cur @ rel)
      else if cur = [] then None
      else walk_up n is_file rel (butlast cur))"

definition find_config_path ::
    "(path \<Rightarrow> bool) \<Rightarrow> (string \<Rightarrow> path) \<Rightarrow> path \<Rightarrow> string option \<Rightarrow> path result" where
  "find_config_path is_file to_path cwd override =
     (case override of
        Some (c # cs) \<Rightarrow>
          (if is_file (to_path (c # cs)) then Inr (to_path (c # cs))
           else Inl (FileNotFoundError (''config not found: '' @ (c # cs))))
      | _ \<Rightarrow>
          (case walk_up 6 is_file [''common'', ''config.yaml''] cwd of
             Some p \<Rightarrow> Inr p
           | None \<Rightarrow> Inl (FileNotFoundError (''common/config.yaml not found''))))"

text \<open>The directory \<open>j\<close> levels above \<open>cur\<close>.\<close>

definition ancestor :: "nat \<Rightarrow> path \<Rightarrow> path" where
  "ancestor j cur = take (length cur - j) cur"

lemma ancestor_0 [simp]: "ancestor 0 cur = cur"
  by (simp add: ancestor_def)

lemma ancestor_Suc: "ancestor (Suc j) cur = ancestor j (butlast cur)"
  by (simp add: ancestor_def butlast_conv_take min_def)

lemma walk_up_Some_iff:
  "walk_up n is_file rel cur = Some p \<longleftrightarrow>
     (\<exists>j<n. j \<le> length cur \<and> p = ancestor j cur @ rel \<and> is_file p
        \<and> (\<forall>i<j. \<not> is_file (ancestor i cur @ rel)))"
proof (induction n is_file rel cur rule: walk_up.induct)
  case (2 n is_file rel cur)
  show ?case
  proof (cases "is_file (cur @ rel) \<or> cur = []")
    case True
    then show ?thesis
      by (auto intro!: exI [of _ 0] dest: spec [of _ 0])
  next
    case False
    then have step: "walk_up (Suc n) is_file rel cur = walk_up n is_file rel (butlast cur)"
      by simp
    have "(\<exists>j<n. j \<le> length (butlast cur) \<and> p = ancestor j (butlast cur) @ rel \<and> is_file p
        \<and> (\<forall>i<j. \<not> is_file (ancestor i (butlast cur) @ rel)))
      \<longleftrightarrow> (\<exists>j<Suc n. j \<le> length cur \<and> p = ancestor j cur @ rel \<and> is_file p
        \<and> (\<forall>i<j. \<not> is_file (ancestor i cur @ rel)))" (is "?L \<longleftrightarrow> ?R")
    proof
      assume ?L
      then obtain j where "j < n" "j \<le> length (butlast cur)" "p = ancestor (Suc j) cur @ rel"
          "is_file p" "\<forall>i<j. \<not> is_file (ancestor (Suc i) cur @ rel)"
        by (auto simp: ancestor_Suc)
      moreover from this(2) False have "Suc j \<le> length cur" by (cases cur) (auto split: if_splits)
      ultimately show ?R
        using False by (intro exI [of _ "Suc j"]) (auto simp: less_Suc_eq_0_disj)
    next
      assume ?R
      then obtain j where j: "j < Suc n" "j \<le> length cur" "p = ancestor j cur @ rel" "is_file p"
          "\<forall>i<j. \<not> is_file (ancestor i cur @ rel)"
        by blast
      with False obtain j' where "j = Suc j'" by (cases j) auto
      with j False show ?L
        by (intro exI [of _ j']) (auto simp: ancestor_Suc [symmetric])
    qed
    then show ?thesis using step 2 False by simp
  qed
qed simp

section \<open>The .env file\<close>

type_synonym environ = "string \<Rightarrow> string option"

definition unquote :: "string \<Rightarrow> string" where
  "unquote v =
     (if 2 \<le> length v \<and> hd v = last v \<and> (hd v = CHR 0x22 \<or> hd v = CHR 0x27)
      then butlast (tl v) else v)"

definition dotenv_line :: "string \<Rightarrow> (string \<times> string) option" where
  "dotenv_line raw =
     (let line = strip raw
      in if line = [] \<or> startswith line ''#'' then None
         else if CHR ''='' \<notin> set line then None
         else
           let (k, _, v) = partition_on (CHR ''='') line; k = strip k; v = unquote (strip v)
           in if k \<noteq> [] then Some (k, v) else None)"

definition dotenv_step :: "environ \<Rightarrow> string \<Rightarrow> environ" where
  "dotenv_step env raw =
     (case dotenv_line raw of
        Some (k, v) \<Rightarrow> (if env k = None then env(k \<mapsto> v) else env)
      | None \<Rightarrow> env)"

definition load_dotenv ::
    "(path \<Rightarrow> bool) \<Rightarrow> (path \<Rightarrow> string) \<Rightarrow> path \<Rightarrow> environ \<Rightarrow> environ" where
  "load_dotenv is_file read_text start env =
     (case walk_up 6 is_file [''.env''] start of
        Some p \<Rightarrow> foldl dotenv_step env (splitlines (read_text p))
      | None \<Rightarrow> env)"

lemma dotenv_steps:
  "foldl dotenv_step env ls k =
     (case env k of Some v \<Rightarrow> Some v | None \<Rightarrow> map_of (List.map_filter dotenv_line ls) k)"
proof (induction ls arbitrary: env)
  case Nil
  then show ?case by (simp add: map_filter_simps split: option.splits)
next
  case (Cons l ls)
  then show ?case
    by (auto simp: dotenv_step_def map_filter_simps split: option.splits prod.splits if_splits)
qed

section \<open>Loading\<close>

text \<open>
  \<open>_wrap\<close> rebuilds every dictionary of the tree as an \<open>_AttrDict\<close>, a subclass of \<open>dict\<close> with the
  same items.
\<close>

fun wrap :: "pyval \<Rightarrow> pyval" where
  "wrap (PDict d) = PDict (map (\<lambda>(k, v). (k, wrap v)) d)"
| "wrap (PList vs) = PList (map wrap vs)"
| "wrap v = v"

definition load_config ::
    "(path \<Rightarrow> bool) \<Rightarrow> (path \<Rightarrow> string) \<Rightarrow> (string \<Rightarrow> path) \<Rightarrow> (string \<Rightarrow> pyval result)
     \<Rightarrow> path \<Rightarrow> environ \<Rightarrow> string option \<Rightarrow> (pyval \<times> environ) result" where
  "load_config is_file read_text to_path yaml_load cwd env path =
     (let env_override = env ''LEXAIRE_CONFIG'';
          override = (case path of Some (c # cs) \<Rightarrow> path | _ \<Rightarrow> env_override)
      in rbind (find_config_path is_file to_path cwd override) (\<lambda>config_path.
           let env' = load_dotenv is_file read_text (butlast (butlast config_path)) env
           in rbind (yaml_load (read_text config_path)) (\<lambda>raw.
                Inr (wrap (if truthy raw then raw else PDict []), env'))))"

lemma wrap_id: "wrap v = v"
proof (induction v rule: wrap.induct)
  case (1 d)
  then show ?case by (auto intro!: map_idI)
qed (auto intro: map_idI)

end
