(* ===== verification/Transport.thy ===== *)
theory Transport
  imports PyVal
begin

text \<open>
  \<open>python/lexaire/transport.py\<close> and \<open>bind_endpoint\<close> of \<open>include/lexaire/messages.hpp\<close>: the
  rewriting of an endpoint's host to the wildcard for binding, on both sides of the wire, and the
  sockets the helpers set up (their kind, options and endpoint; the sockets themselves are ZMQ's).
  The port of an endpoint is read as \<open>urllib.parse\<close> reads it; whether a bracketed host is a valid
  IPv6 literal, which only newer Python versions check, is not modelled.
\<close>

section \<open>The port of an endpoint\<close>

text \<open>
  \<open>urlparse(url)\<close>: leading control characters and blanks and every tab and line break are removed,
  a scheme is what precedes the first colon if it is made of scheme characters, the network
  location follows two slashes and ends at a slash, a question mark or a hash.
\<close>

definition is_scheme_char :: "char \<Rightarrow> bool" where
  "is_scheme_char c = (let n = (of_char c :: nat) in
     (48 \<le> n \<and> n \<le> 57) \<or> (65 \<le> n \<and> n \<le> 90) \<or> (97 \<le> n \<and> n \<le> 122) \<or> n \<in> {43, 45, 46})"

definition is_ascii_alpha :: "char \<Rightarrow> bool" where
  "is_ascii_alpha c = (let n = (of_char c :: nat) in (65 \<le> n \<and> n \<le> 90) \<or> (97 \<le> n \<and> n \<le> 122))"

definition url_clean :: "string \<Rightarrow> string" where
  "url_clean url = filter (\<lambda>c. c \<notin> {CHR 0x09, CHR 0x0A, CHR 0x0D})
     (dropWhile (\<lambda>c. (of_char c :: nat) \<le> 32) url)"

definition url_scheme :: "string \<Rightarrow> string \<times> string" where
  "url_scheme url =
     (let (s, found, rest) = partition_on (CHR '':'') url
      in if found \<and> s \<noteq> [] \<and> is_ascii_alpha (hd s) \<and> list_all is_scheme_char s
         then (map lower_c s, rest) else ([], url))"

definition url_netloc :: "string \<Rightarrow> string result" where
  "url_netloc rest =
     (if startswith rest ''//'' then
        let n = takeWhile (\<lambda>c. c \<notin> {CHR ''/'', CHR ''?'', CHR ''#''}) (drop 2 rest)
        in if (CHR ''['' \<in> set n) \<noteq> (CHR '']'' \<in> set n) then Inl (ValueError ''Invalid IPv6 URL'')
           else Inr n
      else Inr [])"

definition netloc_port :: "string \<Rightarrow> string" where
  "netloc_port netloc =
     (let (_, _, hostinfo) = rpartition_on (CHR ''@'') netloc;
          (_, bracket, bracketed) = partition_on (CHR ''['') hostinfo
      in if bracket
         then (let (_, _, p) = partition_on (CHR '']'') bracketed; (_, _, q) = partition_on (CHR '':'') p in q)
         else (let (_, _, p) = partition_on (CHR '':'') hostinfo in p))"

definition dec_val :: "string \<Rightarrow> nat" where
  "dec_val ds = foldl (\<lambda>v c. 10 * v + digit_val c) 0 ds"

text \<open>The properties \<open>scheme\<close> and \<open>port\<close> of the parsed endpoint.\<close>

definition url_port :: "string \<Rightarrow> (string \<times> nat option) result" where
  "url_port url =
     (let (scheme, rest) = url_scheme (url_clean url)
      in rbind (url_netloc rest) (\<lambda>netloc.
           let p = netloc_port netloc
           in if p = [] then Inr (scheme, None)
              else if \<not> list_all is_digit p
              then Inl (ValueError (''Port could not be cast to integer value as '' @ py_repr p))
              else if dec_val p \<le> 65535 then Inr (scheme, Some (dec_val p))
              else Inl (ValueError ''Port out of range 0-65535'')))"

section \<open>Binding endpoints\<close>

text \<open>\<open>_bind_ep\<close> of the Python services.\<close>

definition bind_ep :: "string \<Rightarrow> string result" where
  "bind_ep endpoint =
     (if \<not> startswith endpoint ''tcp://'' then Inr endpoint
      else rbind (url_port endpoint) (\<lambda>(_, port). Inr (case port of
          None \<Rightarrow> endpoint
        | Some p \<Rightarrow> ''tcp://*:'' @ nat_dec p)))"

text \<open>\<open>bind_endpoint\<close> of the C++ services: everything from the last colon on is kept.\<close>

definition bind_endpoint :: "string \<Rightarrow> string" where
  "bind_endpoint ep =
     (if \<not> startswith ep ''tcp://'' then ep
      else let (before, found, after) = rpartition_on (CHR '':'') ep
           in if \<not> found \<or> length before \<le> length ''tcp://'' then ep
              else ''tcp://'' @ ''*'' @ '':'' @ after)"

section \<open>Sockets\<close>

datatype sock_kind = PUB | SUB | PUSH | PULL | REQ

datatype sock_opt =
    SNDHWM int | RCVHWM int | LINGER int | SUBSCRIBE string | CONNECT_TIMEOUT int
  | RCVTIMEO int | SNDTIMEO int

datatype sock_attach = Bind string | Connect string

record sock =
  sk_kind :: sock_kind
  sk_opts :: "sock_opt list"
  sk_attach :: sock_attach

definition pub :: "string \<Rightarrow> int \<Rightarrow> sock result" where
  "pub endpoint hwm = rbind (bind_ep endpoint) (\<lambda>e.
     Inr \<lparr>sk_kind = PUB, sk_opts = [SNDHWM hwm, LINGER 0], sk_attach = Bind e\<rparr>)"

definition sub :: "string \<Rightarrow> int \<Rightarrow> string \<Rightarrow> int option \<Rightarrow> sock" where
  "sub endpoint hwm topic_filter connect_timeout_ms =
     \<lparr>sk_kind = SUB,
      sk_opts = [SUBSCRIBE topic_filter, RCVHWM hwm, LINGER 0]
        @ (case connect_timeout_ms of None \<Rightarrow> [] | Some t \<Rightarrow> [CONNECT_TIMEOUT t]),
      sk_attach = Connect endpoint\<rparr>"

definition push :: "string \<Rightarrow> int \<Rightarrow> int \<Rightarrow> sock" where
  "push endpoint hwm linger_ms =
     \<lparr>sk_kind = PUSH, sk_opts = [SNDHWM hwm, LINGER linger_ms], sk_attach = Connect endpoint\<rparr>"

definition pull :: "string \<Rightarrow> int \<Rightarrow> sock result" where
  "pull endpoint hwm = rbind (bind_ep endpoint) (\<lambda>e.
     Inr \<lparr>sk_kind = PULL, sk_opts = [RCVHWM hwm, LINGER 0], sk_attach = Bind e\<rparr>)"

section \<open>Lemmas\<close>

text \<open>A host name as the configuration writes it: no delimiter of the URL syntax, no blank.\<close>

definition plain_host :: "string \<Rightarrow> bool" where
  "plain_host h \<longleftrightarrow> h \<noteq> [] \<and> list_all
     (\<lambda>c. c \<notin> {CHR ''/'', CHR ''?'', CHR ''#'', CHR ''@'', CHR ''['', CHR '']'', CHR '':'',
            CHR 0x09, CHR 0x0A, CHR 0x0D}) h"

lemma takeWhile_until: "c \<notin> set a \<Longrightarrow> takeWhile (\<lambda>x. x \<noteq> c) (a @ c # b) = a"
  by (induction a) auto

lemma dropWhile_until: "c \<notin> set a \<Longrightarrow> dropWhile (\<lambda>x. x \<noteq> c) (a @ c # b) = c # b"
  by (induction a) auto

lemma takeWhile_all: "c \<notin> set a \<Longrightarrow> takeWhile (\<lambda>x. x \<noteq> c) a = a"
  by (induction a) auto

lemma dropWhile_all: "c \<notin> set a \<Longrightarrow> dropWhile (\<lambda>x. x \<noteq> c) a = []"
  by (induction a) auto

lemmas until_simps = takeWhile_until dropWhile_until takeWhile_all dropWhile_all

lemma partition_on_split: "c \<notin> set a \<Longrightarrow> partition_on c (a @ c # b) = (a, True, b)"
  by (simp add: partition_on_def until_simps)

lemma partition_on_none: "c \<notin> set a \<Longrightarrow> partition_on c a = (a, False, [])"
  by (simp add: partition_on_def until_simps)

lemma rpartition_on_split: "c \<notin> set b \<Longrightarrow> rpartition_on c (a @ c # b) = (a, True, b)"
  by (simp add: rpartition_on_def until_simps)

lemma rpartition_on_none: "c \<notin> set a \<Longrightarrow> rpartition_on c a = ([], False, a)"
  by (simp add: rpartition_on_def until_simps)

lemma nat_dec_not_in: "\<not> is_digit c \<Longrightarrow> c \<notin> set (nat_dec n)"
  using nat_dec_digits by blast

lemma delims_not_digit:
  "\<not> is_digit (CHR ''/'')" "\<not> is_digit (CHR ''?'')" "\<not> is_digit (CHR ''#'')" "\<not> is_digit (CHR ''@'')"
  "\<not> is_digit (CHR ''['')" "\<not> is_digit (CHR '']'')" "\<not> is_digit (CHR '':'')"
  "\<not> is_digit (CHR 0x09)" "\<not> is_digit (CHR 0x0A)" "\<not> is_digit (CHR 0x0D)"
  by (simp_all add: is_digit_def)

lemmas nat_dec_no_delim [simp] = delims_not_digit [THEN nat_dec_not_in]

lemma plain_host_no_delim:
  assumes "plain_host h"
  shows "h \<noteq> []" "CHR ''/'' \<notin> set h" "CHR ''?'' \<notin> set h" "CHR ''#'' \<notin> set h" "CHR ''@'' \<notin> set h"
    "CHR ''['' \<notin> set h" "CHR '']'' \<notin> set h" "CHR '':'' \<notin> set h"
    "CHR 0x09 \<notin> set h" "CHR 0x0A \<notin> set h" "CHR 0x0D \<notin> set h"
  using assms by (auto simp: plain_host_def list_all_iff)

lemma dec_val_nat_dec [simp]: "dec_val (nat_dec n) = n"
  by (simp add: dec_val_def foldl_nat_dec)

lemma url_clean_endpoint:
  assumes "plain_host h"
  shows "url_clean (''tcp://'' @ h @ '':'' @ nat_dec p) = ''tcp://'' @ h @ '':'' @ nat_dec p"
proof -
  let ?e = "''tcp://'' @ h @ '':'' @ nat_dec p"
  have "dropWhile (\<lambda>c. (of_char c :: nat) \<le> 32) ?e = ?e"
    by (simp add: dropWhile_eq_self_iff)
  moreover have "filter (\<lambda>c. c \<notin> {CHR 0x09, CHR 0x0A, CHR 0x0D}) ?e = ?e"
    using plain_host_no_delim [OF assms] nat_dec_no_delim by (intro filter_True) auto
  ultimately show ?thesis by (simp only: url_clean_def)
qed

lemma url_netloc_endpoint:
  assumes "plain_host h"
  shows "url_netloc (''//'' @ h @ '':'' @ nat_dec p) = Inr (h @ '':'' @ nat_dec p)"
proof -
  let ?net = "h @ '':'' @ nat_dec p"
  have "\<forall>c\<in>set ?net. c \<notin> {CHR ''/'', CHR ''?'', CHR ''#''}"
    using plain_host_no_delim [OF assms] nat_dec_no_delim by auto
  then have "takeWhile (\<lambda>c. c \<notin> {CHR ''/'', CHR ''?'', CHR ''#''}) ?net = ?net"
    by (subst takeWhile_eq_all_conv)
  moreover have "CHR ''['' \<notin> set ?net" "CHR '']'' \<notin> set ?net"
    using plain_host_no_delim [OF assms] by auto
  moreover have "drop 2 (''//'' @ ?net) = ?net" "startswith (''//'' @ ?net) ''//''"
    by (simp_all add: startswith_def)
  ultimately show ?thesis
    unfolding url_netloc_def Let_def by (simp only: if_True if_False simp_thms)
qed

lemma netloc_port_endpoint:
  assumes "plain_host h"
  shows "netloc_port (h @ '':'' @ nat_dec p) = nat_dec p"
  using plain_host_no_delim [OF assms]
  by (simp add: netloc_port_def rpartition_on_none partition_on_none partition_on_split)

lemma url_port_endpoint:
  assumes "plain_host h" and "p \<le> 65535"
  shows "url_port (''tcp://'' @ h @ '':'' @ nat_dec p) = Inr (''tcp'', Some p)"
proof -
  have "url_scheme (''tcp://'' @ h @ '':'' @ nat_dec p) = (''tcp'', ''//'' @ h @ '':'' @ nat_dec p)"
    using partition_on_split [of "CHR '':''" "''tcp''" "''//'' @ h @ '':'' @ nat_dec p"]
    by (simp add: url_scheme_def is_ascii_alpha_def is_scheme_char_def lower_c_def)
  moreover have "list_all is_digit (nat_dec p)"
    using nat_dec_digits by (auto simp: list_all_iff)
  ultimately show ?thesis
    using assms(2) url_clean_endpoint [OF assms(1)] url_netloc_endpoint [OF assms(1)]
      netloc_port_endpoint [OF assms(1)]
    by (simp add: url_port_def)
qed

lemma bind_endpoint_simple:
  assumes "plain_host h"
  shows "bind_endpoint (''tcp://'' @ h @ '':'' @ nat_dec p) = ''tcp://*:'' @ nat_dec p"
proof -
  have "rpartition_on (CHR '':'') ((''tcp://'' @ h) @ CHR '':'' # nat_dec p)
      = (''tcp://'' @ h, True, nat_dec p)"
    by (rule rpartition_on_split) simp
  then show ?thesis
    using plain_host_no_delim(1) [OF assms] by (simp add: bind_endpoint_def startswith_def)
qed

end
