(* ===== verification/Messages.thy ===== *)
theory Messages
  imports PyVal
begin

text \<open>
  \<open>python/lexaire/messages.py\<close>: the dataclasses the services exchange, their defaults, and the
  object each becomes in a JSON header. A header frame is represented by the value \<open>json.loads\<close>
  gives for it, or by the exception it raises on a frame that is not UTF-8 or not JSON.
\<close>

record detection =
  d_label :: string
  d_bbox_xywh :: "pyfloat list"
  d_confidence :: pyfloat
  d_depth_m :: "pyfloat option"
  d_xyz_cam_m :: "pyfloat list option"

record scene_header =
  sc_ts_ns :: int
  sc_frame_seq :: int
  sc_detections :: "pyval list"

record voice_command =
  vc_ts_ns :: int
  vc_text :: string
  vc_is_abort :: bool

record tool_call =
  tc_request_id :: string
  tc_name :: string
  tc_args :: pydict

text \<open>The fields of a result come off the wire unchecked, so all but \<open>ok\<close> are any JSON value.\<close>

record tool_result =
  tr_request_id :: pyval
  tr_ok :: bool
  tr_error :: pyval
  tr_data :: pyval

record orchestrator_status =
  os_ts_ns :: int
  os_state :: string
  os_last_thought :: string

section \<open>Headers\<close>

text \<open>\<open>asdict\<close> on each dataclass, and \<open>encode_header\<close>: the value that is dumped.\<close>

definition float_list :: "pyfloat list \<Rightarrow> pyval" where
  "float_list xs = PList (map PFloat xs)"

definition detection_asdict :: "detection \<Rightarrow> pyval" where
  "detection_asdict d = PDict
     [(''label'', PStr (d_label d)),
      (''bbox_xywh'', float_list (d_bbox_xywh d)),
      (''confidence'', PFloat (d_confidence d)),
      (''depth_m'', (case d_depth_m d of None \<Rightarrow> PNone | Some z \<Rightarrow> PFloat z)),
      (''xyz_cam_m'', (case d_xyz_cam_m d of None \<Rightarrow> PNone | Some v \<Rightarrow> float_list v))]"

definition scene_asdict :: "scene_header \<Rightarrow> pyval" where
  "scene_asdict h = PDict
     [(''ts_ns'', PInt (sc_ts_ns h)),
      (''frame_seq'', PInt (sc_frame_seq h)),
      (''detections'', PList (sc_detections h))]"

definition command_asdict :: "voice_command \<Rightarrow> pyval" where
  "command_asdict c = PDict
     [(''ts_ns'', PInt (vc_ts_ns c)),
      (''text'', PStr (vc_text c)),
      (''is_abort'', PBool (vc_is_abort c))]"

definition status_asdict :: "orchestrator_status \<Rightarrow> pyval" where
  "status_asdict s = PDict
     [(''ts_ns'', PInt (os_ts_ns s)),
      (''state'', PStr (os_state s)),
      (''last_thought'', PStr (os_last_thought s))]"

text \<open>The request the orchestrator sends, and the call the bridge reads from it.\<close>

definition call_asdict :: "tool_call \<Rightarrow> pyval" where
  "call_asdict tc = PDict
     [(''request_id'', PStr (tc_request_id tc)),
      (''name'', PStr (tc_name tc)),
      (''args'', PDict (tc_args tc))]"

text \<open>\<open>hdr.get(k, d)\<close>: \<open>AttributeError\<close> on a value that is not a dictionary.\<close>

definition hdr_get :: "pyval \<Rightarrow> string \<Rightarrow> pyval \<Rightarrow> pyval result" where
  "hdr_get hdr k dflt = (case hdr of
     PDict d \<Rightarrow> Inr (case map_of d k of Some v \<Rightarrow> v | None \<Rightarrow> dflt)
   | _ \<Rightarrow> Inl (AttributeError ''get''))"

lemma hdr_get_PDict [simp]:
  "hdr_get (PDict d) k dflt = Inr (case map_of d k of Some v \<Rightarrow> v | None \<Rightarrow> dflt)"
  by (simp add: hdr_get_def)

text \<open>
  The reading of a command frame in \<open>_run_command_thread\<close>: each field with its default, converted.
  \<open>now\<close> is the clock reading used for a missing time stamp.
\<close>

definition decode_command ::
    "(pyfloat \<Rightarrow> string) \<Rightarrow> int \<Rightarrow> pyval \<Rightarrow> voice_command result" where
  "decode_command frepr now hdr =
     rbind (hdr_get hdr ''ts_ns'' (PInt now)) (\<lambda>t.
     rbind (py_int t) (\<lambda>ts_ns.
     rbind (hdr_get hdr ''text'' (PStr [])) (\<lambda>x.
     rbind (hdr_get hdr ''is_abort'' (PBool False)) (\<lambda>a.
       Inr \<lparr>vc_ts_ns = ts_ns, vc_text = str_val frepr x, vc_is_abort = truthy a\<rparr>))))"

lemma decode_command_asdict: "decode_command frepr now (command_asdict c) = Inr c"
  by (simp add: decode_command_def command_asdict_def str_val_def)

end
