(* ===== verification/PyQueue.thy ===== *)
theory PyQueue
  imports Prelude
begin

text \<open>
  \<open>queue.Queue(maxsize)\<close>, which the command queue of the orchestrator and the output queue of the
  sensor subscriber are: a record of its bound and its items, oldest first. \<open>put_nowait\<close> and
  \<open>get_nowait\<close> return \<open>None\<close> where Python raises \<open>queue.Full\<close> and \<open>queue.Empty\<close>. The laws its
  clients rely on are the locale \<open>bounded_queue\<close>.
\<close>

record 'a py_queue =
  q_max :: nat
  q_items :: "'a list"

definition new_queue :: "nat \<Rightarrow> 'a py_queue" where
  "new_queue n = \<lparr>q_max = n, q_items = []\<rparr>"

definition q_empty :: "'a py_queue \<Rightarrow> bool" where
  "q_empty q = (q_items q = [])"

text \<open>A bound of zero or less means no bound.\<close>

definition put_nowait :: "'a \<Rightarrow> 'a py_queue \<Rightarrow> 'a py_queue option" where
  "put_nowait x q =
     (if 0 < q_max q \<and> q_max q \<le> length (q_items q) then None
      else Some (q\<lparr>q_items := q_items q @ [x]\<rparr>))"

definition get_nowait :: "'a py_queue \<Rightarrow> ('a \<times> 'a py_queue) option" where
  "get_nowait q =
     (case q_items q of [] \<Rightarrow> None | x # xs \<Rightarrow> Some (x, q\<lparr>q_items := xs\<rparr>))"

text \<open>\<open>while True: q.get_nowait(); drained += 1\<close>, until \<open>queue.Empty\<close>.\<close>

function drain :: "'a py_queue \<Rightarrow> nat \<Rightarrow> 'a py_queue \<times> nat" where
  "drain q drained =
     (case get_nowait q of None \<Rightarrow> (q, drained) | Some (_, q') \<Rightarrow> drain q' (Suc drained))"
  by pat_completeness auto
termination
  by (relation "measure (\<lambda>(q, _). length (q_items q))")
     (auto simp: get_nowait_def split: list.splits)

declare drain.simps [simp del]

text \<open>
  Put with the policy \<open>drop the oldest on a full queue\<close> of \<open>_run_matcher\<close>: first a plain put, on
  \<open>Full\<close> a get and a second put; either of these failing drops the new item.
\<close>

definition put_drop_oldest :: "'a \<Rightarrow> 'a py_queue \<Rightarrow> 'a py_queue" where
  "put_drop_oldest x q =
     (case put_nowait x q of
        Some q' \<Rightarrow> q'
      | None \<Rightarrow> (case get_nowait q of
          None \<Rightarrow> q
        | Some (_, q') \<Rightarrow> (case put_nowait x q' of Some q'' \<Rightarrow> q'' | None \<Rightarrow> q')))"

locale bounded_queue =
  fixes put :: "'a \<Rightarrow> 'q \<Rightarrow> 'q option"
    and get :: "'q \<Rightarrow> ('a \<times> 'q) option"
    and items :: "'q \<Rightarrow> 'a list"
    and cap :: "'q \<Rightarrow> nat"
  assumes put_None_iff: "put x q = None \<longleftrightarrow> 0 < cap q \<and> cap q \<le> length (items q)"
    and put_Some: "put x q = Some q' \<Longrightarrow> items q' = items q @ [x] \<and> cap q' = cap q"
    and get_None_iff: "get q = None \<longleftrightarrow> items q = []"
    and get_Some: "get q = Some (x, q') \<Longrightarrow> items q = x # items q' \<and> cap q' = cap q"
begin

text \<open>The bound is kept by every operation.\<close>

definition bounded :: "'q \<Rightarrow> bool" where
  "bounded q \<longleftrightarrow> (0 < cap q \<longrightarrow> length (items q) \<le> cap q)"

lemma bounded_put: "put x q = Some q' \<Longrightarrow> bounded q'"
  using put_None_iff [of x q] put_Some [of x q q'] by (auto simp: bounded_def)

lemma bounded_get: "get q = Some (x, q') \<Longrightarrow> bounded q \<Longrightarrow> bounded q'"
  using get_Some [of q x q'] by (auto simp: bounded_def)

text \<open>A put into a queue just emptied cannot find it full.\<close>

lemma put_empty: "items q = [] \<Longrightarrow> \<exists>q'. put x q = Some q' \<and> items q' = [x] \<and> cap q' = cap q"
  using put_None_iff [of x q] put_Some [of x q] by (cases "put x q") auto

text \<open>First in, first out: what was put last is got after everything before it.\<close>

lemma get_after_put:
  assumes "put x q = Some q'"
  shows "\<exists>q''. get q' = Some (hd (items q @ [x]), q'') \<and> items q'' = tl (items q @ [x])"
proof -
  have i: "items q' = items q @ [x]" using put_Some [OF assms] by simp
  then obtain y q'' where g: "get q' = Some (y, q'')"
    using get_None_iff [of q'] by (cases "get q'") auto
  then show ?thesis using get_Some [OF g] i by (metis list.sel(1,3))
qed

text \<open>Making room by a get lets the next put through.\<close>

lemma put_after_get:
  assumes "get q = Some (y, q')" and "bounded q"
  shows "\<exists>q''. put x q' = Some q'' \<and> items q'' = tl (items q) @ [x] \<and> cap q'' = cap q"
proof -
  have q': "items q = y # items q'" "cap q' = cap q" using get_Some [OF assms(1)] by auto
  with assms(2) have "put x q' \<noteq> None"
    by (auto simp: put_None_iff bounded_def)
  then show ?thesis using put_Some [of x q'] q' by (cases "put x q'") auto
qed

end

interpretation pq: bounded_queue put_nowait get_nowait q_items q_max
  by unfold_locales
     (auto simp: put_nowait_def get_nowait_def split: if_splits list.splits)

lemma drain_empties: "drain q n = (q\<lparr>q_items := []\<rparr>, n + length (q_items q))"
proof (induction q n rule: drain.induct)
  case (1 q n)
  show ?case
  proof (cases "get_nowait q")
    case None
    moreover from this have "q_items q = []" by (simp add: pq.get_None_iff)
    ultimately show ?thesis by (simp add: drain.simps [of q n])
  next
    case (Some r)
    then obtain x q' where r: "get_nowait q = Some (x, q')" by (cases r) auto
    then have q': "q'\<lparr>q_items := []\<rparr> = q\<lparr>q_items := []\<rparr>" "length (q_items q) = Suc (length (q_items q'))"
      by (auto simp: get_nowait_def split: list.splits)
    from r have "drain q' (Suc n) = (q'\<lparr>q_items := []\<rparr>, Suc n + length (q_items q'))"
      by (rule "1.IH" [OF _ refl])
    with r q' show ?thesis by (simp add: drain.simps [of q n])
  qed
qed

lemma put_drop_oldest_items:
  assumes "pq.bounded q" and "0 < q_max q"
  shows "q_items (put_drop_oldest x q) = last_n (q_max q) (q_items q @ [x])"
    and "q_max (put_drop_oldest x q) = q_max q"
proof -
  have len: "length (q_items q) \<le> q_max q" using assms by (simp add: pq.bounded_def)
  have "q_items (put_drop_oldest x q) = last_n (q_max q) (q_items q @ [x])
    \<and> q_max (put_drop_oldest x q) = q_max q"
  proof (cases "put_nowait x q")
    case (Some q')
    then have "length (q_items q) < q_max q"
      using assms(2) by (auto simp: put_nowait_def split: if_splits)
    with Some pq.put_Some [OF Some] show ?thesis by (simp add: put_drop_oldest_def)
  next
    case None
    then have full: "length (q_items q) = q_max q"
      using len by (simp add: pq.put_None_iff)
    with assms(2) obtain y q' where g: "get_nowait q = Some (y, q')"
      using pq.get_None_iff [of q] by (cases "get_nowait q") auto
    then obtain q'' where "put_nowait x q' = Some q''"
        "q_items q'' = tl (q_items q) @ [x]" "q_max q'' = q_max q"
      using pq.put_after_get [OF g assms(1)] by blast
    moreover have "last_n (q_max q) (q_items q @ [x]) = tl (q_items q) @ [x]"
      using full assms(2) by (simp add: last_n_def drop_Suc [symmetric] flip: drop_tl)
        (cases "q_items q"; simp)
    ultimately show ?thesis using None g by (simp add: put_drop_oldest_def)
  qed
  then show "q_items (put_drop_oldest x q) = last_n (q_max q) (q_items q @ [x])"
    and "q_max (put_drop_oldest x q) = q_max q" by simp_all
qed

end
