(* ===== verification/Subscriber.thy ===== *)
theory Subscriber
  imports Messages PyQueue
begin

text \<open>
  \<open>python/lexaire/subscriber.py\<close>: the sensor subscriber that pairs RGB and depth frames by the
  publisher's sequence number. Its state is the two insertion-ordered buffers, the output queue and
  the once-only warning flag; its steps are the bodies of its three threads, each of which runs
  under the buffer lock, and the consumer's \<open>get\<close>. The JSON, JPEG, zstd and numpy calls are the
  fields of \<open>sensor_libs\<close>. An image is its rows of pixels.
\<close>

section \<open>Data\<close>

type_synonym rgb_image = "(nat \<times> nat \<times> nat) list list"
type_synonym depth_image = "nat list list"

record frameset =
  fs_ts_ns :: int
  fs_seq :: int
  fs_rgb :: rgb_image
  fs_depth :: depth_image
  fs_depth_scale_m :: pyfloat
  fs_intrinsics :: pyval

record sensor_libs =
  lib_loads :: "string \<Rightarrow> pyval result"
  lib_jpeg :: "string \<Rightarrow> rgb_image result"
  lib_zstd :: "string \<Rightarrow> string result"
  lib_frombuffer_u2 :: "string \<Rightarrow> nat list result"
  lib_reshape :: "pyval \<Rightarrow> pyval \<Rightarrow> nat list \<Rightarrow> depth_image result"

type_synonym 'a frame_buf = "(int \<times> pyval \<times> 'a) list"

record subscriber =
  buffer_size :: nat
  rgb_buf :: "rgb_image frame_buf"
  depth_buf :: "depth_image frame_buf"
  out_q :: "frameset py_queue"
  warned_missing_depth_scale :: bool

definition new_subscriber :: "nat \<Rightarrow> subscriber" where
  "new_subscriber n =
     \<lparr>buffer_size = n, rgb_buf = [], depth_buf = [], out_q = new_queue 16,
      warned_missing_depth_scale = False\<rparr>"

section \<open>Stream threads\<close>

text \<open>\<open>hdr[k]\<close>: \<open>KeyError\<close> on a missing key, \<open>TypeError\<close> on a value that is not a dictionary.\<close>

definition hdr_item :: "pyval \<Rightarrow> string \<Rightarrow> pyval result" where
  "hdr_item hdr k = (case hdr of
     PDict d \<Rightarrow> (case map_of d k of Some v \<Rightarrow> Inr v | None \<Rightarrow> Inl (KeyError k))
   | _ \<Rightarrow> Inl (TypeError ''object is not subscriptable by str''))"

text \<open>\<open>hdr_bytes, payload = sock.recv_multipart()\<close>\<close>

definition two_parts :: "string list \<Rightarrow> (string \<times> string) result" where
  "two_parts parts = (case parts of
     [h, p] \<Rightarrow> Inr (h, p) | _ \<Rightarrow> Inl (ValueError ''wrong number of values to unpack''))"

definition swap_channels :: "nat \<times> nat \<times> nat \<Rightarrow> nat \<times> nat \<times> nat" where
  "swap_channels px = (case px of (a, b, c) \<Rightarrow> (c, b, a))"

definition decode_rgb :: "sensor_libs \<Rightarrow> string list \<Rightarrow> (int \<times> pyval \<times> rgb_image) result" where
  "decode_rgb libs parts =
     rbind (two_parts parts) (\<lambda>(hdr_bytes, payload).
     rbind (lib_loads libs hdr_bytes) (\<lambda>hdr.
     rbind (lib_jpeg libs payload) (\<lambda>img.
     rbind (hdr_item hdr ''seq'') (\<lambda>v.
     rbind (py_int v) (\<lambda>seq.
       Inr (seq, hdr, map (map swap_channels) img))))))"

definition decode_depth :: "sensor_libs \<Rightarrow> string list \<Rightarrow> (int \<times> pyval \<times> depth_image) result" where
  "decode_depth libs parts =
     rbind (two_parts parts) (\<lambda>(hdr_bytes, payload).
     rbind (lib_loads libs hdr_bytes) (\<lambda>hdr.
     rbind (lib_zstd libs payload) (\<lambda>raw.
     rbind (lib_frombuffer_u2 libs raw) (\<lambda>us.
     rbind (hdr_item hdr ''h'') (\<lambda>h.
     rbind (hdr_item hdr ''w'') (\<lambda>w.
     rbind (lib_reshape libs h w us) (\<lambda>depth.
     rbind (hdr_item hdr ''seq'') (\<lambda>v.
     rbind (py_int v) (\<lambda>seq.
       Inr (seq, hdr, depth))))))))))"

text \<open>\<open>_trim_locked\<close>: the oldest entries go until the buffer fits.\<close>

function trim :: "nat \<Rightarrow> ('k \<times> 'v) list \<Rightarrow> ('k \<times> 'v) list" where
  "trim n [] = []"
| "trim n ((k, v) # buf) =
     (if n < length ((k, v) # buf) then trim n (AList.delete k ((k, v) # buf)) else (k, v) # buf)"
  by pat_completeness auto
termination
  by (relation "measure (\<lambda>(n, buf). length buf)") (auto simp: le_imp_less_Suc length_delete_le)

definition store :: "nat \<Rightarrow> int \<times> pyval \<times> 'a \<Rightarrow> 'a frame_buf \<Rightarrow> 'a frame_buf" where
  "store n e buf = trim n (AList.update (fst e) (snd e) buf)"

text \<open>One iteration of \<open>_run_rgb\<close> and of \<open>_run_depth\<close> with a message at hand.\<close>

definition on_rgb :: "sensor_libs \<Rightarrow> string list \<Rightarrow> subscriber \<Rightarrow> subscriber" where
  "on_rgb libs parts s = (case decode_rgb libs parts of
     Inl _ \<Rightarrow> s
   | Inr e \<Rightarrow> s\<lparr>rgb_buf := store (buffer_size s) e (rgb_buf s)\<rparr>)"

definition on_depth :: "sensor_libs \<Rightarrow> string list \<Rightarrow> subscriber \<Rightarrow> subscriber" where
  "on_depth libs parts s = (case decode_depth libs parts of
     Inl _ \<Rightarrow> s
   | Inr e \<Rightarrow> s\<lparr>depth_buf := store (buffer_size s) e (depth_buf s)\<rparr>)"

section \<open>Matching\<close>

text \<open>
  The body of the \<open>try\<close> in \<open>_try_match_locked\<close>: the depth scale (zero when missing, with a warning
  once), then the fields in the order the constructor call evaluates them.
\<close>

definition make_frameset ::
    "int \<Rightarrow> pyval \<times> rgb_image \<Rightarrow> pyval \<times> depth_image \<Rightarrow> frameset result" where
  "make_frameset seq r d =
     rbind (hdr_get (fst d) ''depth_scale_m'' PNone) (\<lambda>scale_raw.
     rbind (if scale_raw = PNone then Inr (Fin 0) else py_float scale_raw) (\<lambda>scale.
     rbind (hdr_item (fst r) ''ts_ns'') (\<lambda>t.
     rbind (py_int t) (\<lambda>ts_ns.
     rbind (hdr_item (fst r) ''intrinsics'') (\<lambda>intr.
       Inr \<lparr>fs_ts_ns = ts_ns, fs_seq = seq, fs_rgb = snd r, fs_depth = snd d,
            fs_depth_scale_m = scale, fs_intrinsics = intr\<rparr>)))))"

definition scale_missing :: "pyval \<times> depth_image \<Rightarrow> bool" where
  "scale_missing d = (hdr_get (fst d) ''depth_scale_m'' PNone = Inr PNone)"

text \<open>\<open>except (KeyError, ValueError, TypeError)\<close>; anything else ends the thread.\<close>

definition matcher_catches :: "py_error \<Rightarrow> bool" where
  "matcher_catches e = (case e of KeyError _ \<Rightarrow> True | ValueError _ \<Rightarrow> True | TypeError _ \<Rightarrow> True | _ \<Rightarrow> False)"

fun match_seqs :: "int list \<Rightarrow> frameset list \<Rightarrow> subscriber \<Rightarrow> subscriber \<times> frameset list result" where
  "match_seqs [] out s = (s, Inr out)"
| "match_seqs (seq # seqs) out s =
     (case (map_of (rgb_buf s) seq, map_of (depth_buf s) seq) of
        (Some r, Some d) \<Rightarrow>
          (let s' = s\<lparr>rgb_buf := AList.delete seq (rgb_buf s),
                      depth_buf := AList.delete seq (depth_buf s),
                      warned_missing_depth_scale := warned_missing_depth_scale s \<or> scale_missing d\<rparr>
           in case make_frameset seq r d of
                Inr fs \<Rightarrow> match_seqs seqs (out @ [fs]) s'
              | Inl e \<Rightarrow> (if matcher_catches e then match_seqs seqs out s' else (s', Inl e)))
      | _ \<Rightarrow> (s, Inl (KeyError (int_dec seq))))"

definition common_seqs :: "subscriber \<Rightarrow> int list" where
  "common_seqs s = sort (filter (\<lambda>k. k \<in> set (map fst (depth_buf s))) (map fst (rgb_buf s)))"

definition try_match :: "subscriber \<Rightarrow> subscriber \<times> frameset list result" where
  "try_match s = match_seqs (common_seqs s) [] s"

text \<open>
  One pass of \<open>_run_matcher\<close> that has found its matches: each goes to the output queue, dropping
  the oldest frameset when the queue is full. The second component is the exception that ends the
  thread, if one does.
\<close>

definition run_matcher :: "subscriber \<Rightarrow> subscriber \<times> py_error option" where
  "run_matcher s = (case try_match s of
     (s', Inr matched) \<Rightarrow> (s'\<lparr>out_q := foldl (\<lambda>q fs. put_drop_oldest fs q) (out_q s') matched\<rparr>, None)
   | (s', Inl e) \<Rightarrow> (s', Some e))"

definition sub_get :: "subscriber \<Rightarrow> frameset option \<times> subscriber" where
  "sub_get s = (case get_nowait (out_q s) of
     Some (fs, q) \<Rightarrow> (Some fs, s\<lparr>out_q := q\<rparr>) | None \<Rightarrow> (None, s))"

section \<open>The subscriber's invariant\<close>

text \<open>The steps of its threads and of its consumer, in any order.\<close>

datatype sub_event = RgbMsg "string list" | DepthMsg "string list" | Match | Get

fun sub_step :: "sensor_libs \<Rightarrow> subscriber \<Rightarrow> sub_event \<Rightarrow> subscriber" where
  "sub_step libs s (RgbMsg m) = on_rgb libs m s"
| "sub_step libs s (DepthMsg m) = on_depth libs m s"
| "sub_step libs s Match = fst (run_matcher s)"
| "sub_step libs s Get = snd (sub_get s)"

definition sub_inv :: "subscriber \<Rightarrow> bool" where
  "sub_inv s \<longleftrightarrow>
     distinct (map fst (rgb_buf s)) \<and> distinct (map fst (depth_buf s))
     \<and> length (rgb_buf s) \<le> buffer_size s \<and> length (depth_buf s) \<le> buffer_size s
     \<and> q_max (out_q s) = 16 \<and> pq.bounded (out_q s)"

lemma trim_distinct: "distinct (map fst buf) \<Longrightarrow> trim n buf = last_n n buf"
proof (induction n buf rule: trim.induct)
  case (2 n k v buf)
  then have "AList.delete k ((k, v) # buf) = buf"
    by simp
  with 2 show ?case
    by (auto simp: last_n_def Suc_diff_le)
qed (simp add: last_n_def)

lemma store_distinct: "distinct (map fst buf) \<Longrightarrow> distinct (map fst (store n e buf))"
  by (simp add: store_def trim_distinct od.distinct_put last_n_def flip: drop_map)

lemma store_length: "distinct (map fst buf) \<Longrightarrow> length (store n e buf) \<le> n"
  by (simp add: store_def trim_distinct od.distinct_put)

lemma store_last:
  assumes "distinct (map fst buf)" and "0 < n" and "seq \<notin> set (map fst buf)"
  shows "map_of (store n (seq, x) buf) seq = Some x"
proof -
  have "AList.update seq x buf = buf @ [(seq, x)]"
    using assms(3) by (induction buf) auto
  then have "store n (seq, x) buf = last_n (n - 1) buf @ [(seq, x)]"
    using assms od.distinct_put [OF assms(1), of seq x]
    by (simp add: store_def trim_distinct last_n_snoc)
  moreover have "seq \<notin> fst ` set (last_n (n - 1) buf)"
    using assms(3) set_last_n [of "n - 1" buf] by auto
  ultimately show ?thesis
    by (simp add: map_add_def map_of_eq_None_iff [THEN iffD2])
qed

text \<open>What matching leaves in place, whether or not it raises.\<close>

definition popped :: "int \<Rightarrow> pyval \<times> depth_image \<Rightarrow> subscriber \<Rightarrow> subscriber" where
  "popped seq d s = s\<lparr>rgb_buf := AList.delete seq (rgb_buf s),
      depth_buf := AList.delete seq (depth_buf s),
      warned_missing_depth_scale := warned_missing_depth_scale s \<or> scale_missing d\<rparr>"

lemma popped_simps [simp]:
  "buffer_size (popped seq d s) = buffer_size s" "out_q (popped seq d s) = out_q s"
  "rgb_buf (popped seq d s) = filter (\<lambda>e. fst e \<noteq> seq) (rgb_buf s)"
  "depth_buf (popped seq d s) = filter (\<lambda>e. fst e \<noteq> seq) (depth_buf s)"
  by (auto simp: popped_def AList.delete_eq split_def intro!: filter_cong)

text \<open>The four ways the loop body can go.\<close>

lemma match_seqs_Cons_cases:
  assumes "match_seqs (seq # seqs) out s = (s', r)"
  obtains (key) "s' = s" "r = Inl (KeyError (int_dec seq))"
      "map_of (rgb_buf s) seq = None \<or> map_of (depth_buf s) seq = None"
    | (raise) x d e where "map_of (rgb_buf s) seq = Some x" "map_of (depth_buf s) seq = Some d"
        "make_frameset seq x d = Inl e" "\<not> matcher_catches e" "s' = popped seq d s" "r = Inl e"
    | (skip) x d e where "map_of (rgb_buf s) seq = Some x" "map_of (depth_buf s) seq = Some d"
        "make_frameset seq x d = Inl e" "matcher_catches e"
        "match_seqs seqs out (popped seq d s) = (s', r)"
    | (emit) x d fs where "map_of (rgb_buf s) seq = Some x" "map_of (depth_buf s) seq = Some d"
        "make_frameset seq x d = Inr fs"
        "match_seqs seqs (out @ [fs]) (popped seq d s) = (s', r)"
  using assms
  by (auto simp: popped_def [symmetric] Let_def split: option.splits sum.splits if_splits)

lemma match_seqs_frame:
  "match_seqs seqs out s = (s', r) \<Longrightarrow>
     buffer_size s' = buffer_size s \<and> out_q s' = out_q s
     \<and> (\<exists>ks. rgb_buf s' = filter (\<lambda>e. fst e \<notin> ks) (rgb_buf s)
           \<and> depth_buf s' = filter (\<lambda>e. fst e \<notin> ks) (depth_buf s))"
proof (induction seqs arbitrary: out s)
  case Nil
  then show ?case by (auto intro!: exI [of _ "{}"])
next
  case (Cons seq seqs)
  have lift: ?case if "match_seqs seqs out' (popped seq d s) = (s', r)" for out' d
  proof -
    from Cons.IH [OF that] obtain ks where "buffer_size s' = buffer_size s" "out_q s' = out_q s"
        "rgb_buf s' = filter (\<lambda>e. fst e \<notin> insert seq ks) (rgb_buf s)"
        "depth_buf s' = filter (\<lambda>e. fst e \<notin> insert seq ks) (depth_buf s)"
      by (auto simp: conj_commute)
    then show ?thesis by blast
  qed
  show ?case using Cons.prems
  proof (cases rule: match_seqs_Cons_cases)
    case key
    then show ?thesis by (auto intro!: exI [of _ "{}"])
  next
    case raise
    then show ?thesis by (auto intro!: exI [of _ "{seq}"])
  next
    case skip
    from skip(5) show ?thesis by (rule lift)
  next
    case emit
    from emit(4) show ?thesis by (rule lift)
  qed
qed

text \<open>A completed pass removes the sequence numbers it went over from both buffers.\<close>

lemma match_seqs_removes:
  "match_seqs seqs out s = (s', Inr fss) \<Longrightarrow>
     rgb_buf s' = filter (\<lambda>e. fst e \<notin> set seqs) (rgb_buf s)
     \<and> depth_buf s' = filter (\<lambda>e. fst e \<notin> set seqs) (depth_buf s)"
proof (induction seqs arbitrary: out s)
  case (Cons seq seqs)
  have lift: ?case if "match_seqs seqs out' (popped seq d s) = (s', Inr fss)" for out' d
    using Cons.IH [OF that] by (auto intro!: filter_cong)
  show ?case using Cons.prems
  proof (cases rule: match_seqs_Cons_cases)
    case skip
    from skip(5) show ?thesis by (rule lift)
  next
    case emit
    from emit(4) show ?thesis by (rule lift)
  qed auto
qed simp

text \<open>The frameset a sequence number gives, if both frames are there and well formed.\<close>

definition emits :: "subscriber \<Rightarrow> int \<Rightarrow> frameset option" where
  "emits s seq =
     (case (map_of (rgb_buf s) seq, map_of (depth_buf s) seq) of
        (Some x, Some d) \<Rightarrow> (case make_frameset seq x d of Inr fs \<Rightarrow> Some fs | Inl _ \<Rightarrow> None)
      | _ \<Rightarrow> None)"

lemma map_of_filter_neq: "k \<noteq> l \<Longrightarrow> map_of (filter (\<lambda>e. fst e \<noteq> l) b) k = map_of b k"
  by (induction b) auto

lemma emits_popped: "k \<noteq> seq \<Longrightarrow> emits (popped seq d s) k = emits s k"
  by (simp add: emits_def map_of_filter_neq)

lemma map_filter_cong: "(\<And>x. x \<in> set xs \<Longrightarrow> f x = g x) \<Longrightarrow> List.map_filter f xs = List.map_filter g xs"
  by (induction xs) (auto simp: map_filter_simps split: option.splits)

lemma match_seqs_emits:
  "distinct seqs \<Longrightarrow> match_seqs seqs out s = (s', Inr fss) \<Longrightarrow> fss = out @ List.map_filter (emits s) seqs"
proof (induction seqs arbitrary: out s)
  case (Cons seq seqs)
  have rest: "List.map_filter (emits (popped seq d s)) seqs = List.map_filter (emits s) seqs" for d
    using Cons.prems(1) by (intro map_filter_cong emits_popped) auto
  show ?case using Cons.prems(2)
  proof (cases rule: match_seqs_Cons_cases)
    case (skip x d e)
    then have "emits s seq = None" by (simp add: emits_def)
    then show ?thesis
      using Cons.IH [OF _ skip(5)] Cons.prems(1) rest by (simp add: map_filter_simps)
  next
    case (emit x d fs)
    then have "emits s seq = Some fs" by (simp add: emits_def)
    then show ?thesis
      using Cons.IH [OF _ emit(4)] Cons.prems(1) rest by (simp add: map_filter_simps)
  qed auto
qed (simp add: map_filter_simps)

lemma make_frameset_seq: "make_frameset seq x d = Inr fs \<Longrightarrow> fs_seq fs = seq"
  by (auto simp: make_frameset_def rbind_Inr_iff)

lemma emits_Some:
  "emits s seq = Some fs \<Longrightarrow> fs_seq fs = seq \<and>
    (\<exists>x d. map_of (rgb_buf s) seq = Some x \<and> map_of (depth_buf s) seq = Some d
       \<and> make_frameset seq x d = Inr fs)"
  by (auto simp: emits_def dest: make_frameset_seq split: option.splits sum.splits)

lemma set_common_seqs:
  "set (common_seqs s) = set (map fst (rgb_buf s)) \<inter> set (map fst (depth_buf s))"
  by (auto simp: common_seqs_def)

lemma distinct_common_seqs: "distinct (map fst (rgb_buf s)) \<Longrightarrow> distinct (common_seqs s)"
  by (simp add: common_seqs_def)

text \<open>Every step keeps the invariant.\<close>

lemma distinct_keys_filter: "distinct (map fst b) \<Longrightarrow> distinct (map fst (filter P b))"
  by (simp add: distinct_map_filter)

lemma put_drop_bounded:
  "pq.bounded q \<Longrightarrow> q_max q = 16 \<Longrightarrow>
     pq.bounded (put_drop_oldest x q) \<and> q_max (put_drop_oldest x q) = 16"
  by (simp add: put_drop_oldest_items pq.bounded_def)

lemma put_all_bounded:
  "pq.bounded q \<Longrightarrow> q_max q = 16 \<Longrightarrow>
     pq.bounded (foldl (\<lambda>q fs. put_drop_oldest fs q) q xs)
     \<and> q_max (foldl (\<lambda>q fs. put_drop_oldest fs q) q xs) = 16"
  by (induction xs arbitrary: q) (simp_all add: put_drop_bounded)

lemma length_filter_bound: "length b \<le> n \<Longrightarrow> length (filter P b) \<le> n"
  by (rule order_trans [OF length_filter_le])

lemma match_inv:
  assumes "sub_inv s" and "try_match s = (s', r)"
  shows "sub_inv s'"
proof -
  from match_seqs_frame [OF assms(2) [unfolded try_match_def]] obtain ks where
      "buffer_size s' = buffer_size s" "out_q s' = out_q s"
      "rgb_buf s' = filter (\<lambda>e. fst e \<notin> ks) (rgb_buf s)"
      "depth_buf s' = filter (\<lambda>e. fst e \<notin> ks) (depth_buf s)"
    by blast
  then show ?thesis
    using assms(1) by (simp add: sub_inv_def distinct_keys_filter length_filter_bound)
qed

lemma sub_step_inv: "sub_inv s \<Longrightarrow> sub_inv (sub_step libs s e)"
proof (cases e)
  case (RgbMsg m)
  assume "sub_inv s"
  then show ?thesis
    by (auto simp: RgbMsg on_rgb_def sub_inv_def store_distinct store_length split: sum.splits)
next
  case (DepthMsg m)
  assume "sub_inv s"
  then show ?thesis
    by (auto simp: DepthMsg on_depth_def sub_inv_def store_distinct store_length split: sum.splits)
next
  case Match
  assume s: "sub_inv s"
  obtain s' r where m: "try_match s = (s', r)" by fastforce
  with s have "sub_inv s'" by (rule match_inv)
  then show ?thesis
    using m by (cases r) (auto simp: Match run_matcher_def sub_inv_def put_all_bounded)
next
  case Get
  assume "sub_inv s"
  then show ?thesis
    using pq.bounded_get pq.get_Some
    by (fastforce simp: Get sub_get_def sub_inv_def split: option.splits)
qed

lemma new_subscriber_inv: "sub_inv (new_subscriber n)"
  by (simp add: sub_inv_def new_subscriber_def new_queue_def pq.bounded_def)

end
