(* ===== verification/Orch_State.thy ===== *)
theory Orch_State
  imports Config Transport Subscriber
begin

text \<open>
  \<open>python/services/orchestrator/main.py\<close>, first part: the mission record, the orchestrator's
  state and its construction from the configuration, and the bodies of the four threads that feed
  it (voice commands, scene, telemetry, frames).

  The state holds what the object's attributes hold; \<open>status_out\<close> and \<open>req_sent\<close> are the
  statuses published and the requests handed to the bridge socket so far, \<open>clock_ns\<close> and
  \<open>clock_mono\<close> the readings of the wall clock and the monotonic clock. Log lines are not modelled.
\<close>

section \<open>Missions\<close>

record step =
  st_tool :: string
  st_args :: pydict
  st_ok :: bool
  st_error :: pyval
  st_ts_ns :: int

record mission =
  goal_text :: string
  started_ts_ns :: int
  current_step :: nat
  step_history :: "step list"

definition new_mission :: "string \<Rightarrow> int \<Rightarrow> mission" where
  "new_mission goal now =
     \<lparr>goal_text = goal, started_ts_ns = now, current_step = 0, step_history = []\<rparr>"

definition mission_record ::
    "int \<Rightarrow> string \<Rightarrow> pydict \<Rightarrow> tool_result \<Rightarrow> bool \<Rightarrow> mission \<Rightarrow> mission" where
  "mission_record now tool_name args result executed m =
     (let m' = m\<lparr>step_history := step_history m @
            [\<lparr>st_tool = tool_name, st_args = args, st_ok = tr_ok result,
              st_error = tr_error result, st_ts_ns = now\<rparr>]\<rparr>
      in if executed then m'\<lparr>current_step := current_step m' + 1\<rparr> else m')"

text \<open>\<open>_record_skipped\<close>: the calls of a batch that did not run, as failures.\<close>

definition skipped_result :: "string \<Rightarrow> tool_call \<Rightarrow> tool_result" where
  "skipped_result reason tc =
     \<lparr>tr_request_id = PStr (tc_request_id tc), tr_ok = False, tr_error = PStr reason, tr_data = PNone\<rparr>"

definition record_skipped :: "int \<Rightarrow> string \<Rightarrow> tool_call list \<Rightarrow> mission \<Rightarrow> mission" where
  "record_skipped now reason remaining m =
     foldl (\<lambda>m tc. mission_record now (tc_name tc) (tc_args tc) (skipped_result reason tc) False m)
       m remaining"

lemma mission_record_simps [simp]:
  "goal_text (mission_record now n a r x m) = goal_text m"
  "map st_tool (step_history (mission_record now n a r x m)) = map st_tool (step_history m) @ [n]"
  "length (step_history (mission_record now n a r x m)) = Suc (length (step_history m))"
  "current_step (mission_record now n a r x m) = current_step m + (if x then 1 else 0)"
  by (simp_all add: mission_record_def Let_def)

lemma step_history_record:
  "step_history (mission_record now n a r x m) = step_history m @
     [\<lparr>st_tool = n, st_args = a, st_ok = tr_ok r, st_error = tr_error r, st_ts_ns = now\<rparr>]"
  by (simp add: mission_record_def Let_def)

lemma record_skipped_simps [simp]:
  "goal_text (record_skipped now why tcs m) = goal_text m"
  "current_step (record_skipped now why tcs m) = current_step m"
  by (induction tcs arbitrary: m) (simp_all add: record_skipped_def)

lemma step_history_skipped:
  "step_history (record_skipped now why tcs m) = step_history m @
     map (\<lambda>tc. \<lparr>st_tool = tc_name tc, st_args = tc_args tc, st_ok = False, st_error = PStr why,
                st_ts_ns = now\<rparr>) tcs"
  by (induction tcs arbitrary: m)
     (simp_all add: record_skipped_def step_history_record skipped_result_def)

section \<open>What the VLM sees and says\<close>

record vlm_context =
  vx_user_command :: string
  vx_telemetry :: pydict
  vx_scene :: pydict
  vx_rgb :: "rgb_image option"
  vx_safety :: "(string \<times> pyfloat) list"
  vx_telemetry_history :: "pyval list"
  vx_mission :: "mission option"

record vlm_decision =
  thought :: string
  tool_calls :: "tool_call list"

section \<open>State\<close>

record orch =
  o_cfg :: pydict
  stop_event :: bool
  preempt_event :: bool
  command_q :: "voice_command py_queue"
  history :: "string list"
  latest_scene :: pyval
  latest_telem :: pyval
  telem_history_s :: pyfloat
  telem_history :: "(real \<times> pyval) list"
  latest_fs :: "frameset option"
  latest_fs_ts :: real
  frame_max_age_s :: pyfloat
  safety_snapshot :: "(string \<times> pyfloat) list"
  bridge_offline_flag :: bool
  req_open :: bool
  abort_kw :: string
  current_arm_authorized :: bool
  status_out :: "orchestrator_status list"
  req_sent :: "pyval list"
  clock_ns :: int
  clock_mono :: real

text \<open>An endpoint of the configuration, as the helper that gets it uses it.\<close>

definition str_endpoint :: "pyval \<Rightarrow> string result" where
  "str_endpoint v = (case v of PStr s \<Rightarrow> Inr s | _ \<Rightarrow> Inl (AttributeError ''startswith''))"

definition connect_endpoint :: "pyval \<Rightarrow> string result" where
  "connect_endpoint v = (case v of PStr s \<Rightarrow> Inr s | _ \<Rightarrow> Inl (TypeError ''expected str''))"

text \<open>\<open>_build_vlm\<close>; \<open>gemini\<close> is the outcome of \<open>build_gemini\<close>.\<close>

definition build_vlm :: "(pydict \<Rightarrow> unit result) \<Rightarrow> pydict \<Rightarrow> unit result" where
  "build_vlm gemini cfg =
     (let provider = cfg_get cfg ''perception.vlm.provider'' (PStr ''gemini'')
      in if provider = PStr ''gemini'' then gemini cfg
         else Inl (ValueError ''unknown vlm provider''))"

record orch_socks =
  command_pull :: sock
  status_pub :: sock
  scene_sub :: sock
  telem_sub :: sock

definition abort_keyword :: "pydict \<Rightarrow> string result" where
  "abort_keyword cfg =
     (case cfg_get cfg ''stt.abort_keyword'' (PStr ''abort'') of
        PStr s \<Rightarrow> (if strip s = [] then Inl (ValueError ''stt.abort_keyword is empty/whitespace'')
                   else Inr (strip s))
      | _ \<Rightarrow> Inl (AttributeError ''strip''))"

definition safety_limits :: "pydict \<Rightarrow> (string \<times> pyfloat) list result" where
  "safety_limits cfg =
     rbind (py_float (cfg_get cfg ''safety.max_altitude_m'' (PFloat (Fin 5)))) (\<lambda>a.
     rbind (py_float (cfg_get cfg ''safety.geofence_radius_m'' (PFloat (Fin 10)))) (\<lambda>g.
     rbind (py_float (cfg_get cfg ''safety.max_velocity_mps'' (PFloat (Fin (3 / 2))))) (\<lambda>v.
       Inr [(''max_altitude_m'', a), (''geofence_radius_m'', g), (''max_velocity_mps'', v)])))"

definition orch_sockets :: "pydict \<Rightarrow> orch_socks result" where
  "orch_sockets cfg =
     rbind (cfg_require cfg ''services.orchestrator_command_pull'') (\<lambda>e1.
     rbind (str_endpoint e1) (\<lambda>e1. rbind (pull e1 16) (\<lambda>cp.
     rbind (cfg_require cfg ''services.orchestrator_status_pub'') (\<lambda>e2.
     rbind (str_endpoint e2) (\<lambda>e2. rbind (pub e2 4) (\<lambda>sp.
     rbind (cfg_require cfg ''services.perception_scene_pub'') (\<lambda>e3.
     rbind (connect_endpoint e3) (\<lambda>e3.
     rbind (cfg_require cfg ''services.telemetry_pub'') (\<lambda>e4.
     rbind (connect_endpoint e4) (\<lambda>e4.
       Inr \<lparr>command_pull = cp, status_pub = sp, scene_sub = sub e3 8 [] None,
            telem_sub = sub e4 8 [] None\<rparr>))))))))))"

text \<open>\<open>Orchestrator.__init__\<close>; \<open>now\<close> and \<open>mono_now\<close> are the clocks at that time.\<close>

definition orch_init ::
    "(pydict \<Rightarrow> unit result) \<Rightarrow> int \<Rightarrow> real \<Rightarrow> pydict \<Rightarrow> (orch \<times> orch_socks) result" where
  "orch_init gemini now mono_now cfg =
     rbind (build_vlm gemini cfg) (\<lambda>_.
     rbind (py_float (cfg_get cfg ''orchestrator.telemetry_history_seconds'' (PFloat (Fin 5)))) (\<lambda>hs.
     rbind (cfg_require cfg ''sensor.channels.rgb'') (\<lambda>_.
     rbind (cfg_require cfg ''sensor.channels.depth'') (\<lambda>_.
     rbind (py_float (cfg_get cfg ''orchestrator.frame_max_age_s'' (PFloat (Fin 2)))) (\<lambda>age.
     rbind (orch_sockets cfg) (\<lambda>socks.
     rbind (cfg_require cfg ''services.flight_bridge_rep'') (\<lambda>_.
     rbind (safety_limits cfg) (\<lambda>limits.
     rbind (abort_keyword cfg) (\<lambda>kw.
       Inr (\<lparr>o_cfg = cfg, stop_event = False, preempt_event = False, command_q = new_queue 16,
             history = [], latest_scene = PDict [], latest_telem = PDict [],
             telem_history_s = hs, telem_history = [], latest_fs = None, latest_fs_ts = 0,
             frame_max_age_s = age, safety_snapshot = limits, bridge_offline_flag = False,
             req_open = False, abort_kw = kw, current_arm_authorized = False,
             status_out = [], req_sent = [], clock_ns = now, clock_mono = mono_now\<rparr>, socks))))))))))"

section \<open>The feeding threads\<close>

text \<open>
  \<open>_run_command_thread\<close> with a frame at hand. An abort empties the queue, goes in and raises the
  preempt signal; a plain command is dropped when the queue is full; any exception is logged and
  leaves the state as it was at that point.
\<close>

definition on_command_frame :: "(pyfloat \<Rightarrow> string) \<Rightarrow> pyval result \<Rightarrow> orch \<Rightarrow> orch" where
  "on_command_frame frepr frame s =
     (case rbind frame (decode_command frepr (clock_ns s)) of
        Inl _ \<Rightarrow> s
      | Inr cmd \<Rightarrow>
          (if vc_is_abort cmd then
             (let (q, drained) = drain (command_q s) 0
              in case put_nowait cmd q of
                   Some q' \<Rightarrow> s\<lparr>command_q := q', preempt_event := True\<rparr>
                 | None \<Rightarrow> s\<lparr>command_q := q\<rparr>)
           else (case put_nowait cmd (command_q s) of
                   Some q' \<Rightarrow> s\<lparr>command_q := q'\<rparr>
                 | None \<Rightarrow> s)))"

definition on_scene_frame :: "pyval result \<Rightarrow> orch \<Rightarrow> orch" where
  "on_scene_frame frame s = (case frame of Inl _ \<Rightarrow> s | Inr hdr \<Rightarrow> s\<lparr>latest_scene := hdr\<rparr>)"

text \<open>The ring buffer: append, then pop from the left while older than the window.\<close>

definition prune :: "pyfloat \<Rightarrow> (real \<times> pyval) list \<Rightarrow> (real \<times> pyval) list" where
  "prune cutoff h = dropWhile (\<lambda>e. flt_less (Fin (fst e)) cutoff) h"

definition on_telem_frame :: "pyval result \<Rightarrow> orch \<Rightarrow> orch" where
  "on_telem_frame frame s =
     (case frame of
        Inl _ \<Rightarrow> s
      | Inr hdr \<Rightarrow>
          (let now = clock_mono s; cutoff = flt_sub (Fin now) (telem_history_s s)
           in s\<lparr>latest_telem := hdr, telem_history := prune cutoff (telem_history s @ [(now, hdr)])\<rparr>))"

definition on_frameset :: "frameset \<Rightarrow> orch \<Rightarrow> orch" where
  "on_frameset fs s = s\<lparr>latest_fs := Some fs, latest_fs_ts := clock_mono s\<rparr>"

text \<open>
  Everything that can happen to the state between two steps of the main thread: a message on one of
  the sockets, a frameset from the subscriber, the stop signal, the passing of time.
\<close>

datatype thread_event =
    EvCommand "pyval result"
  | EvScene "pyval result"
  | EvTelem "pyval result"
  | EvFrame frameset
  | EvStop
  | EvElapse int real

fun thread_step :: "(pyfloat \<Rightarrow> string) \<Rightarrow> orch \<Rightarrow> thread_event \<Rightarrow> orch" where
  "thread_step frepr s (EvCommand f) = on_command_frame frepr f s"
| "thread_step frepr s (EvScene f) = on_scene_frame f s"
| "thread_step frepr s (EvTelem f) = on_telem_frame f s"
| "thread_step frepr s (EvFrame fs) = on_frameset fs s"
| "thread_step frepr s EvStop = s\<lparr>stop_event := True\<rparr>"
| "thread_step frepr s (EvElapse ns secs) =
     s\<lparr>clock_ns := clock_ns s + ns, clock_mono := clock_mono s + max 0 secs\<rparr>"

definition thread_steps :: "(pyfloat \<Rightarrow> string) \<Rightarrow> orch \<Rightarrow> thread_event list \<Rightarrow> orch" where
  "thread_steps frepr s evs = foldl (thread_step frepr) s evs"

end
