(* ===== verification/Orch_Mission.thy ===== *)
theory Orch_Mission
  imports Orch_State
begin

text \<open>
  \<open>python/services/orchestrator/main.py\<close>, second part: the main thread. \<open>dispatch_tool_call\<close>,
  the handling of one command (\<open>on_command\<close>: abort path, or the mission loop) and the decision
  loop \<open>run\<close>.

  The outside world (VLM service, bridge behind the request socket, random identifiers) is a state
  of any type threaded through the operations of \<open>world_ops\<close>. What the feeding threads do between
  two steps of the main thread is the schedule: a list of batches of thread events, one consumed at
  each \<open>yield\<close>, the points where the main thread looks at shared state. A statement for every
  schedule and every world is a statement for every interleaving at these points and every
  behaviour of the services.

  A status text of the code that holds an em dash has a hyphen here (see \<open>PyText\<close>).
\<close>

section \<open>World, schedule, system\<close>

text \<open>
  What a request can come to: a reply with its decoded JSON, a reply that is not UTF-8 or not JSON
  (with the \<open>repr\<close> of the exception), the timeout \<open>zmq.error.Again\<close>, another \<open>ZMQError\<close>.
\<close>

datatype rpc_outcome = Reply pyval | Garbled string | TimedOut | ZmqFail string

text \<open>
  A call of \<open>vlm.decide\<close> comes to the \<open>repr\<close> of an exception or to a decision, after a number of
  polls of its future; \<open>None\<close> is a call that never completes. Connecting the request socket fails
  with the \<open>repr\<close> of a \<open>ZMQError\<close> or succeeds.
\<close>

record 'w world_ops =
  w_vlm :: "vlm_context \<Rightarrow> 'w \<Rightarrow> (nat option \<times> (string + vlm_decision)) \<times> 'w"
  w_connect :: "'w \<Rightarrow> string option \<times> 'w"
  w_rpc :: "pyval \<Rightarrow> 'w \<Rightarrow> rpc_outcome \<times> 'w"
  w_uuid_hex :: "'w \<Rightarrow> string \<times> 'w"
  w_frepr :: "pyfloat \<Rightarrow> string"

record 'w sys =
  orch_of :: orch
  schedule :: "thread_event list list"
  world :: 'w

definition upd :: "(orch \<Rightarrow> orch) \<Rightarrow> 'w sys \<Rightarrow> 'w sys" where
  "upd f s = s\<lparr>orch_of := f (orch_of s)\<rparr>"

definition yield :: "'w world_ops \<Rightarrow> 'w sys \<Rightarrow> 'w sys" where
  "yield ops s = (case schedule s of
     [] \<Rightarrow> s
   | evs # rest \<Rightarrow> s\<lparr>orch_of := thread_steps (w_frepr ops) (orch_of s) evs, schedule := rest\<rparr>)"

definition publish_status :: "string \<Rightarrow> string \<Rightarrow> orch \<Rightarrow> orch" where
  "publish_status state note s = s\<lparr>status_out := status_out s @
     [\<lparr>os_ts_ns = clock_ns s, os_state = state, os_last_thought = note\<rparr>]\<rparr>"

definition new_request_id :: "'w world_ops \<Rightarrow> 'w sys \<Rightarrow> string \<times> 'w sys" where
  "new_request_id ops s = (let (h, w) = w_uuid_hex ops (world s) in (take 12 h, s\<lparr>world := w\<rparr>))"

section \<open>Dispatching a tool call\<close>

definition fail_result :: "tool_call \<Rightarrow> string \<Rightarrow> tool_result" where
  "fail_result tc err =
     \<lparr>tr_request_id = PStr (tc_request_id tc), tr_ok = False, tr_error = PStr err, tr_data = PNone\<rparr>"

definition ensure_req_socket :: "'w world_ops \<Rightarrow> 'w sys \<Rightarrow> string option \<times> 'w sys" where
  "ensure_req_socket ops s =
     (if req_open (orch_of s) then (None, s)
      else let (r, w) = w_connect ops (world s); s' = s\<lparr>world := w\<rparr>
           in case r of None \<Rightarrow> (None, upd (\<lambda>ob. ob\<lparr>req_open := True\<rparr>) s') | Some e \<Rightarrow> (Some e, s'))"

definition reset_req_socket :: "orch \<Rightarrow> orch" where
  "reset_req_socket ob = ob\<lparr>req_open := False\<rparr>"

text \<open>The branch of \<open>except zmq.ZMQError\<close> and that of \<open>except zmq.error.Again\<close>.\<close>

definition on_zmq_error :: "tool_call \<Rightarrow> string \<Rightarrow> orch \<Rightarrow> orch" where
  "on_zmq_error tc e ob =
     publish_status ''bridge_offline'' (tc_name tc @ '' zmq error: '' @ e)
       ((reset_req_socket ob)\<lparr>bridge_offline_flag := True\<rparr>)"

definition on_timeout :: "tool_call \<Rightarrow> orch \<Rightarrow> orch" where
  "on_timeout tc ob =
     publish_status ''bridge_offline'' (tc_name tc @ '' timed out - bridge unreachable'')
       ((reset_req_socket ob)\<lparr>bridge_offline_flag := True\<rparr>)"

definition type_name :: "pyval \<Rightarrow> string" where
  "type_name v = (case v of
     PNone \<Rightarrow> ''NoneType'' | PBool _ \<Rightarrow> ''bool'' | PInt _ \<Rightarrow> ''int'' | PFloat _ \<Rightarrow> ''float''
   | PStr _ \<Rightarrow> ''str'' | PList _ \<Rightarrow> ''list'' | PDict _ \<Rightarrow> ''dict'')"

definition result_of_reply :: "tool_call \<Rightarrow> pydict \<Rightarrow> tool_result" where
  "result_of_reply tc data =
     (let get = (\<lambda>k d. case map_of data k of Some v \<Rightarrow> v | None \<Rightarrow> d)
      in \<lparr>tr_request_id = get ''request_id'' (PStr (tc_request_id tc)),
          tr_ok = truthy (get ''ok'' (PBool False)),
          tr_error = get ''error'' PNone, tr_data = get ''data'' PNone\<rparr>)"

text \<open>
  What follows the receipt: the four outcomes of the \<open>try\<close> block. A reply that is not an object is
  a \<open>TypeError\<close> of the code's own.
\<close>

definition after_rpc :: "tool_call \<Rightarrow> rpc_outcome \<Rightarrow> orch \<Rightarrow> tool_result \<times> orch" where
  "after_rpc tc outcome ob =
     (case outcome of
        Reply v \<Rightarrow>
          (case v of
             PDict data \<Rightarrow> (result_of_reply tc data, ob\<lparr>bridge_offline_flag := False\<rparr>)
           | _ \<Rightarrow> (fail_result tc (''wire_error: TypeError('' @ py_repr (''non-dict reply: '' @ type_name v) @ '')''),
                   reset_req_socket ob))
      | Garbled e \<Rightarrow> (fail_result tc (''wire_error: '' @ e), reset_req_socket ob)
      | TimedOut \<Rightarrow> (fail_result tc ''timeout'', on_timeout tc ob)
      | ZmqFail e \<Rightarrow> (fail_result tc (''wire_error: '' @ e), on_zmq_error tc e ob))"

text \<open>The arguments that go on the wire: on \<open>arm\<close> the confirmation is overwritten.\<close>

definition wire_args :: "orch \<Rightarrow> tool_call \<Rightarrow> pydict" where
  "wire_args ob tc =
     (if tc_name tc = ''arm''
      then AList.update ''voice_confirmed'' (PBool (current_arm_authorized ob)) (tc_args tc)
      else tc_args tc)"

definition wire_request :: "orch \<Rightarrow> tool_call \<Rightarrow> pyval" where
  "wire_request ob tc = call_asdict (tc\<lparr>tc_args := wire_args ob tc\<rparr>)"

definition dispatch_tool_call :: "'w world_ops \<Rightarrow> tool_call \<Rightarrow> 'w sys \<Rightarrow> tool_result \<times> 'w sys" where
  "dispatch_tool_call ops tc s =
     (if bridge_offline_flag (orch_of s) then
        (fail_result tc ''bridge_offline'',
         upd (publish_status ''bridge_offline''
                (''refusing '' @ tc_name tc @ '': prior dispatch timed out'')) s)
      else
        let req = wire_request (orch_of s) tc; (opened, s1) = ensure_req_socket ops s
        in case opened of
             Some e \<Rightarrow> (fail_result tc (''wire_error: '' @ e), upd (on_zmq_error tc e) s1)
           | None \<Rightarrow>
               let (outcome, w) = w_rpc ops req (world s1);
                   s2 = upd (\<lambda>ob. ob\<lparr>req_sent := req_sent ob @ [req]\<rparr>) (s1\<lparr>world := w\<rparr>);
                   (result, ob) = after_rpc tc outcome (orch_of s2)
               in (result, s2\<lparr>orch_of := ob\<rparr>))"

section \<open>The context of a decision\<close>

definition frame_age :: "orch \<Rightarrow> real option" where
  "frame_age ob = (case latest_fs ob of None \<Rightarrow> None | Some _ \<Rightarrow> Some (clock_mono ob - latest_fs_ts ob))"

definition context_rgb :: "orch \<Rightarrow> rgb_image option" where
  "context_rgb ob = (case (latest_fs ob, frame_age ob) of
     (Some fs, Some age) \<Rightarrow> (if flt_le (Fin age) (frame_max_age_s ob) then Some (fs_rgb fs) else None)
   | _ \<Rightarrow> None)"

definition build_context :: "voice_command \<Rightarrow> mission option \<Rightarrow> orch \<Rightarrow> vlm_context result" where
  "build_context cmd m ob =
     rbind (py_dict (latest_scene ob)) (\<lambda>scene.
     rbind (py_dict (latest_telem ob)) (\<lambda>telem.
       Inr \<lparr>vx_user_command = vc_text cmd, vx_telemetry = telem, vx_scene = scene,
            vx_rgb = context_rgb ob, vx_safety = safety_snapshot ob,
            vx_telemetry_history = map snd (telem_history ob), vx_mission = m\<rparr>))"

section \<open>A batch of tool calls\<close>

text \<open>\<open>_TERMINAL_TOOLS\<close> and the parameters of the stuck test.\<close>

definition terminal_tools :: "string list" where
  "terminal_tools = [''hold'', ''land'', ''abort'', ''return_to_launch'', ''kill'', ''disarm'']"

definition stuck_failure_window :: nat where "stuck_failure_window = 4"
definition stuck_failure_threshold :: nat where "stuck_failure_threshold = 2"

text \<open>The local variables of \<open>_on_command\<close>.\<close>

record mvars =
  mv_mission :: mission
  decision_count :: int
  terminal_call :: "string option"
  offline :: bool
  stuck :: bool
  vlm_error :: "string option"
  preempted :: bool

definition is_offline_error :: "pyval \<Rightarrow> bool" where
  "is_offline_error e =
     (case e of PStr t \<Rightarrow> t = ''bridge_offline'' \<or> t = ''timeout'' \<or> startswith t ''wire_error'' | _ \<Rightarrow> False)"

definition failure_matches :: "string \<Rightarrow> pyval \<Rightarrow> mission \<Rightarrow> nat" where
  "failure_matches tool err m =
     length (filter (\<lambda>st. st_tool st = tool \<and> py_eq (st_error st) err)
       (last_n stuck_failure_window (step_history m)))"

definition skip_rest :: "orch \<Rightarrow> string \<Rightarrow> tool_call list \<Rightarrow> mvars \<Rightarrow> mvars" where
  "skip_rest ob reason tcs v = v\<lparr>mv_mission := record_skipped (clock_ns ob) reason tcs (mv_mission v)\<rparr>"

fun run_batch :: "'w world_ops \<Rightarrow> tool_call list \<Rightarrow> mvars \<Rightarrow> 'w sys \<Rightarrow> mvars \<times> 'w sys" where
  "run_batch ops [] v s = (v, s)"
| "run_batch ops (tc # rest) v s0 =
     (let s = yield ops s0 in
      if stop_event (orch_of s) \<or> preempt_event (orch_of s) then
        ((skip_rest (orch_of s) ''skipped:preempted'' (tc # rest) v)\<lparr>preempted := True\<rparr>, s)
      else
        let (result, s') = dispatch_tool_call ops tc s;
            v' = v\<lparr>mv_mission := mission_record (clock_ns (orch_of s')) (tc_name tc) (tc_args tc)
                                  result True (mv_mission v)\<rparr>
        in if is_offline_error (tr_error result) then
             ((skip_rest (orch_of s') ''skipped:bridge_offline'' rest v')\<lparr>offline := True\<rparr>, s')
           else if \<not> tr_ok result \<and> tr_error result \<noteq> PNone then
             ((skip_rest (orch_of s') ''skipped:prior_failure'' rest v')
                \<lparr>stuck := stuck_failure_threshold
                   \<le> failure_matches (tc_name tc) (tr_error result) (mv_mission v')\<rparr>, s')
           else if tc_name tc \<in> set terminal_tools then
             ((skip_rest (orch_of s') ''skipped:after_terminal'' rest v')
                \<lparr>terminal_call := Some (tc_name tc)\<rparr>, s')
           else run_batch ops rest v' s')"

section \<open>Waiting for the VLM\<close>

definition flagged :: "'w sys \<Rightarrow> bool" where
  "flagged s = (stop_event (orch_of s) \<or> preempt_event (orch_of s))"

text \<open>
  The polling loop: for a call that completes after \<open>n\<close> polls, and for one that never does. The
  latter returns only when a flag is raised; \<open>None\<close> is waiting for ever.
\<close>

fun poll_some :: "'w world_ops \<Rightarrow> nat \<Rightarrow> 'w sys \<Rightarrow> 'w sys" where
  "poll_some ops 0 s = s"
| "poll_some ops (Suc n) s = (if flagged s then s else poll_some ops n (yield ops s))"

function poll_never :: "'w world_ops \<Rightarrow> 'w sys \<Rightarrow> 'w sys option" where
  "poll_never ops s =
     (if flagged s then Some s
      else if schedule s = [] then None
      else poll_never ops (yield ops s))"
  by pat_completeness auto
termination
  by (relation "measure (\<lambda>(ops, s). length (schedule s))") (auto simp: yield_def split: list.splits)

declare poll_never.simps [simp del]

definition await_future :: "'w world_ops \<Rightarrow> nat option \<Rightarrow> 'w sys \<Rightarrow> 'w sys option" where
  "await_future ops polls s = (case polls of Some n \<Rightarrow> Some (poll_some ops n s) | None \<Rightarrow> poll_never ops s)"

section \<open>The mission loop\<close>

text \<open>How one iteration of the loop ends; \<open>Raised\<close> is an exception that leaves \<open>_on_command\<close>.\<close>

datatype 'w iteration = Again mvars "'w sys" | Break mvars "'w sys" | Raised py_error

definition step_label :: "int \<Rightarrow> int \<Rightarrow> string" where
  "step_label n max_steps = ''decision '' @ int_dec (n + 1) @ ''/'' @ int_dec max_steps"

text \<open>What is done with a decision.\<close>

definition on_decision :: "'w world_ops \<Rightarrow> vlm_decision \<Rightarrow> mvars \<Rightarrow> 'w sys \<Rightarrow> 'w iteration" where
  "on_decision ops d v0 s =
     (let v = v0\<lparr>decision_count := decision_count v0 + 1\<rparr> in
      if tool_calls d = [] then
        Break (if startswith (thought d) ''vlm_error:'' then v\<lparr>vlm_error := Some (thought d)\<rparr> else v) s
      else
        let (v', s') = run_batch ops (tool_calls d) (v\<lparr>offline := False, stuck := False\<rparr>)
                         (upd (publish_status ''executing'' (thought d)) s)
        in if terminal_call v' \<noteq> None \<or> offline v' \<or> stuck v' \<or> preempted v'
           then Break v' s' else Again v' s')"

definition mission_iter ::
    "'w world_ops \<Rightarrow> voice_command \<Rightarrow> int \<Rightarrow> mvars \<Rightarrow> 'w sys \<Rightarrow> 'w iteration option" where
  "mission_iter ops cmd max_steps v s0 =
     (let s1 = yield ops s0 in
      if preempt_event (orch_of s1) \<or> \<not> q_empty (command_q (orch_of s1)) then
        Some (Break (v\<lparr>preempted := True\<rparr>) s1)
      else
        let s2 = yield ops s1 in
        case build_context cmd (Some (mv_mission v)) (orch_of s2) of
          Inl e \<Rightarrow> Some (Raised e)
        | Inr ctx \<Rightarrow>
            let s3 = upd (publish_status ''thinking''
                       (step_label (decision_count v) max_steps @ '': '' @ py_repr (vc_text cmd))) s2;
                ((polls, answer), w) = w_vlm ops ctx (world s3)
            in case await_future ops polls (s3\<lparr>world := w\<rparr>) of
                 None \<Rightarrow> None
               | Some s4 \<Rightarrow>
                   let s5 = yield ops s4 in
                   if flagged s5 then Some (Break (v\<lparr>preempted := True\<rparr>) s5)
                   else case answer of
                          Inl e \<Rightarrow> Some (Break (v\<lparr>vlm_error := Some (''vlm_error: '' @ e)\<rparr>) s5)
                        | Inr d \<Rightarrow> Some (on_decision ops d v s5))"

lemma run_batch_frame:
  "run_batch ops tcs v s = (v', s') \<Longrightarrow>
     decision_count v' = decision_count v \<and> vlm_error v' = vlm_error v
     \<and> goal_text (mv_mission v') = goal_text (mv_mission v)"
proof (induction tcs arbitrary: v s)
  case (Cons tc rest)
  from Cons.prems show ?case
    by (auto simp: Let_def skip_rest_def split: prod.splits if_splits dest!: Cons.IH)
qed simp

lemma mission_iter_Again:
  "mission_iter ops cmd n v s = Some (Again v' s') \<Longrightarrow> decision_count v' = decision_count v + 1"
  by (auto simp: mission_iter_def on_decision_def Let_def dest!: run_batch_frame
      split: if_splits sum.splits option.splits prod.splits)

text \<open>
  \<open>while decision_count < max_steps and not self.stop_event.is_set()\<close>. \<open>None\<close>: a VLM call is
  waited for for ever.
\<close>

function mission_loop ::
    "'w world_ops \<Rightarrow> voice_command \<Rightarrow> int \<Rightarrow> mvars \<Rightarrow> 'w sys \<Rightarrow> (mvars \<times> 'w sys) result option" where
  "mission_loop ops cmd max_steps v s =
     (if decision_count v < max_steps \<and> \<not> stop_event (orch_of s) then
        (case mission_iter ops cmd max_steps v s of
           None \<Rightarrow> None
         | Some (Raised e) \<Rightarrow> Some (Inl e)
         | Some (Break v' s') \<Rightarrow> Some (Inr (v', s'))
         | Some (Again v' s') \<Rightarrow> mission_loop ops cmd max_steps v' s')
      else Some (Inr (v, s)))"
  by pat_completeness auto
termination
  by (relation "measure (\<lambda>(ops, cmd, max_steps, v, s). nat (max_steps - decision_count v))")
     (auto dest!: mission_iter_Again)

declare mission_loop.simps [simp del]

section \<open>The end of a command\<close>

definition add_history :: "string \<Rightarrow> orch \<Rightarrow> orch" where
  "add_history line ob = ob\<lparr>history := last_n 20 (history ob @ [line])\<rparr>"

definition end_reason :: "orch \<Rightarrow> int \<Rightarrow> mvars \<Rightarrow> string" where
  "end_reason ob max_steps v =
     (if stop_event ob then ''stopped''
      else if preempted v then ''preempted''
      else if (case terminal_call v of Some t \<Rightarrow> t \<noteq> [] | None \<Rightarrow> False)
        then ''terminal:'' @ the (terminal_call v)
      else if bridge_offline_flag ob then ''bridge_offline''
      else if vlm_error v \<noteq> None then ''vlm_error''
      else if max_steps \<le> decision_count v then ''max_decisions='' @ int_dec max_steps
      else if stuck v then ''stuck_on_repeated_failure''
      else ''no_tool_calls'')"

definition finish_mission :: "voice_command \<Rightarrow> int \<Rightarrow> mvars \<Rightarrow> orch \<Rightarrow> orch" where
  "finish_mission cmd max_steps v ob =
     (let reason = end_reason ob max_steps v;
          ob' = add_history (''user: '' @ vc_text cmd @ '' | decisions: '' @ int_dec (decision_count v)
                 @ '' | tools: '' @ nat_dec (current_step (mv_mission v)) @ '' | end: '' @ reason) ob
      in if reason = ''vlm_error'' then
           publish_status ''vlm_error''
             (case vlm_error v of Some e \<Rightarrow> if e \<noteq> [] then e else ''vlm_error'' | None \<Rightarrow> ''vlm_error'') ob'
         else if reason \<noteq> ''bridge_offline'' then
           publish_status ''idle'' (''mission done ('' @ reason @ '')'') ob'
         else ob')"

definition handle_abort :: "'w world_ops \<Rightarrow> voice_command \<Rightarrow> 'w sys \<Rightarrow> 'w sys" where
  "handle_abort ops cmd s0 =
     (let s1 = upd (publish_status ''aborted'' (''abort keyword: '' @ py_repr (vc_text cmd))) s0;
          (rid, s2) = new_request_id ops s1;
          (result, s3) = dispatch_tool_call ops
             \<lparr>tc_request_id = rid, tc_name = ''abort'', tc_args = []\<rparr> s2;
          err = str_val (w_frepr ops) (tr_error result);
          s4 = (if tr_ok result then s3
                else if bridge_offline_flag (orch_of s3) then
                  upd (publish_status ''bridge_offline''
                    (''abort '' @ py_repr (vc_text cmd) @ '' did not reach the flight bridge'')) s3
                else upd (publish_status ''abort_failed'' (''abort rejected by bridge: '' @ err)) s3);
          suffix = (if tr_ok result then [] else '' ('' @ err @ '')'')
      in upd (add_history (''user: '' @ vc_text cmd @ '' | end: aborted'' @ suffix)) s4)"

definition start_command :: "voice_command \<Rightarrow> orch \<Rightarrow> orch" where
  "start_command cmd ob =
     ob\<lparr>bridge_offline_flag := False, preempt_event := False,
       current_arm_authorized := re_word_search ''arm'' (vc_text cmd)\<rparr>"

definition new_vars :: "voice_command \<Rightarrow> orch \<Rightarrow> mvars" where
  "new_vars cmd ob =
     \<lparr>mv_mission = new_mission (vc_text cmd) (clock_ns ob), decision_count = 0, terminal_call = None,
      offline = False, stuck = False, vlm_error = None, preempted = False\<rparr>"

definition is_abort_command :: "orch \<Rightarrow> voice_command \<Rightarrow> bool" where
  "is_abort_command ob cmd = (vc_is_abort cmd \<or> re_word_search (abort_kw ob) (vc_text cmd))"

definition on_command :: "'w world_ops \<Rightarrow> voice_command \<Rightarrow> 'w sys \<Rightarrow> 'w sys result option" where
  "on_command ops cmd s0 =
     (let s = upd (start_command cmd) (yield ops s0) in
      if is_abort_command (orch_of s) cmd then Some (Inr (handle_abort ops cmd s))
      else
        case py_int (cfg_get (o_cfg (orch_of s)) ''orchestrator.mission_max_steps'' (PInt 10)) of
          Inl e \<Rightarrow> Some (Inl e)
        | Inr max_steps \<Rightarrow>
            (case mission_loop ops cmd max_steps (new_vars cmd (orch_of s)) s of
               None \<Rightarrow> None
             | Some (Inl e) \<Rightarrow> Some (Inl e)
             | Some (Inr (v, s')) \<Rightarrow>
                 Some (Inr (upd (finish_mission cmd max_steps v) (yield ops s')))))"

section \<open>The decision loop\<close>

text \<open>
  One turn of \<open>run\<close>: \<open>get(timeout=0.2)\<close> finds a command or gives up; and the loop until the stop
  signal. \<open>None\<close>: it never ends (no stop signal comes, or a VLM call is waited for for ever).
\<close>

definition run_turn :: "'w world_ops \<Rightarrow> 'w sys \<Rightarrow> 'w sys result option" where
  "run_turn ops s0 =
     (let s = yield ops s0 in
      case get_nowait (command_q (orch_of s)) of
        None \<Rightarrow> Some (Inr s)
      | Some (cmd, q) \<Rightarrow> on_command ops cmd (upd (\<lambda>ob. ob\<lparr>command_q := q\<rparr>) s))"

partial_function (option) run :: "'w world_ops \<Rightarrow> 'w sys \<Rightarrow> 'w sys result option" where
  "run ops s =
     (if stop_event (orch_of s) then Some (Inr s)
      else Option.bind (run_turn ops s) (\<lambda>r. case r of
          Inl e \<Rightarrow> Some (Inl e)
        | Inr s' \<Rightarrow> run ops s'))"

end
