(* ===== verification/Orch_Effects.thy ===== *)
theory Orch_Effects
  imports Orch_Mission
begin

text \<open>
  What the main thread of the orchestrator can do to the system, as two interfaces. A preorder on
  system states that every yield, every call of the outside world and every dispatch respects is
  respected by a batch (\<open>step_effect\<close>), one that every yield respects by the wait for the VLM
  (\<open>wait_effect\<close>); if publishing a status and
  writing history respect it too, so do the mission loop, the abort path and a whole command
  (\<open>main_effect\<close>). The interpretations are the preorders the properties need: what the requests
  carry, what stays as configured, the bounds of the queue and of the history.
\<close>

section \<open>Frame facts of the basic operations\<close>

lemma orch_of_upd [simp]: "orch_of (upd f s) = f (orch_of s)"
  "schedule (upd f s) = schedule s" "world (upd f s) = world s"
  by (simp_all add: upd_def)

lemma publish_status_simps [simp]:
  "o_cfg (publish_status a b ob) = o_cfg ob" "stop_event (publish_status a b ob) = stop_event ob"
  "preempt_event (publish_status a b ob) = preempt_event ob"
  "command_q (publish_status a b ob) = command_q ob" "history (publish_status a b ob) = history ob"
  "bridge_offline_flag (publish_status a b ob) = bridge_offline_flag ob"
  "req_open (publish_status a b ob) = req_open ob" "abort_kw (publish_status a b ob) = abort_kw ob"
  "current_arm_authorized (publish_status a b ob) = current_arm_authorized ob"
  "req_sent (publish_status a b ob) = req_sent ob" "clock_ns (publish_status a b ob) = clock_ns ob"
  "latest_scene (publish_status a b ob) = latest_scene ob"
  "latest_telem (publish_status a b ob) = latest_telem ob"
  "status_out (publish_status a b ob) =
     status_out ob @ [\<lparr>os_ts_ns = clock_ns ob, os_state = a, os_last_thought = b\<rparr>]"
  by (simp_all add: publish_status_def)

text \<open>The attributes only the main thread writes.\<close>

definition main_view :: "orch \<Rightarrow> pydict \<times> string list \<times> bool \<times> bool \<times> string \<times> bool
    \<times> orchestrator_status list \<times> pyval list" where
  "main_view ob = (o_cfg ob, history ob, bridge_offline_flag ob, req_open ob, abort_kw ob,
     current_arm_authorized ob, status_out ob, req_sent ob)"

lemma thread_step_main_view [simp]: "main_view (thread_step frepr ob e) = main_view ob"
  by (cases e)
     (auto simp: main_view_def on_command_frame_def on_scene_frame_def on_telem_frame_def
        on_frameset_def Let_def split: sum.splits option.splits prod.splits)

lemma thread_steps_main_view [simp]: "main_view (thread_steps frepr ob evs) = main_view ob"
  by (induction evs arbitrary: ob) (simp_all add: thread_steps_def)

lemma yield_main_view [simp]: "main_view (orch_of (yield ops s)) = main_view (orch_of s)"
  by (simp add: yield_def split: list.split)

lemma yield_world [simp]: "world (yield ops s) = world s"
  by (simp add: yield_def split: list.split)

lemma yield_fields [simp]:
  "o_cfg (orch_of (yield ops s)) = o_cfg (orch_of s)"
  "history (orch_of (yield ops s)) = history (orch_of s)"
  "bridge_offline_flag (orch_of (yield ops s)) = bridge_offline_flag (orch_of s)"
  "req_open (orch_of (yield ops s)) = req_open (orch_of s)"
  "abort_kw (orch_of (yield ops s)) = abort_kw (orch_of s)"
  "current_arm_authorized (orch_of (yield ops s)) = current_arm_authorized (orch_of s)"
  "status_out (orch_of (yield ops s)) = status_out (orch_of s)"
  "req_sent (orch_of (yield ops s)) = req_sent (orch_of s)"
  using yield_main_view [of ops s] by (simp_all add: main_view_def)

text \<open>A flag once raised stays up while the other threads run.\<close>

lemma thread_step_flags:
  "stop_event ob \<Longrightarrow> stop_event (thread_step frepr ob e)"
  "preempt_event ob \<Longrightarrow> preempt_event (thread_step frepr ob e)"
  by (cases e; auto simp: on_command_frame_def on_scene_frame_def on_telem_frame_def
        on_frameset_def Let_def split: sum.splits option.splits prod.splits)+

lemma thread_steps_flags:
  "stop_event ob \<Longrightarrow> stop_event (thread_steps frepr ob evs)"
  "preempt_event ob \<Longrightarrow> preempt_event (thread_steps frepr ob evs)"
  by (induction evs arbitrary: ob) (simp_all add: thread_steps_def thread_step_flags)

lemma yield_flagged: "flagged s \<Longrightarrow> flagged (yield ops s)"
  by (auto simp: flagged_def yield_def thread_steps_flags split: list.split)

section \<open>The dispatch, case by case\<close>

lemma after_rpc_fields [simp]:
  "o_cfg (snd (after_rpc tc out ob)) = o_cfg ob" "history (snd (after_rpc tc out ob)) = history ob"
  "abort_kw (snd (after_rpc tc out ob)) = abort_kw ob"
  "current_arm_authorized (snd (after_rpc tc out ob)) = current_arm_authorized ob"
  "req_sent (snd (after_rpc tc out ob)) = req_sent ob"
  "command_q (snd (after_rpc tc out ob)) = command_q ob"
  "stop_event (snd (after_rpc tc out ob)) = stop_event ob"
  "preempt_event (snd (after_rpc tc out ob)) = preempt_event ob"
  by (auto simp: after_rpc_def on_timeout_def on_zmq_error_def reset_req_socket_def
      split: rpc_outcome.split pyval.split)

lemma ensure_req_socket_fields:
  assumes "ensure_req_socket ops s = (r, s')"
  shows "orch_of s' = (orch_of s)\<lparr>req_open := req_open (orch_of s')\<rparr>" "schedule s' = schedule s"
    "r = None \<longleftrightarrow> req_open (orch_of s')"
  using assms by (auto simp: ensure_req_socket_def Let_def split: if_splits prod.splits option.splits)

text \<open>The three ways a dispatch can go.\<close>

lemma dispatch_cases:
  assumes "dispatch_tool_call ops tc s = (res, s')"
  obtains (refused) "bridge_offline_flag (orch_of s)" "res = fail_result tc ''bridge_offline''"
      "s' = upd (publish_status ''bridge_offline''
         (''refusing '' @ tc_name tc @ '': prior dispatch timed out'')) s"
    | (unconnected) e s1 where "\<not> bridge_offline_flag (orch_of s)"
      "ensure_req_socket ops s = (Some e, s1)" "res = fail_result tc (''wire_error: '' @ e)"
      "s' = upd (on_zmq_error tc e) s1"
    | (sent) s1 out w ob where "\<not> bridge_offline_flag (orch_of s)" "ensure_req_socket ops s = (None, s1)"
      "w_rpc ops (wire_request (orch_of s) tc) (world s1) = (out, w)"
      "after_rpc tc out ((orch_of s1)\<lparr>req_sent := req_sent (orch_of s1) @ [wire_request (orch_of s) tc]\<rparr>)
         = (res, ob)"
      "s' = s1\<lparr>world := w, orch_of := ob\<rparr>"
  using assms
  by (auto simp: dispatch_tool_call_def Let_def upd_def split: if_splits prod.splits option.splits)

lemma dispatch_fields:
  assumes "dispatch_tool_call ops tc s = (res, s')"
  shows "o_cfg (orch_of s') = o_cfg (orch_of s)" "history (orch_of s') = history (orch_of s)"
    "abort_kw (orch_of s') = abort_kw (orch_of s)" "command_q (orch_of s') = command_q (orch_of s)"
    "current_arm_authorized (orch_of s') = current_arm_authorized (orch_of s)"
    "stop_event (orch_of s') = stop_event (orch_of s)"
    "preempt_event (orch_of s') = preempt_event (orch_of s)"
    "schedule s' = schedule s"
    "req_sent (orch_of s') = req_sent (orch_of s)
       \<or> req_sent (orch_of s') = req_sent (orch_of s) @ [wire_request (orch_of s) tc]"
proof -
  have "main_view (orch_of s') = main_view (orch_of s') \<and>
    o_cfg (orch_of s') = o_cfg (orch_of s) \<and> history (orch_of s') = history (orch_of s) \<and>
    abort_kw (orch_of s') = abort_kw (orch_of s) \<and> command_q (orch_of s') = command_q (orch_of s) \<and>
    current_arm_authorized (orch_of s') = current_arm_authorized (orch_of s) \<and>
    stop_event (orch_of s') = stop_event (orch_of s) \<and>
    preempt_event (orch_of s') = preempt_event (orch_of s) \<and> schedule s' = schedule s \<and>
    (req_sent (orch_of s') = req_sent (orch_of s)
       \<or> req_sent (orch_of s') = req_sent (orch_of s) @ [wire_request (orch_of s) tc])"
    using assms
  proof (cases rule: dispatch_cases)
    case refused
    then show ?thesis by simp
  next
    case (unconnected e s1)
    then obtain b where "orch_of s1 = (orch_of s)\<lparr>req_open := b\<rparr>" "schedule s1 = schedule s"
      using ensure_req_socket_fields by metis
    with unconnected show ?thesis by (simp add: on_zmq_error_def reset_req_socket_def)
  next
    case (sent s1 out w ob)
    then obtain b where s1: "orch_of s1 = (orch_of s)\<lparr>req_open := b\<rparr>" "schedule s1 = schedule s"
      using ensure_req_socket_fields by metis
    let ?o = "(orch_of s1)\<lparr>req_sent := req_sent (orch_of s1) @ [wire_request (orch_of s) tc]\<rparr>"
    have "ob = snd (after_rpc tc out ?o)" using sent by simp
    with sent s1 show ?thesis by simp
  qed
  then show "o_cfg (orch_of s') = o_cfg (orch_of s)" "history (orch_of s') = history (orch_of s)"
    "abort_kw (orch_of s') = abort_kw (orch_of s)" "command_q (orch_of s') = command_q (orch_of s)"
    "current_arm_authorized (orch_of s') = current_arm_authorized (orch_of s)"
    "stop_event (orch_of s') = stop_event (orch_of s)"
    "preempt_event (orch_of s') = preempt_event (orch_of s)" "schedule s' = schedule s"
    "req_sent (orch_of s') = req_sent (orch_of s)
       \<or> req_sent (orch_of s') = req_sent (orch_of s) @ [wire_request (orch_of s) tc]"
    by blast+
qed

text \<open>A bridge not known to be offline is sent the request, unless the socket cannot be connected.\<close>

lemma dispatch_online:
  assumes d: "dispatch_tool_call ops tc s = (res, t)" and on: "\<not> bridge_offline_flag (orch_of s)"
  obtains (sent) "req_sent (orch_of t) = req_sent (orch_of s) @ [wire_request (orch_of s) tc]"
    | (no_socket) e where "\<not> req_open (orch_of s)" "fst (w_connect ops (world s)) = Some e"
      "req_sent (orch_of t) = req_sent (orch_of s)" "bridge_offline_flag (orch_of t)" "\<not> tr_ok res"
  using d
proof (cases rule: dispatch_cases)
  case refused
  with on show ?thesis by simp
next
  case (unconnected e s1)
  then obtain b where "orch_of s1 = (orch_of s)\<lparr>req_open := b\<rparr>"
    using ensure_req_socket_fields by metis
  moreover have "\<not> req_open (orch_of s)" "fst (w_connect ops (world s)) = Some e"
    using unconnected(2)
    by (auto simp: ensure_req_socket_def Let_def split: if_splits prod.splits option.splits)
  ultimately show ?thesis
    using unconnected by (intro no_socket) (simp_all add: on_zmq_error_def reset_req_socket_def fail_result_def)
next
  case (sent s1 out w ob)
  then obtain b where s1: "orch_of s1 = (orch_of s)\<lparr>req_open := b\<rparr>"
    using ensure_req_socket_fields by metis
  let ?o = "(orch_of s1)\<lparr>req_sent := req_sent (orch_of s1) @ [wire_request (orch_of s) tc]\<rparr>"
  have "ob = snd (after_rpc tc out ?o)" using sent by simp
  with sent s1 show ?thesis by (intro that(1)) simp
qed

text \<open>The abort path is one dispatch, perhaps a status, and a line of history.\<close>

lemma handle_abort_dispatch:
  obtains rid w res t a b l where
    "dispatch_tool_call ops \<lparr>tc_request_id = rid, tc_name = ''abort'', tc_args = []\<rparr>
       ((upd (publish_status ''aborted'' (''abort keyword: '' @ py_repr (vc_text cmd))) s)\<lparr>world := w\<rparr>) = (res, t)"
    "handle_abort ops cmd s = upd (add_history (''user: '' @ vc_text cmd @ '' | end: aborted'' @ l))
       (if tr_ok res then t else upd (publish_status a b) t)"
proof -
  let ?s1 = "upd (publish_status ''aborted'' (''abort keyword: '' @ py_repr (vc_text cmd))) s"
  obtain h w where "w_uuid_hex ops (world ?s1) = (h, w)" by fastforce
  then obtain rid where n: "new_request_id ops ?s1 = (rid, ?s1\<lparr>world := w\<rparr>)"
    by (simp add: new_request_id_def)
  obtain res t where d: "dispatch_tool_call ops
      \<lparr>tc_request_id = rid, tc_name = ''abort'', tc_args = []\<rparr> (?s1\<lparr>world := w\<rparr>) = (res, t)"
    by fastforce
  let ?suf = "if tr_ok res then [] else '' ('' @ str_val (w_frepr ops) (tr_error res) @ '')''"
  have "\<exists>a b. handle_abort ops cmd s = upd (add_history (''user: '' @ vc_text cmd @ '' | end: aborted'' @ ?suf))
       (if tr_ok res then t else upd (publish_status a b) t)"
    using n d by (auto simp: handle_abort_def Let_def)
  with d show thesis using that by blast
qed

section \<open>One iteration, case by case\<close>

text \<open>The system once the context has been built and the VLM has been asked.\<close>

definition thinking :: "'w world_ops \<Rightarrow> voice_command \<Rightarrow> int \<Rightarrow> mvars \<Rightarrow> 'w sys \<Rightarrow> 'w sys" where
  "thinking ops cmd n v s = upd (publish_status ''thinking''
     (step_label (decision_count v) n @ '': '' @ py_repr (vc_text cmd))) (yield ops (yield ops s))"

lemma mission_iter_cases:
  assumes "mission_iter ops cmd n v s = r"
  obtains (head) "preempt_event (orch_of (yield ops s)) \<or> \<not> q_empty (command_q (orch_of (yield ops s)))"
      "r = Some (Break (v\<lparr>preempted := True\<rparr>) (yield ops s))"
    | (raised) e where "\<not> preempt_event (orch_of (yield ops s))" "q_empty (command_q (orch_of (yield ops s)))"
      "build_context cmd (Some (mv_mission v)) (orch_of (yield ops (yield ops s))) = Inl e"
      "r = Some (Raised e)"
    | (hung) ctx p ans w where "\<not> preempt_event (orch_of (yield ops s))" "q_empty (command_q (orch_of (yield ops s)))"
      "build_context cmd (Some (mv_mission v)) (orch_of (yield ops (yield ops s))) = Inr ctx"
      "w_vlm ops ctx (world (thinking ops cmd n v s)) = ((p, ans), w)"
      "await_future ops p ((thinking ops cmd n v s)\<lparr>world := w\<rparr>) = None" "r = None"
    | (asked) ctx p ans w s4 where "\<not> preempt_event (orch_of (yield ops s))" "q_empty (command_q (orch_of (yield ops s)))"
      "build_context cmd (Some (mv_mission v)) (orch_of (yield ops (yield ops s))) = Inr ctx"
      "w_vlm ops ctx (world (thinking ops cmd n v s)) = ((p, ans), w)"
      "await_future ops p ((thinking ops cmd n v s)\<lparr>world := w\<rparr>) = Some s4"
      "r = Some (if flagged (yield ops s4) then Break (v\<lparr>preempted := True\<rparr>) (yield ops s4)
         else case ans of Inl e \<Rightarrow> Break (v\<lparr>vlm_error := Some (''vlm_error: '' @ e)\<rparr>) (yield ops s4)
            | Inr d \<Rightarrow> on_decision ops d v (yield ops s4))"
proof (cases "preempt_event (orch_of (yield ops s)) \<or> \<not> q_empty (command_q (orch_of (yield ops s)))")
  case True
  with assms show ?thesis by (intro head) (simp_all add: mission_iter_def Let_def)
next
  case False
  note ok = False and r = assms [symmetric]
  show ?thesis
  proof (cases "build_context cmd (Some (mv_mission v)) (orch_of (yield ops (yield ops s)))")
    case (Inl e)
    with ok r show ?thesis by (intro raised) (simp_all add: mission_iter_def Let_def)
  next
    case (Inr ctx)
    obtain p ans w where w: "w_vlm ops ctx (world (thinking ops cmd n v s)) = ((p, ans), w)"
      by (metis prod.exhaust)
    show ?thesis
    proof (cases "await_future ops p ((thinking ops cmd n v s)\<lparr>world := w\<rparr>)")
      case None
      show ?thesis
        by (rule hung [OF _ _ Inr w None])
           (use ok r Inr w None in \<open>simp_all add: mission_iter_def Let_def thinking_def\<close>)
    next
      case (Some s4)
      show ?thesis
        by (rule asked [OF _ _ Inr w Some])
           (use ok r Inr w Some in \<open>auto simp: mission_iter_def Let_def thinking_def split: sum.splits\<close>)
    qed
  qed
qed

section \<open>Effects of a batch and of the wait\<close>

locale wait_effect =
  fixes R :: "'w sys \<Rightarrow> 'w sys \<Rightarrow> bool"
  assumes refl: "R s s"
    and trans: "R s t \<Longrightarrow> R t u \<Longrightarrow> R s u"
    and yield: "R s (yield ops s)"
begin

lemma poll_some: "R s (poll_some ops n s)"
  by (induction n arbitrary: s) (auto intro: refl trans [OF yield])

lemma poll_never: "poll_never ops s = Some s' \<Longrightarrow> R s s'"
proof (induction ops s rule: poll_never.induct)
  case (1 ops s)
  show ?case
  proof (cases "flagged s")
    case True
    with "1.prems" show ?thesis by (simp add: poll_never.simps [of ops s] refl)
  next
    case False
    with "1.prems" have "schedule s \<noteq> []" "poll_never ops (yield ops s) = Some s'"
      by (auto simp: poll_never.simps [of ops s] split: if_splits)
    with "1.IH" [OF False] show ?thesis by (auto intro: trans [OF yield])
  qed
qed

lemma await: "await_future ops p s = Some s' \<Longrightarrow> R s s'"
  by (auto simp: await_future_def intro: poll_some poll_never split: option.splits)

end

locale step_effect = wait_effect +
  assumes outside: "R s (s\<lparr>world := w\<rparr>)"
    and dispatch: "dispatch_tool_call ops tc s = (res, t) \<Longrightarrow> R s t"
begin

lemma batch: "run_batch ops tcs v s = (v', s') \<Longrightarrow> R s s'"
proof (induction tcs arbitrary: v s)
  case Nil
  then show ?case by (simp add: refl)
next
  case (Cons tc rest)
  let ?s = "yield ops s"
  obtain res t where d: "dispatch_tool_call ops tc ?s = (res, t)" by fastforce
  have st: "R s t" using yield dispatch [OF d] by (rule trans)
  from Cons.prems d consider "s' = ?s" | "s' = t" | v1 where "run_batch ops rest v1 t = (v', s')"
    by (auto simp: Let_def split: if_splits)
  then show ?case
    by cases (auto intro: yield st trans [OF st Cons.IH])
qed

end

section \<open>Effects of a command\<close>

locale main_effect = step_effect +
  assumes publish: "R s (upd (publish_status a b) s)"
    and add_history: "R s (upd (add_history l) s)"
begin

lemma decision:
  "on_decision ops d v s = Again v' s' \<or> on_decision ops d v s = Break v' s' \<Longrightarrow> R s s'"
  by (auto simp: on_decision_def Let_def split: if_splits prod.splits
      intro: refl trans [OF publish batch])

text \<open>What one iteration goes through before it ends.\<close>

lemma thinking: "R s (thinking ops cmd n v s)"
  unfolding thinking_def by (rule trans [OF trans [OF yield yield] publish])

lemma iteration:
  assumes "mission_iter ops cmd n v s = Some (Again v' s')
    \<or> mission_iter ops cmd n v s = Some (Break v' s')"
  shows "R s s'"
  using HOL.refl [of "mission_iter ops cmd n v s"]
proof (cases rule: mission_iter_cases)
  case head
  with assms show ?thesis by (auto intro: yield)
next
  case raised
  with assms show ?thesis by simp
next
  case hung
  with assms show ?thesis by simp
next
  case (asked ctx p ans w s4)
  have s5: "R s (yield ops s4)"
    by (rule trans [OF trans [OF trans [OF thinking outside] await [OF asked(5)]] yield])
  have "s' = yield ops s4 \<or> (\<exists>d. on_decision ops d v (yield ops s4) = Again v' s'
      \<or> on_decision ops d v (yield ops s4) = Break v' s')"
    using assms asked(6) by (auto split: if_splits sum.splits)
  with s5 show ?thesis by (auto dest!: decision intro: trans)
qed

lemma mission: "mission_loop ops cmd n v s = Some (Inr (v', s')) \<Longrightarrow> R s s'"
proof (induction ops cmd n v s rule: mission_loop.induct)
  case (1 ops cmd n v s)
  show ?case
  proof (cases "decision_count v < n \<and> \<not> stop_event (orch_of s)")
    case False
    with "1.prems" show ?thesis by (auto simp: mission_loop.simps [of ops cmd n v s] refl)
  next
    case True
    with "1.prems" obtain r where r: "mission_iter ops cmd n v s = Some r"
      by (auto simp: mission_loop.simps [of ops cmd n v s] split: option.splits)
    show ?thesis
    proof (cases r)
      case (Again v1 s1)
      with "1.prems" True r have "mission_loop ops cmd n v1 s1 = Some (Inr (v', s'))"
        by (simp add: mission_loop.simps [of ops cmd n v s])
      with "1.IH" [OF True r Again] r Again show ?thesis by (auto intro: trans [OF iteration])
    next
      case (Break v1 s1)
      with "1.prems" True r show ?thesis
        by (auto simp: mission_loop.simps [of ops cmd n v s] intro: iteration)
    next
      case (Raised e)
      with "1.prems" True r show ?thesis by (simp add: mission_loop.simps [of ops cmd n v s])
    qed
  qed
qed

lemma finish: "R s (upd (finish_mission cmd n v) s)"
proof -
  have split: "upd (\<lambda>ob. f (g ob)) s = upd f (upd g s)" for f g :: "orch \<Rightarrow> orch"
    by (simp add: upd_def)
  have *: "R s (upd (\<lambda>ob. publish_status a b (add_history l ob)) s)" for a b l
    unfolding split by (rule trans [OF add_history publish])
  let ?l = "''user: '' @ vc_text cmd @ '' | decisions: '' @ int_dec (decision_count v)
     @ '' | tools: '' @ nat_dec (current_step (mv_mission v)) @ '' | end: ''
     @ end_reason (orch_of s) n v"
  have "upd (finish_mission cmd n v) s = upd (add_history ?l) s
    \<or> (\<exists>a b. upd (finish_mission cmd n v) s = upd (\<lambda>ob. publish_status a b (add_history ?l ob)) s)"
    by (auto simp: upd_def finish_mission_def Let_def)
  then show ?thesis using add_history * by metis
qed

lemma abort: "R s (handle_abort ops cmd s)"
proof (cases rule: handle_abort_dispatch [of ops cmd s])
  case (1 rid w res t a b l)
  have t: "R s t" by (rule trans [OF trans [OF publish outside] dispatch [OF 1(1)]])
  show ?thesis
    unfolding 1(2) by (auto intro: trans [OF t] trans [OF publish] add_history)
qed

text \<open>A whole command, from the state in which its flags have been set.\<close>

lemma command:
  assumes "on_command ops cmd s = Some (Inr s')"
  shows "R (upd (start_command cmd) (yield ops s)) s'"
proof -
  let ?s = "upd (start_command cmd) (yield ops s)"
  consider "s' = handle_abort ops cmd ?s"
    | n v1 s1 where "mission_loop ops cmd n (new_vars cmd (orch_of ?s)) ?s = Some (Inr (v1, s1))"
        "s' = upd (finish_mission cmd n v1) (yield ops s1)"
    using assms by (auto simp: on_command_def Let_def split: if_splits sum.splits option.splits)
  then show ?thesis
  proof cases
    case 1
    then show ?thesis by (simp add: abort)
  next
    case 2
    have "R ?s (upd (finish_mission cmd n v1) (yield ops s1))"
      by (rule trans [OF trans [OF mission [OF 2(1)] yield] finish])
    with 2(2) show ?thesis by simp
  qed
qed

end

end
