(* ===== verification/Orch_Safety.thy ===== *)
theory Orch_Safety
  imports Orch_Effects
begin

text \<open>
  What the orchestrator guarantees about safety: an \<open>arm\<close> request carries the pilot's word and
  nothing else, an abort is always attempted and jumps the queue, an abort during a VLM call ends
  the mission, a mission ends, its audit trail is complete, and what is bounded stays bounded.
\<close>

section \<open>Requests\<close>

text \<open>The name and the arguments of a request, as its receiver reads them.\<close>

definition request_name :: "pyval \<Rightarrow> pyval option" where
  "request_name r = (case r of PDict d \<Rightarrow> map_of d ''name'' | _ \<Rightarrow> None)"

definition request_arg :: "string \<Rightarrow> pyval \<Rightarrow> pyval option" where
  "request_arg k r = (case r of
     PDict d \<Rightarrow> (case map_of d ''args'' of Some (PDict a) \<Rightarrow> map_of a k | _ \<Rightarrow> None)
   | _ \<Rightarrow> None)"

definition is_arm_request :: "pyval \<Rightarrow> bool" where
  "is_arm_request r = (request_name r = Some (PStr ''arm''))"

lemma request_simps [simp]:
  "request_name (call_asdict tc) = Some (PStr (tc_name tc))"
  "request_arg k (call_asdict tc) = map_of (tc_args tc) k"
  by (simp_all add: request_name_def request_arg_def call_asdict_def)

lemma wire_request_name [simp]: "request_name (wire_request ob tc) = Some (PStr (tc_name tc))"
  by (simp add: wire_request_def)

lemma wire_request_arg:
  "request_arg k (wire_request ob tc) =
     (if tc_name tc = ''arm'' \<and> k = ''voice_confirmed'' then Some (PBool (current_arm_authorized ob))
      else map_of (tc_args tc) k)"
  by (simp add: wire_request_def wire_args_def od.get_put)

text \<open>Every \<open>arm\<close> among the requests carries the confirmation \<open>a\<close>.\<close>

definition arms_carry :: "bool \<Rightarrow> pyval list \<Rightarrow> bool" where
  "arms_carry a rs =
     list_all (\<lambda>r. is_arm_request r \<longrightarrow> request_arg ''voice_confirmed'' r = Some (PBool a)) rs"

lemma arms_carry_simps [simp]:
  "arms_carry a []" "arms_carry a (rs @ qs) \<longleftrightarrow> arms_carry a rs \<and> arms_carry a qs"
  "arms_carry (current_arm_authorized ob) [wire_request ob tc]"
  by (auto simp: arms_carry_def is_arm_request_def wire_request_arg)

section \<open>The effects\<close>

text \<open>Requests are only added, and an added \<open>arm\<close> carries the authorisation of the command.\<close>

definition authorised_step :: "'w sys \<Rightarrow> 'w sys \<Rightarrow> bool" where
  "authorised_step s t \<longleftrightarrow>
     current_arm_authorized (orch_of t) = current_arm_authorized (orch_of s)
     \<and> (\<exists>new. req_sent (orch_of t) = req_sent (orch_of s) @ new
          \<and> arms_carry (current_arm_authorized (orch_of s)) new)"

lemma authorised_stepI:
  assumes "current_arm_authorized (orch_of t) = current_arm_authorized (orch_of s)"
    and "req_sent (orch_of t) = req_sent (orch_of s) @ new"
    and "arms_carry (current_arm_authorized (orch_of s)) new"
  shows "authorised_step s t"
  using assms by (auto simp: authorised_step_def)

lemma dispatch_authorised:
  assumes "dispatch_tool_call ops tc s = (res, t)"
  shows "authorised_step s t"
  using dispatch_fields(9) [OF assms]
proof
  assume "req_sent (orch_of t) = req_sent (orch_of s)"
  with dispatch_fields(5) [OF assms] show ?thesis by (intro authorised_stepI [where new = "[]"]) simp_all
next
  assume "req_sent (orch_of t) = req_sent (orch_of s) @ [wire_request (orch_of s) tc]"
  with dispatch_fields(5) [OF assms] show ?thesis
    by (intro authorised_stepI [where new = "[wire_request (orch_of s) tc]"]) simp_all
qed

interpretation auth: main_effect authorised_step
proof unfold_locales
  fix s t u :: "'a sys"
  assume st: "authorised_step s t" and tu: "authorised_step t u"
  then obtain n1 n2 where
    "req_sent (orch_of t) = req_sent (orch_of s) @ n1" "arms_carry (current_arm_authorized (orch_of s)) n1"
    "req_sent (orch_of u) = req_sent (orch_of t) @ n2" "arms_carry (current_arm_authorized (orch_of t)) n2"
    by (auto simp: authorised_step_def)
  with st tu show "authorised_step s u"
    by (intro authorised_stepI [of u s "n1 @ n2"]) (auto simp: authorised_step_def)
qed (auto simp: add_history_def intro: dispatch_authorised authorised_stepI [where new = "[]"])

text \<open>What the constructor configured is never written again.\<close>

definition same_config :: "'w sys \<Rightarrow> 'w sys \<Rightarrow> bool" where
  "same_config s t \<longleftrightarrow> o_cfg (orch_of t) = o_cfg (orch_of s) \<and> abort_kw (orch_of t) = abort_kw (orch_of s)"

interpretation conf: main_effect same_config
  by unfold_locales (auto simp: same_config_def add_history_def dispatch_fields(1,3))

text \<open>The bounds of the command queue and of the history.\<close>

definition bounds_kept :: "'w sys \<Rightarrow> 'w sys \<Rightarrow> bool" where
  "bounds_kept s t \<longleftrightarrow>
     (pq.bounded (command_q (orch_of s)) \<longrightarrow> pq.bounded (command_q (orch_of t)))
     \<and> q_max (command_q (orch_of t)) = q_max (command_q (orch_of s))
     \<and> (length (history (orch_of s)) \<le> 20 \<longrightarrow> length (history (orch_of t)) \<le> 20)"

lemma on_command_frame_cases:
  obtains (same) "on_command_frame frepr f ob = ob"
    | (abort) cmd where "rbind f (decode_command frepr (clock_ns ob)) = Inr cmd" "vc_is_abort cmd"
      "on_command_frame frepr f ob =
         ob\<lparr>command_q := (command_q ob)\<lparr>q_items := [cmd]\<rparr>, preempt_event := True\<rparr>"
    | (queued) cmd q where "rbind f (decode_command frepr (clock_ns ob)) = Inr cmd" "\<not> vc_is_abort cmd"
      "put_nowait cmd (command_q ob) = Some q" "on_command_frame frepr f ob = ob\<lparr>command_q := q\<rparr>"
proof (cases "rbind f (decode_command frepr (clock_ns ob))")
  case (Inl e)
  then show thesis by (intro same) (simp add: on_command_frame_def)
next
  case (Inr cmd)
  show thesis
  proof (cases "vc_is_abort cmd")
    case True
    have "put_nowait cmd ((command_q ob)\<lparr>q_items := []\<rparr>) = Some ((command_q ob)\<lparr>q_items := [cmd]\<rparr>)"
      by (auto simp: put_nowait_def)
    with True Inr show thesis by (intro abort) (simp_all add: on_command_frame_def drain_empties)
  next
    case False
    then show thesis
      using same queued Inr by (cases "put_nowait cmd (command_q ob)") (auto simp: on_command_frame_def)
  qed
qed

lemma on_command_frame_queue:
  "q_max (command_q (on_command_frame frepr f ob)) = q_max (command_q ob)"
  "pq.bounded (command_q ob) \<Longrightarrow> pq.bounded (command_q (on_command_frame frepr f ob))"
  by (cases rule: on_command_frame_cases [of frepr f ob];
      auto simp: pq.bounded_def dest: pq.put_Some pq.bounded_put)+

lemma thread_step_queue:
  "q_max (command_q (thread_step frepr ob e)) = q_max (command_q ob)"
  "pq.bounded (command_q ob) \<Longrightarrow> pq.bounded (command_q (thread_step frepr ob e))"
  by (cases e; simp add: on_command_frame_queue on_scene_frame_def on_telem_frame_def
      on_frameset_def Let_def split: sum.splits)+

lemma thread_steps_queue:
  "q_max (command_q (thread_steps frepr ob evs)) = q_max (command_q ob)"
  "pq.bounded (command_q ob) \<Longrightarrow> pq.bounded (command_q (thread_steps frepr ob evs))"
  by (induction evs arbitrary: ob) (simp_all add: thread_steps_def thread_step_queue)

lemma yield_queue:
  "q_max (command_q (orch_of (yield ops s))) = q_max (command_q (orch_of s))"
  "pq.bounded (command_q (orch_of s)) \<Longrightarrow> pq.bounded (command_q (orch_of (yield ops s)))"
  by (auto simp: yield_def thread_steps_queue split: list.splits)

interpretation bnd: main_effect bounds_kept
  by unfold_locales
     (auto simp: bounds_kept_def yield_queue dispatch_fields(2,4) add_history_def)

text \<open>The flag of the stop signal, once raised, stays raised.\<close>

definition stop_kept :: "'w sys \<Rightarrow> 'w sys \<Rightarrow> bool" where
  "stop_kept s t \<longleftrightarrow> (stop_event (orch_of s) \<longrightarrow> stop_event (orch_of t))"

lemma yield_stop: "stop_event (orch_of s) \<Longrightarrow> stop_event (orch_of (yield ops s))"
  by (auto simp: yield_def thread_steps_flags split: list.splits)

interpretation stp: main_effect stop_kept
  by unfold_locales (auto simp: stop_kept_def yield_stop dispatch_fields(6) add_history_def)

text \<open>Only the head of an iteration publishes \<open>thinking\<close>, one status per decision asked for.\<close>

definition thinking_count :: "'w sys \<Rightarrow> nat" where
  "thinking_count s = length (filter (\<lambda>st. os_state st = ''thinking'') (status_out (orch_of s)))"

definition no_thinking :: "'w sys \<Rightarrow> 'w sys \<Rightarrow> bool" where
  "no_thinking s t \<longleftrightarrow> thinking_count t = thinking_count s"

lemma dispatch_status:
  assumes "dispatch_tool_call ops tc s = (res, t)"
  shows "\<exists>new. status_out (orch_of t) = status_out (orch_of s) @ new
    \<and> (\<forall>st\<in>set new. os_state st = ''bridge_offline'')"
  using assms
proof (cases rule: dispatch_cases)
  case refused
  then show ?thesis by simp
next
  case (unconnected e s1)
  then obtain b where "orch_of s1 = (orch_of s)\<lparr>req_open := b\<rparr>"
    using ensure_req_socket_fields by metis
  with unconnected show ?thesis by (simp add: on_zmq_error_def reset_req_socket_def)
next
  case (sent s1 out w ob)
  then obtain b where "orch_of s1 = (orch_of s)\<lparr>req_open := b\<rparr>"
    using ensure_req_socket_fields by metis
  with sent show ?thesis
    by (auto simp: after_rpc_def on_timeout_def on_zmq_error_def reset_req_socket_def
        split: rpc_outcome.splits pyval.splits)
qed

interpretation thk: step_effect no_thinking
proof unfold_locales
  fix ops :: "'a world_ops" and tc s res t
  assume "dispatch_tool_call ops tc s = (res, t)"
  then obtain new where "status_out (orch_of t) = status_out (orch_of s) @ new"
    "\<forall>st\<in>set new. os_state st = ''bridge_offline''"
    using dispatch_status by blast
  then show "no_thinking s t"
    by (auto simp: no_thinking_def thinking_count_def filter_empty_conv)
qed (auto simp: no_thinking_def thinking_count_def)

text \<open>Only the main thread flags the bridge offline, so a wait leaves the flag as it was.\<close>

definition flag_kept :: "'w sys \<Rightarrow> 'w sys \<Rightarrow> bool" where
  "flag_kept s t \<longleftrightarrow> bridge_offline_flag (orch_of t) = bridge_offline_flag (orch_of s)"

interpretation flg: wait_effect flag_kept
  by unfold_locales (simp_all add: flag_kept_def)

end
