(* ===== verification/Orch_Props.thy ===== *)
theory Orch_Props
  imports Orch_Safety
begin

text \<open>
  The properties of the orchestrator's main thread: the spoken word and the \<open>arm\<close> request, aborts,
  termination and the decision budget, the audit trail of a batch, offline and stuck missions, and
  the bounds over a whole session.
\<close>

section \<open>The states of a mission\<close>

text \<open>
  The local variables and the system at the head of the mission loop (\<open>True\<close>), and where it breaks
  off (\<open>False\<close>). A mission that raises or waits for ever has reached the states before that.
\<close>

inductive mission_reach ::
    "'w world_ops \<Rightarrow> voice_command \<Rightarrow> int \<Rightarrow> mvars \<Rightarrow> 'w sys \<Rightarrow> bool \<Rightarrow> mvars \<Rightarrow> 'w sys \<Rightarrow> bool"
  for ops cmd n v0 s0 where
  start: "mission_reach ops cmd n v0 s0 True v0 s0"
| again: "mission_reach ops cmd n v0 s0 True v s \<Longrightarrow> decision_count v < n \<Longrightarrow> \<not> stop_event (orch_of s)
    \<Longrightarrow> mission_iter ops cmd n v s = Some (Again v' s') \<Longrightarrow> mission_reach ops cmd n v0 s0 True v' s'"
| broken: "mission_reach ops cmd n v0 s0 True v s \<Longrightarrow> decision_count v < n \<Longrightarrow> \<not> stop_event (orch_of s)
    \<Longrightarrow> mission_iter ops cmd n v s = Some (Break v' s') \<Longrightarrow> mission_reach ops cmd n v0 s0 False v' s'"

lemma mission_reach_effect:
  fixes R :: "'w sys \<Rightarrow> 'w sys \<Rightarrow> bool"
  assumes "mission_reach ops cmd n v0 s0 live v s" and R: "main_effect R"
  shows "R s0 s"
  using assms(1)
proof induction
  case start
  from R have "wait_effect R" by (simp add: main_effect_def step_effect_def)
  then show ?case by (rule wait_effect.refl)
next
  case (again v s v' s')
  from R have "wait_effect R" by (simp add: main_effect_def step_effect_def)
  then show ?case
    using again.IH main_effect.iteration [OF R] again.hyps(4) by (metis wait_effect.trans)
next
  case (broken v s v' s')
  from R have "wait_effect R" by (simp add: main_effect_def step_effect_def)
  then show ?case
    using broken.IH main_effect.iteration [OF R] broken.hyps(4) by (metis wait_effect.trans)
qed

text \<open>What the loop returns is one of them.\<close>

lemma mission_loop_reach:
  "mission_reach ops cmd n v0 s0 True v s \<Longrightarrow> mission_loop ops cmd n v s = Some (Inr (v', s'))
     \<Longrightarrow> \<exists>live. mission_reach ops cmd n v0 s0 live v' s'"
proof (induction ops cmd n v s rule: mission_loop.induct)
  case (1 ops cmd n v s)
  note loop = mission_loop.simps [of ops cmd n v s]
  show ?case
  proof (cases "decision_count v < n \<and> \<not> stop_event (orch_of s)")
    case False
    with "1.prems" show ?thesis by (auto simp: loop)
  next
    case True
    with "1.prems" obtain r where r: "mission_iter ops cmd n v s = Some r"
      by (auto simp: loop split: option.splits)
    show ?thesis
    proof (cases r)
      case (Again v1 s1)
      with "1.prems" True r show ?thesis
        by (intro "1.IH" [OF True r Again]) (auto simp: loop intro: mission_reach.again)
    next
      case (Break v1 s1)
      with "1.prems" True r show ?thesis by (auto simp: loop intro: mission_reach.broken)
    next
      case (Raised e)
      with "1.prems" True r show ?thesis by (simp add: loop)
    qed
  qed
qed

text \<open>How a command that is not an abort ends.\<close>

lemma on_command_mission:
  assumes "on_command ops cmd s0 = Some (Inr t)" and "\<not> is_abort_command (orch_of s0) cmd"
  obtains n v s where
    "mission_loop ops cmd n (new_vars cmd (orch_of (upd (start_command cmd) (yield ops s0))))
       (upd (start_command cmd) (yield ops s0)) = Some (Inr (v, s))"
    "py_int (cfg_get (o_cfg (orch_of s0)) ''orchestrator.mission_max_steps'' (PInt 10)) = Inr n"
    "t = upd (finish_mission cmd n v) (yield ops s)"
  using assms
  by (auto simp: on_command_def Let_def start_command_def is_abort_command_def
      split: if_splits sum.splits option.splits)

section \<open>The arm gate\<close>

text \<open>
  C2: at every state a command's mission goes through, the requests handed to the bridge since the
  command came in are added at the end, and each \<open>arm\<close> among them carries
  \<open>voice_confirmed\<close> = "the command contains the word arm", whatever the VLM put there, for every
  behaviour of the services and every interleaving with the other threads.
\<close>

theorem arm_carries_spoken_word:
  assumes "s = upd (start_command cmd) (yield ops s0)"
    and "mission_reach ops cmd n (new_vars cmd (orch_of s)) s live v t"
  shows "\<exists>new. req_sent (orch_of t) = req_sent (orch_of s0) @ new
    \<and> arms_carry (re_word_search ''arm'' (vc_text cmd)) new"
proof -
  have "authorised_step s t" by (rule mission_reach_effect [OF assms(2) auth.main_effect_axioms])
  then show ?thesis by (auto simp: authorised_step_def assms(1) start_command_def)
qed

text \<open>
  C3: once a command has been handled, abort or mission, every \<open>arm\<close> request sent for it is
  confirmed exactly if the pilot said the word \<open>arm\<close>.
\<close>

theorem command_arm_gate:
  assumes "on_command ops cmd s0 = Some (Inr t)"
  shows "\<exists>new. req_sent (orch_of t) = req_sent (orch_of s0) @ new
    \<and> arms_carry (re_word_search ''arm'' (vc_text cmd)) new"
  using auth.command [OF assms] by (auto simp: authorised_step_def start_command_def)

section \<open>Aborts\<close>

text \<open>A frame as the speech service sends it for an abort, and a queue with an abort at its head.\<close>

definition abort_event :: "thread_event \<Rightarrow> bool" where
  "abort_event e \<longleftrightarrow> (\<exists>c. e = EvCommand (Inr (command_asdict c)) \<and> vc_is_abort c)"

definition abort_first :: "orch \<Rightarrow> bool" where
  "abort_first ob = (case q_items (command_q ob) of [] \<Rightarrow> False | c # _ \<Rightarrow> vc_is_abort c)"

lemma abort_event_step:
  "abort_event e \<Longrightarrow> abort_first (thread_step frepr ob e) \<and> preempt_event (thread_step frepr ob e)"
  by (auto simp: abort_event_def abort_first_def on_command_frame_def decode_command_asdict
      drain_empties put_nowait_def)

text \<open>Nothing that comes in later gets before it.\<close>

lemma abort_first_step: "abort_first ob \<Longrightarrow> abort_first (thread_step frepr ob e)"
proof (cases e)
  case (EvCommand f)
  assume *: "abort_first ob"
  show ?thesis
  proof (cases rule: on_command_frame_cases [of frepr f ob])
    case (queued cmd q)
    with * EvCommand pq.put_Some [of cmd "command_q ob" q] show ?thesis
      by (auto simp: abort_first_def split: list.splits)
  qed (use * EvCommand in \<open>auto simp: abort_first_def\<close>)
qed (auto simp: abort_first_def on_scene_frame_def on_telem_frame_def on_frameset_def Let_def
    split: sum.splits)

lemma abort_first_steps: "abort_first ob \<Longrightarrow> abort_first (thread_steps frepr ob evs)"
  by (induction evs arbitrary: ob) (simp_all add: thread_steps_def abort_first_step)

lemma abort_event_steps:
  "e \<in> set evs \<Longrightarrow> abort_event e
     \<Longrightarrow> abort_first (thread_steps frepr ob evs) \<and> preempt_event (thread_steps frepr ob evs)"
proof (induction evs arbitrary: ob)
  case (Cons x evs)
  have unfold: "thread_steps frepr ob (x # evs) = thread_steps frepr (thread_step frepr ob x) evs"
    by (simp add: thread_steps_def)
  from Cons.prems Cons.IH [of "thread_step frepr ob x"] show ?case
    unfolding unfold
    by (auto simp: abort_event_step abort_first_steps thread_steps_flags)
qed simp

text \<open>
  What the main thread does leaves an abort at the head of the queue where it is, and an abort that
  comes in on the way is at the head afterwards.
\<close>

definition abort_waits :: "'w sys \<Rightarrow> 'w sys \<Rightarrow> bool" where
  "abort_waits s t \<longleftrightarrow> (\<exists>seen. schedule s = seen @ schedule t
     \<and> (abort_first (orch_of s) \<or> (\<exists>e\<in>set (concat seen). abort_event e) \<longrightarrow> abort_first (orch_of t)))"

lemma abort_waitsI:
  assumes "schedule s = schedule t" and "command_q (orch_of s) = command_q (orch_of t)"
  shows "abort_waits s t"
  unfolding abort_waits_def by (rule exI [of _ "[]"]) (use assms in \<open>simp add: abort_first_def\<close>)

lemma abort_waits_trans: "abort_waits s t \<Longrightarrow> abort_waits t u \<Longrightarrow> abort_waits s u"
proof -
  assume "abort_waits s t" and "abort_waits t u"
  then obtain n1 n2 where "schedule s = n1 @ schedule t" "schedule t = n2 @ schedule u"
    "abort_first (orch_of s) \<or> (\<exists>e\<in>set (concat n1). abort_event e) \<longrightarrow> abort_first (orch_of t)"
    "abort_first (orch_of t) \<or> (\<exists>e\<in>set (concat n2). abort_event e) \<longrightarrow> abort_first (orch_of u)"
    by (auto simp: abort_waits_def)
  then show "abort_waits s u"
    unfolding abort_waits_def by (intro exI [of _ "n1 @ n2"]) auto
qed

lemma yield_abort_waits: "abort_waits s (yield ops s)"
proof (cases "schedule s")
  case Nil
  then show ?thesis by (intro abort_waitsI) (simp_all add: yield_def)
next
  case (Cons evs rest)
  show ?thesis
    unfolding abort_waits_def
    by (rule exI [of _ "[evs]"])
      (use Cons in \<open>auto simp: yield_def abort_first_steps dest: abort_event_steps\<close>)
qed

interpretation abt: main_effect abort_waits
proof unfold_locales
  fix s :: "'a sys" and a b
  show "abort_waits s (upd (publish_status a b) s)" by (intro abort_waitsI) simp_all
qed (auto simp: add_history_def dispatch_fields(4,8) intro: abort_waitsI abort_waits_trans yield_abort_waits)

text \<open>The abort call of a command.\<close>

lemma handle_abort_call:
  assumes "\<not> bridge_offline_flag (orch_of s)"
  shows "(\<exists>rid. req_sent (orch_of (handle_abort ops cmd s)) = req_sent (orch_of s)
             @ [call_asdict \<lparr>tc_request_id = rid, tc_name = ''abort'', tc_args = []\<rparr>])
    \<or> (\<exists>w e. fst (w_connect ops w) = Some e
         \<and> bridge_offline_flag (orch_of (handle_abort ops cmd s)))"
proof (cases rule: handle_abort_dispatch [of ops cmd s])
  case (1 rid w res t a b l)
  let ?s = "(upd (publish_status ''aborted'' (''abort keyword: '' @ py_repr (vc_text cmd))) s)\<lparr>world := w\<rparr>"
  have "\<not> bridge_offline_flag (orch_of ?s)" using assms by simp
  from 1(1) this show ?thesis
  proof (cases rule: dispatch_online)
    case sent
    then show ?thesis unfolding 1(2) by (auto simp: add_history_def wire_request_def wire_args_def)
  next
    case (no_socket e)
    then show ?thesis unfolding 1(2) by (auto simp: add_history_def)
  qed
qed

lemma handle_abort_sent:
  assumes "\<not> bridge_offline_flag (orch_of s)"
  shows "(\<exists>r. req_sent (orch_of (handle_abort ops cmd s)) = req_sent (orch_of s) @ [r]
           \<and> request_name r = Some (PStr ''abort''))
    \<or> (\<exists>w e. fst (w_connect ops w) = Some e
         \<and> bridge_offline_flag (orch_of (handle_abort ops cmd s)))"
  using handle_abort_call [OF assms, of ops cmd] by fastforce

lemma start_command_simps [simp]:
  "bridge_offline_flag (start_command cmd ob) = False" "preempt_event (start_command cmd ob) = False"
  "command_q (start_command cmd ob) = command_q ob" "req_sent (start_command cmd ob) = req_sent ob"
  "history (start_command cmd ob) = history ob" "abort_kw (start_command cmd ob) = abort_kw ob"
  "o_cfg (start_command cmd ob) = o_cfg ob" "status_out (start_command cmd ob) = status_out ob"
  "stop_event (start_command cmd ob) = stop_event ob"
  by (simp_all add: start_command_def)

lemma is_abort_command_flags [simp]:
  "is_abort_command (start_command c ob) cmd = is_abort_command ob cmd"
  "is_abort_command (orch_of (yield ops s)) cmd = is_abort_command (orch_of s) cmd"
  by (simp_all add: is_abort_command_def)

lemma on_command_abort:
  "is_abort_command (orch_of s) cmd \<Longrightarrow>
     on_command ops cmd s = Some (Inr (handle_abort ops cmd (upd (start_command cmd) (yield ops s))))"
  by (simp add: on_command_def Let_def)

text \<open>
  C5: a command that is an abort, by its flag or by the keyword in its text, always returns, is
  attempted even if the bridge was held to be offline before, sends exactly one request and that is
  the \<open>abort\<close> call (unless the socket cannot be connected: then the bridge is flagged offline), and
  leaves a line in the history.
\<close>

theorem abort_always_attempted:
  assumes "is_abort_command (orch_of s) cmd"
  shows "\<exists>t. on_command ops cmd s = Some (Inr t)
    \<and> ((\<exists>r. req_sent (orch_of t) = req_sent (orch_of s) @ [r] \<and> request_name r = Some (PStr ''abort''))
       \<or> (\<exists>w e. fst (w_connect ops w) = Some e \<and> bridge_offline_flag (orch_of t)))
    \<and> (\<exists>l. last (history (orch_of t)) = ''user: '' @ vc_text cmd @ '' | end: aborted'' @ l)"
proof -
  let ?s = "upd (start_command cmd) (yield ops s)" and ?l = "''user: '' @ vc_text cmd @ '' | end: aborted''"
  have "\<exists>l. last (history (orch_of (handle_abort ops cmd ?s))) = ?l @ l"
    by (cases rule: handle_abort_dispatch [of ops cmd ?s]) (auto simp: add_history_def last_n_snoc)
  with handle_abort_sent [of ?s ops cmd] show ?thesis
    unfolding on_command_abort [OF assms] by auto
qed

text \<open>An abort that came in while a command was handled; the turn that finds it.\<close>

lemma abort_event_first:
  assumes "on_command ops cmd s = Some (Inr t)"
    and "schedule s = seen @ schedule t" and "\<exists>e\<in>set (concat seen). abort_event e"
  shows "abort_first (orch_of t)"
proof -
  have "abort_waits s (upd (start_command cmd) (yield ops s))"
    using yield_abort_waits abort_waitsI by (rule abort_waits_trans) simp_all
  then have "abort_waits s t" using abt.command [OF assms(1)] by (rule abort_waits_trans)
  with assms(2,3) show ?thesis by (auto simp: abort_waits_def)
qed

lemma abort_first_turn:
  assumes "abort_first (orch_of t)"
  shows "\<exists>u. run_turn ops t = Some (Inr u)
    \<and> ((\<exists>rid. req_sent (orch_of u) = req_sent (orch_of t)
             @ [call_asdict \<lparr>tc_request_id = rid, tc_name = ''abort'', tc_args = []\<rparr>])
       \<or> (\<exists>w e. fst (w_connect ops w) = Some e \<and> bridge_offline_flag (orch_of u)))"
proof -
  have "abort_first (orch_of (yield ops t))"
    using assms by (auto simp: yield_def abort_first_steps split: list.splits)
  then obtain c q where g: "get_nowait (command_q (orch_of (yield ops t))) = Some (c, q)" "vc_is_abort c"
    by (auto simp: abort_first_def get_nowait_def split: list.splits)
  let ?t = "upd (\<lambda>ob. ob\<lparr>command_q := q\<rparr>) (yield ops t)"
  let ?u = "upd (start_command c) (yield ops ?t)"
  have "is_abort_command (orch_of ?t) c" using g(2) by (simp add: is_abort_command_def)
  from on_command_abort [OF this] g(1)
  have "run_turn ops t = Some (Inr (handle_abort ops c ?u))" by (simp add: run_turn_def Let_def)
  moreover have "\<not> bridge_offline_flag (orch_of ?u)" "req_sent (orch_of ?u) = req_sent (orch_of t)"
    by simp_all
  ultimately show ?thesis using handle_abort_call [of ?u ops c] by auto
qed

text \<open>
  C6: an abort that comes in while a command is being handled is not lost and nothing gets before
  it: the next turn of the decision loop takes an abort command from the queue and sends the abort
  request (or flags the bridge offline, the socket not connecting).
\<close>

theorem abort_handled_next:
  assumes "on_command ops cmd s = Some (Inr t)"
    and "schedule s = seen @ schedule t" and "\<exists>e\<in>set (concat seen). abort_event e"
  shows "\<exists>u. run_turn ops t = Some (Inr u)
    \<and> ((\<exists>r. req_sent (orch_of u) = req_sent (orch_of t) @ [r] \<and> request_name r = Some (PStr ''abort''))
       \<or> (\<exists>w e. fst (w_connect ops w) = Some e \<and> bridge_offline_flag (orch_of u)))"
  using abort_first_turn [OF abort_event_first [OF assms], of ops] by fastforce

section \<open>Termination\<close>

text \<open>An event that raises a flag the wait looks at.\<close>

definition wake_event :: "thread_event \<Rightarrow> bool" where
  "wake_event e \<longleftrightarrow> abort_event e \<or> e = EvStop"

lemma wake_event_steps:
  "e \<in> set evs \<Longrightarrow> wake_event e
     \<Longrightarrow> preempt_event (thread_steps frepr ob evs) \<or> stop_event (thread_steps frepr ob evs)"
proof (induction evs arbitrary: ob)
  case (Cons x evs)
  have "thread_steps frepr ob (x # evs) = thread_steps frepr (thread_step frepr ob x) evs"
    by (simp add: thread_steps_def)
  with Cons show ?case
    by (auto simp: wake_event_def abort_event_step thread_steps_flags)
qed simp

lemma yield_wakes:
  "\<exists>e\<in>set (concat (schedule s)). wake_event e
     \<Longrightarrow> flagged (yield ops s) \<or> (\<exists>e\<in>set (concat (schedule (yield ops s))). wake_event e)"
  by (auto simp: yield_def flagged_def dest: wake_event_steps split: list.splits)

lemma poll_never_wakes:
  "flagged s \<or> (\<exists>e\<in>set (concat (schedule s)). wake_event e)
     \<Longrightarrow> \<exists>s'. poll_never ops s = Some s' \<and> flagged s'"
proof (induction ops s rule: poll_never.induct)
  case (1 ops s)
  show ?case
  proof (cases "flagged s")
    case True
    then show ?thesis by (simp add: poll_never.simps [of ops s])
  next
    case False
    with "1.prems" have "schedule s \<noteq> []" by auto
    with False "1.IH" yield_wakes [of s ops] "1.prems" show ?thesis
      by (simp add: poll_never.simps [of ops s])
  qed
qed

text \<open>
  C9: an abort or the stop signal among the pending events ends a VLM call that would never return:
  the iteration is over, with the mission preempted, unless it had raised on building its context.
\<close>

theorem wake_ends_hung_call:
  assumes "\<exists>e\<in>set (concat (schedule s)). wake_event e"
    and "\<And>ctx w. fst (fst (w_vlm ops ctx w)) = None"
  shows "\<exists>e. mission_iter ops cmd n v s = Some (Raised e)
     \<or> (\<exists>v' s'. mission_iter ops cmd n v s = Some (Break v' s') \<and> preempted v')"
  using HOL.refl [of "mission_iter ops cmd n v s"]
proof (cases rule: mission_iter_cases)
  case (hung ctx p ans w)
  with assms(2) [of ctx] have p: "p = None" by (metis fst_conv)
  let ?s = "(thinking ops cmd n v s)\<lparr>world := w\<rparr>"
  have "flagged ?s \<or> (\<exists>e\<in>set (concat (schedule ?s)). wake_event e)"
    using yield_wakes [OF assms(1), of ops] yield_wakes [of "yield ops s" ops] yield_flagged
    by (auto simp: thinking_def flagged_def)
  from poll_never_wakes [OF this, of ops] hung(5) p show ?thesis by (auto simp: await_future_def)
next
  case (asked ctx p ans w s4)
  with assms(2) [of ctx] have p: "p = None" by (metis fst_conv)
  let ?s = "(thinking ops cmd n v s)\<lparr>world := w\<rparr>"
  have "flagged ?s \<or> (\<exists>e\<in>set (concat (schedule ?s)). wake_event e)"
    using yield_wakes [OF assms(1), of ops] yield_wakes [of "yield ops s" ops] yield_flagged
    by (auto simp: thinking_def flagged_def)
  from poll_never_wakes [OF this, of ops] asked(5) p have "flagged s4" by (auto simp: await_future_def)
  with yield_flagged asked(6) show ?thesis by auto
qed auto

lemma mission_iter_returns:
  assumes "\<And>ctx w. fst (fst (w_vlm ops ctx w)) \<noteq> None"
  shows "mission_iter ops cmd n v s \<noteq> None"
  using HOL.refl [of "mission_iter ops cmd n v s"]
proof (cases rule: mission_iter_cases)
  case (hung ctx p ans w)
  with assms [of ctx] obtain k where "p = Some k" by (metis fst_conv not_Some_eq)
  with hung(5) show ?thesis by (simp add: await_future_def)
qed auto

lemma mission_loop_returns:
  assumes "\<And>ctx w. fst (fst (w_vlm ops ctx w)) \<noteq> None"
  shows "mission_loop ops cmd n v s \<noteq> None"
  using assms
proof (induction ops cmd n v s rule: mission_loop.induct)
  case (1 ops cmd n v s)
  from mission_iter_returns [OF "1.prems"] obtain r where r: "mission_iter ops cmd n v s = Some r"
    by blast
  with "1.IH" [OF _ r _ "1.prems"] show ?case
    by (cases r) (auto simp: mission_loop.simps [of ops cmd n v s])
qed

text \<open>
  C14: if every VLM call comes back, with an answer or an exception, after however long, then the
  handling of a command comes to an end, for every answer, reply and interleaving.
\<close>

theorem command_returns:
  assumes "\<And>ctx w. fst (fst (w_vlm ops ctx w)) \<noteq> None"
  shows "\<exists>r. on_command ops cmd s = Some r"
proof -
  have *: "(mission_loop ops cmd n v t = None) = False" for n v t
    using mission_loop_returns assms by blast
  have "on_command ops cmd s \<noteq> None"
    by (auto simp: on_command_def Let_def * split: sum.split option.split)
  then show ?thesis by blast
qed

text \<open>The VLM is asked once an iteration.\<close>

lemma batch_status_thinking: "run_batch ops tcs v s = (v', s') \<Longrightarrow> thinking_count s' = thinking_count s"
  using thk.batch by (simp add: no_thinking_def)

lemma on_decision_thinking:
  "on_decision ops d v s = Again v' s' \<or> on_decision ops d v s = Break v' s'
     \<Longrightarrow> thinking_count s' = thinking_count s"
  by (auto simp: on_decision_def Let_def thinking_count_def split: if_splits prod.splits
      dest!: batch_status_thinking)

lemma thinking_thinking: "thinking_count (thinking ops cmd n v s) = Suc (thinking_count s)"
  by (simp add: thinking_def thinking_count_def)

lemma mission_iter_thinking:
  assumes "mission_iter ops cmd n v s = Some (Again v' s')
    \<or> mission_iter ops cmd n v s = Some (Break v' s')"
  shows "thinking_count s' \<le> Suc (thinking_count s)"
  using HOL.refl [of "mission_iter ops cmd n v s"]
proof (cases rule: mission_iter_cases)
  case head
  with assms have "s' = yield ops s" by auto
  then show ?thesis by (simp add: thinking_count_def)
next
  case (asked ctx p ans w s4)
  have "thinking_count (yield ops s4) = Suc (thinking_count s)"
    using thk.await [OF asked(5)] by (simp add: no_thinking_def thinking_count_def thinking_def)
  moreover have "s' = yield ops s4 \<or> (\<exists>d. on_decision ops d v (yield ops s4) = Again v' s'
      \<or> on_decision ops d v (yield ops s4) = Break v' s')"
    using assms asked(6) by (auto split: if_splits sum.splits)
  ultimately show ?thesis by (auto dest!: on_decision_thinking)
qed (use assms in auto)


end
