(* ===== verification/Orch_Batch.thy ===== *)
theory Orch_Batch
  imports Orch_Props "HOL-Library.Sublist"
begin

text \<open>
  The properties of a batch of tool calls: the audit trail and the requests, a bridge that went
  offline, the detection of a mission that is stuck, and the reason a mission is reported to have
  ended for.
\<close>

section \<open>One call of a batch, case by case\<close>

lemma run_batch_dispatched:
  assumes "run_batch ops (tc # rest) v s = (v', s')" and "\<not> flagged (yield ops s)"
    and "dispatch_tool_call ops tc (yield ops s) = (res, t)"
    and "v1 = v\<lparr>mv_mission := mission_record (clock_ns (orch_of t)) (tc_name tc) (tc_args tc) res True (mv_mission v)\<rparr>"
  shows "(if is_offline_error (tr_error res) then
             ((skip_rest (orch_of t) ''skipped:bridge_offline'' rest v1)\<lparr>offline := True\<rparr>, t)
           else if \<not> tr_ok res \<and> tr_error res \<noteq> PNone then
             ((skip_rest (orch_of t) ''skipped:prior_failure'' rest v1)
                \<lparr>stuck := stuck_failure_threshold
                   \<le> failure_matches (tc_name tc) (tr_error res) (mv_mission v1)\<rparr>, t)
           else if tc_name tc \<in> set terminal_tools then
             ((skip_rest (orch_of t) ''skipped:after_terminal'' rest v1)
                \<lparr>terminal_call := Some (tc_name tc)\<rparr>, t)
           else run_batch ops rest v1 t) = (v', s')"
  unfolding assms(1) [symmetric] assms(4) using assms(2,3) by (simp add: flagged_def Let_def)

lemma run_batch_Cons_cases:
  assumes "run_batch ops (tc # rest) v s = (v', s')"
  obtains (flag) "flagged (yield ops s)" "s' = yield ops s"
      "v' = (skip_rest (orch_of (yield ops s)) ''skipped:preempted'' (tc # rest) v)\<lparr>preempted := True\<rparr>"
    | (last) res v1 why where "\<not> flagged (yield ops s)"
      "dispatch_tool_call ops tc (yield ops s) = (res, s')"
      "v1 = v\<lparr>mv_mission := mission_record (clock_ns (orch_of s')) (tc_name tc) (tc_args tc) res True (mv_mission v)\<rparr>"
      "is_offline_error (tr_error res) \<and> why = ''bridge_offline''
         \<and> v' = (skip_rest (orch_of s') ''skipped:bridge_offline'' rest v1)\<lparr>offline := True\<rparr>
       \<or> \<not> is_offline_error (tr_error res) \<and> \<not> tr_ok res \<and> tr_error res \<noteq> PNone \<and> why = ''prior_failure''
         \<and> v' = (skip_rest (orch_of s') ''skipped:prior_failure'' rest v1)
              \<lparr>stuck := stuck_failure_threshold \<le> failure_matches (tc_name tc) (tr_error res) (mv_mission v1)\<rparr>
       \<or> \<not> is_offline_error (tr_error res) \<and> (tr_ok res \<or> tr_error res = PNone)
         \<and> tc_name tc \<in> set terminal_tools \<and> why = ''after_terminal''
         \<and> v' = (skip_rest (orch_of s') ''skipped:after_terminal'' rest v1)\<lparr>terminal_call := Some (tc_name tc)\<rparr>"
    | (going_on) res t v1 where "\<not> flagged (yield ops s)"
      "dispatch_tool_call ops tc (yield ops s) = (res, t)"
      "v1 = v\<lparr>mv_mission := mission_record (clock_ns (orch_of t)) (tc_name tc) (tc_args tc) res True (mv_mission v)\<rparr>"
      "\<not> is_offline_error (tr_error res)" "tr_ok res \<or> tr_error res = PNone"
      "tc_name tc \<notin> set terminal_tools" "run_batch ops rest v1 t = (v', s')"
proof (cases "flagged (yield ops s)")
  case True
  with assms show ?thesis by (intro flag) (auto simp: flagged_def Let_def)
next
  case False
  obtain res t where d: "dispatch_tool_call ops tc (yield ops s) = (res, t)" by fastforce
  let ?v1 = "v\<lparr>mv_mission := mission_record (clock_ns (orch_of t)) (tc_name tc) (tc_args tc) res True (mv_mission v)\<rparr>"
  note run = run_batch_dispatched [OF assms False d refl]
  consider (off) "is_offline_error (tr_error res)"
    | (bad) "\<not> is_offline_error (tr_error res)" "\<not> tr_ok res \<and> tr_error res \<noteq> PNone"
    | (fin) "\<not> is_offline_error (tr_error res)" "\<not> (\<not> tr_ok res \<and> tr_error res \<noteq> PNone)"
        "tc_name tc \<in> set terminal_tools"
    | (on) "\<not> is_offline_error (tr_error res)" "\<not> (\<not> tr_ok res \<and> tr_error res \<noteq> PNone)"
        "tc_name tc \<notin> set terminal_tools"
    by argo
  then show ?thesis
  proof cases
    case off
    from run [unfolded if_P [OF off]]
    have r: "v' = (skip_rest (orch_of t) ''skipped:bridge_offline'' rest ?v1)\<lparr>offline := True\<rparr>"
      "t = s'" unfolding prod.inject by blast+
    show ?thesis
      by (rule last [OF False d [unfolded r(2)] refl], intro disjI1 conjI) (use off r in simp_all)
  next
    case bad
    from run [unfolded if_not_P [OF bad(1)] if_P [OF bad(2)]]
    have r: "v' = (skip_rest (orch_of t) ''skipped:prior_failure'' rest ?v1)
        \<lparr>stuck := stuck_failure_threshold \<le> failure_matches (tc_name tc) (tr_error res) (mv_mission ?v1)\<rparr>"
      "t = s'" unfolding prod.inject by blast+
    show ?thesis
      by (rule last [OF False d [unfolded r(2)] refl], rule disjI2, rule disjI1, intro conjI)
        (use bad r in simp_all)
  next
    case fin
    from run [unfolded if_not_P [OF fin(1)] if_not_P [OF fin(2)] if_P [OF fin(3)]]
    have r: "v' = (skip_rest (orch_of t) ''skipped:after_terminal'' rest ?v1)\<lparr>terminal_call := Some (tc_name tc)\<rparr>"
      "t = s'" unfolding prod.inject by blast+
    show ?thesis
      by (rule last [OF False d [unfolded r(2)] refl], rule disjI2, rule disjI2, intro conjI) (use fin r in simp_all)
  next
    case on
    from run [unfolded if_not_P [OF on(1)] if_not_P [OF on(2)] if_not_P [OF on(3)]]
    show ?thesis by (intro going_on [OF False d refl on(1) _ on(3)]) (use on(2) in auto)
  qed
qed

section \<open>The audit trail\<close>

text \<open>What a batch adds to the history: an entry for each call run, then one for each call skipped.\<close>

definition ran_entries :: "tool_call list \<Rightarrow> step list \<Rightarrow> bool" where
  "ran_entries tcs es \<longleftrightarrow> map st_tool es = map tc_name tcs \<and> map st_args es = map tc_args tcs"

definition skipped_entries :: "tool_call list \<Rightarrow> step list \<Rightarrow> bool" where
  "skipped_entries tcs es \<longleftrightarrow> ran_entries tcs es
     \<and> list_all (\<lambda>e. \<not> st_ok e \<and> (\<exists>why. st_error e = PStr (''skipped:'' @ why))) es"

definition went_on :: "step \<Rightarrow> bool" where
  "went_on e \<longleftrightarrow> (st_ok e \<or> st_error e = PNone) \<and> \<not> is_offline_error (st_error e)
     \<and> st_tool e \<notin> set terminal_tools"

lemma skip_rest_simps [simp]:
  "current_step (mv_mission (skip_rest ob why tcs v)) = current_step (mv_mission v)"
  "terminal_call (skip_rest ob why tcs v) = terminal_call v" "offline (skip_rest ob why tcs v) = offline v"
  "stuck (skip_rest ob why tcs v) = stuck v" "vlm_error (skip_rest ob why tcs v) = vlm_error v"
  "preempted (skip_rest ob why tcs v) = preempted v" "decision_count (skip_rest ob why tcs v) = decision_count v"
  by (simp_all add: skip_rest_def)

lemma skip_rest_history:
  "\<exists>es. step_history (mv_mission (skip_rest ob (''skipped:'' @ why) tcs v)) = step_history (mv_mission v) @ es
     \<and> skipped_entries tcs es"
  by (auto simp: skip_rest_def step_history_skipped skipped_entries_def ran_entries_def comp_def list_all_iff)

text \<open>
  C16: the audit trail of a batch is complete and in order. Every call of the batch has its entry with
  its tool and arguments: first the calls that ran, and \<open>current_step\<close> counts just these, then the
  others as failures marked \<open>skipped:\<close>; every call that ran but the last one succeeded (or failed
  without naming an error) and is no terminal tool.
\<close>

theorem batch_audit_trail:
  assumes "run_batch ops tcs v s = (v', s')"
  shows "\<exists>k ran skipped. k \<le> length tcs
    \<and> step_history (mv_mission v') = step_history (mv_mission v) @ ran @ skipped
    \<and> ran_entries (take k tcs) ran \<and> skipped_entries (drop k tcs) skipped
    \<and> current_step (mv_mission v') = current_step (mv_mission v) + k
    \<and> list_all went_on (butlast ran)"
  using assms
proof (induction tcs arbitrary: v s)
  case Nil
  then show ?case by (auto simp: ran_entries_def skipped_entries_def)
next
  case (Cons tc rest)
  show ?case
    using Cons.prems
  proof (cases rule: run_batch_Cons_cases)
    case flag
    obtain es where "step_history (mv_mission v') = step_history (mv_mission v) @ es"
      "skipped_entries (tc # rest) es"
      using skip_rest_history [of "orch_of (yield ops s)" "''preempted''" "tc # rest" v] flag(3) by auto
    with flag(3) show ?thesis
      by (intro exI [of _ 0] exI [of _ "[]"] exI [of _ es]) (simp add: ran_entries_def)
  next
    case (last res v1 why)
    have "\<exists>es. step_history (mv_mission v') = step_history (mv_mission v1) @ es \<and> skipped_entries rest es"
      using last(4) skip_rest_history [of "orch_of s'" why rest v1] by auto
    moreover have "current_step (mv_mission v') = current_step (mv_mission v1)" using last(4) by auto
    ultimately obtain es where "step_history (mv_mission v') = step_history (mv_mission v1) @ es"
      "skipped_entries rest es" "current_step (mv_mission v') = current_step (mv_mission v1)" by blast
    with last(3) show ?thesis
      by (intro exI [of _ 1] exI conjI) (auto simp: step_history_record ran_entries_def)
  next
    case (going_on res t v1)
    let ?e = "\<lparr>st_tool = tc_name tc, st_args = tc_args tc, st_ok = tr_ok res, st_error = tr_error res,
      st_ts_ns = clock_ns (orch_of t)\<rparr>"
    obtain k ran skipped where ih: "k \<le> length rest"
      "step_history (mv_mission v') = step_history (mv_mission v1) @ ran @ skipped"
      "ran_entries (take k rest) ran" "skipped_entries (drop k rest) skipped"
      "current_step (mv_mission v') = current_step (mv_mission v1) + k" "list_all went_on (butlast ran)"
      using Cons.IH [OF going_on(7)] by blast
    have "went_on ?e" using going_on by (simp add: went_on_def)
    with ih going_on(3) show ?thesis
      by (intro exI [of _ "Suc k"] exI [of _ "?e # ran"] exI [of _ skipped])
        (auto simp: step_history_record ran_entries_def)
  qed
qed

lemma batch_current_step:
  "run_batch ops tcs v s = (v', s') \<Longrightarrow> current_step (mv_mission v) \<le> current_step (mv_mission v')"
proof (induction tcs arbitrary: v s)
  case (Cons tc rest)
  from Cons.prems show ?case
    by (cases rule: run_batch_Cons_cases) (auto dest!: Cons.IH)
qed simp


section \<open>A bridge that goes offline\<close>

lemma fail_result_offline [simp]:
  "is_offline_error (tr_error (fail_result tc e))
     \<longleftrightarrow> e = ''bridge_offline'' \<or> e = ''timeout'' \<or> startswith e ''wire_error''"
  by (simp add: is_offline_error_def fail_result_def)

lemma after_rpc_offline:
  assumes "after_rpc tc out ob = (res, ob')" and "\<not> bridge_offline_flag ob"
    and "bridge_offline_flag ob'"
  shows "is_offline_error (tr_error res) \<and> os_state (last (status_out ob')) = ''bridge_offline''"
proof (cases out)
  case (Reply v)
  with assms show ?thesis by (cases v) (auto simp: after_rpc_def reset_req_socket_def)
qed (use assms in \<open>auto simp: after_rpc_def reset_req_socket_def on_timeout_def on_zmq_error_def startswith_def\<close>)

text \<open>The result of a dispatch that leaves the bridge flagged offline, and the status it published.\<close>

lemma dispatch_offline:
  assumes "dispatch_tool_call ops tc s = (res, t)" and "bridge_offline_flag (orch_of t)"
  shows "is_offline_error (tr_error res)" "os_state (last (status_out (orch_of t))) = ''bridge_offline''"
proof -
  have "is_offline_error (tr_error res) \<and> os_state (last (status_out (orch_of t))) = ''bridge_offline''"
    using assms(1)
  proof (cases rule: dispatch_cases)
    case refused
    then show ?thesis by simp
  next
    case (unconnected e s1)
    then show ?thesis by (simp add: on_zmq_error_def startswith_def)
  next
    case (sent s1 out w ob)
    let ?o = "(orch_of s1)\<lparr>req_sent := req_sent (orch_of s1) @ [wire_request (orch_of s) tc]\<rparr>"
    obtain b where "orch_of s1 = (orch_of s)\<lparr>req_open := b\<rparr>"
      using ensure_req_socket_fields(1) [OF sent(2)] by blast
    with sent(1) have "\<not> bridge_offline_flag ?o" by simp
    moreover have "after_rpc tc out ?o = (res, orch_of t)" "bridge_offline_flag (orch_of t)"
      using sent(4,5) assms(2) by simp_all
    ultimately show ?thesis using after_rpc_offline by blast
  qed
  then show "is_offline_error (tr_error res)" "os_state (last (status_out (orch_of t))) = ''bridge_offline''"
    by auto
qed

text \<open>The variables of a mission that nothing has ended.\<close>

definition running :: "mvars \<Rightarrow> bool" where
  "running v \<longleftrightarrow> terminal_call v = None \<and> \<not> offline v \<and> \<not> stuck v \<and> vlm_error v = None \<and> \<not> preempted v"

text \<open>A batch that leaves the bridge offline has marked the mission so, and did nothing after.\<close>

lemma batch_offline:
  "run_batch ops tcs v s = (v', s') \<Longrightarrow> running v \<Longrightarrow> \<not> bridge_offline_flag (orch_of s)
     \<Longrightarrow> bridge_offline_flag (orch_of s')
     \<Longrightarrow> offline v' \<and> terminal_call v' = None \<and> \<not> preempted v'
       \<and> os_state (last (status_out (orch_of s'))) = ''bridge_offline''"
proof (induction tcs arbitrary: v s)
  case (Cons tc rest)
  show ?case
    using Cons.prems(1)
  proof (cases rule: run_batch_Cons_cases)
    case flag
    with Cons.prems show ?thesis by simp
  next
    case (last res v1 why)
    from dispatch_offline [OF last(2) Cons.prems(4)] last(3,4) Cons.prems(2) show ?thesis
      by (auto simp: running_def)
  next
    case (going_on res t v1)
    have "\<not> bridge_offline_flag (orch_of t)" using dispatch_offline(1) [OF going_on(2)] going_on(4) by blast
    moreover have "running v1" using going_on(3) Cons.prems(2) by (simp add: running_def)
    ultimately show ?thesis using Cons.IH [OF going_on(7)] Cons.prems(4) by blast
  qed
qed simp

lemma batch_vlm_error: "run_batch ops tcs v s = (v', s') \<Longrightarrow> vlm_error v' = vlm_error v"
  using run_batch_frame by blast

lemma on_decision_cases:
  assumes "on_decision ops d v s = r"
  obtains (none) "tool_calls d = []"
      "r = Break (if startswith (thought d) ''vlm_error:''
         then v\<lparr>decision_count := decision_count v + 1, vlm_error := Some (thought d)\<rparr>
         else v\<lparr>decision_count := decision_count v + 1\<rparr>) s"
    | (batch) v' s' where "tool_calls d \<noteq> []"
      "run_batch ops (tool_calls d)
         (v\<lparr>decision_count := decision_count v + 1, offline := False, stuck := False\<rparr>)
         (upd (publish_status ''executing'' (thought d)) s) = (v', s')"
      "r = (if terminal_call v' \<noteq> None \<or> offline v' \<or> stuck v' \<or> preempted v' then Break v' s' else Again v' s')"
proof (cases "tool_calls d = []")
  case True
  with assms show ?thesis by (intro none) (auto simp: on_decision_def Let_def)
next
  case False
  obtain v' s' where b: "run_batch ops (tool_calls d)
      (v\<lparr>decision_count := decision_count v + 1, offline := False, stuck := False\<rparr>)
      (upd (publish_status ''executing'' (thought d)) s) = (v', s')" by fastforce
  with False assms show ?thesis by (intro batch [OF False b]) (simp add: on_decision_def Let_def)
qed

text \<open>
  At the head of the loop nothing has ended the mission and the bridge is not flagged offline; when
  it has broken off with the bridge flagged offline, that is the last status published and no other
  end is noted.
\<close>

definition mission_ok :: "bool \<Rightarrow> mvars \<Rightarrow> 'w sys \<Rightarrow> bool" where
  "mission_ok live v s \<longleftrightarrow>
     (live \<longrightarrow> running v \<and> \<not> bridge_offline_flag (orch_of s))
     \<and> (bridge_offline_flag (orch_of s) \<longrightarrow> terminal_call v = None \<and> \<not> preempted v
          \<and> os_state (last (status_out (orch_of s))) = ''bridge_offline'')"

lemma decision_ok:
  assumes "running v" and "\<not> bridge_offline_flag (orch_of s)"
  shows "on_decision ops d v s = Again v' s' \<Longrightarrow> mission_ok True v' s'"
    and "on_decision ops d v s = Break v' s' \<Longrightarrow> mission_ok False v' s'"
proof -
  let ?v = "v\<lparr>decision_count := decision_count v + 1, offline := False, stuck := False\<rparr>"
  have r: "running ?v" using assms(1) by (simp add: running_def)
  {
    assume a: "on_decision ops d v s = Again v' s'"
    then show "mission_ok True v' s'"
    proof (cases rule: on_decision_cases)
      case (batch v1 s1)
      then have "v1 = v'" "s1 = s'" "running v'"
        using batch_vlm_error [OF batch(2)] assms(1) by (auto simp: running_def split: if_splits)
      with batch_offline [OF batch(2) r] assms(2) show ?thesis
        by (auto simp: mission_ok_def running_def)
    qed simp
  next
    assume "on_decision ops d v s = Break v' s'"
    then show "mission_ok False v' s'"
    proof (cases rule: on_decision_cases)
      case none
      with assms show ?thesis by (simp add: mission_ok_def split: if_splits)
    next
      case (batch v1 s1)
      then have "v1 = v'" "s1 = s'" by (auto split: if_splits)
      with batch_offline [OF batch(2) r] assms(2) show ?thesis by (auto simp: mission_ok_def)
    qed
  }
qed

lemma mission_reach_ok:
  assumes "mission_reach ops cmd n v0 s0 live v s" and "running v0" and "\<not> bridge_offline_flag (orch_of s0)"
  shows "mission_ok live v s"
  using assms(1)
proof induction
  case start
  with assms show ?case by (simp add: mission_ok_def)
next
  case (again v s v' s')
  show ?case
    using again.hyps(4)
  proof (cases rule: mission_iter_cases)
    case (asked ctx p ans w s4)
    have "running v" "\<not> bridge_offline_flag (orch_of (yield ops s4))"
      using again.IH flg.await [OF asked(5)] by (auto simp: mission_ok_def flag_kept_def thinking_def)
    moreover obtain d where "on_decision ops d v (yield ops s4) = Again v' s'"
      using asked(6) by (auto split: if_splits sum.splits)
    ultimately show ?thesis by (rule decision_ok(1))
  qed simp_all
next
  case (broken v s v' s')
  have v: "running v" "\<not> bridge_offline_flag (orch_of s)" using broken.IH by (auto simp: mission_ok_def)
  show ?case
    using broken.hyps(4)
  proof (cases rule: mission_iter_cases)
    case head
    with v show ?thesis by (simp add: mission_ok_def)
  next
    case (asked ctx p ans w s4)
    have "\<not> bridge_offline_flag (orch_of (yield ops s4))"
      using v flg.await [OF asked(5)] by (auto simp: flag_kept_def thinking_def)
    note on = this
    consider "s' = yield ops s4" | d where "on_decision ops d v (yield ops s4) = Break v' s'"
      using asked(6) by (auto split: if_splits sum.splits)
    then show ?thesis
    proof cases
      case 1
      with on show ?thesis by (simp add: mission_ok_def)
    next
      case 2
      then show ?thesis by (rule decision_ok(2) [OF v(1) on])
    qed
  qed simp_all
qed

text \<open>
  Once a dispatch has found the bridge offline the VLM is not asked again for this command: at
  the head of the mission loop the bridge is not flagged offline, and no batch so far has been ended
  by a terminal tool, a repeated failure, a lost bridge or a preemption.
\<close>

theorem offline_ends_mission:
  assumes "mission_reach ops cmd n (new_vars cmd (start_command cmd ob)) s0 True v s"
    and "orch_of s0 = start_command cmd ob"
  shows "\<not> bridge_offline_flag (orch_of s) \<and> running v"
proof -
  have "running (new_vars cmd (start_command cmd ob))" by (simp add: running_def new_vars_def)
  moreover have "\<not> bridge_offline_flag (orch_of s0)" by (simp add: assms(2))
  ultimately show ?thesis using mission_reach_ok [OF assms(1)] by (simp add: mission_ok_def)
qed

text \<open>
  A command that leaves the bridge flagged offline (and was not stopped) leaves the status
  \<open>bridge_offline\<close> as the last one published: it is not overwritten by \<open>idle\<close>.
\<close>

theorem offline_is_last_status:
  assumes "on_command ops cmd s0 = Some (Inr t)" and "\<not> is_abort_command (orch_of s0) cmd"
    and "bridge_offline_flag (orch_of t)" and "\<not> stop_event (orch_of t)"
  shows "os_state (last (status_out (orch_of t))) = ''bridge_offline''"
  using assms(1,2)
proof (cases rule: on_command_mission)
  case (1 n v s)
  let ?s = "upd (start_command cmd) (yield ops s0)"
  obtain live where r: "mission_reach ops cmd n (new_vars cmd (orch_of ?s)) ?s live v s"
    using mission_loop_reach [OF mission_reach.start 1(1)] by blast
  have "running (new_vars cmd (orch_of ?s))" by (simp add: running_def new_vars_def)
  from mission_reach_ok [OF r this] have ok: "mission_ok live v s" by simp
  have t: "bridge_offline_flag (orch_of t) = bridge_offline_flag (orch_of s)"
    "stop_event (orch_of t) = stop_event (orch_of (yield ops s))"
    unfolding 1(3) by (auto simp: finish_mission_def add_history_def Let_def)
  with ok assms(3) have v: "terminal_call v = None" "\<not> preempted v"
    "os_state (last (status_out (orch_of s))) = ''bridge_offline''" by (auto simp: mission_ok_def)
  have "end_reason (orch_of (yield ops s)) n v = ''bridge_offline''"
    using v t assms(3,4) by (simp add: end_reason_def)
  then have "status_out (orch_of t) = status_out (orch_of s)"
    unfolding 1(3) by (simp add: finish_mission_def add_history_def Let_def)
  with v show ?thesis by simp
qed

section \<open>A mission that is stuck\<close>

text \<open>A first call of a decision that comes back as a failure of the tool, the bridge being there.\<close>

definition first_call_fails :: "'w world_ops \<Rightarrow> vlm_decision \<Rightarrow> tool_call \<Rightarrow> string \<Rightarrow> 'w sys \<Rightarrow> bool" where
  "first_call_fails ops d tc err s =
     (let s1 = yield ops (upd (publish_status ''executing'' (thought d)) s)
      in tool_calls d \<noteq> [] \<and> hd (tool_calls d) = tc \<and> \<not> flagged s1
         \<and> (let (res, t) = dispatch_tool_call ops tc s1
            in \<not> tr_ok res \<and> tr_error res = PStr err \<and> \<not> is_offline_error (PStr err)))"

lemma first_call_fails_batch:
  assumes "first_call_fails ops d tc err s" and "running v"
  obtains now t where "on_decision ops d v s =
      (let m = mission_record now (tc_name tc) (tc_args tc) \<lparr>tr_request_id = PNone, tr_ok = False,
                 tr_error = PStr err, tr_data = PNone\<rparr> True (mv_mission v);
           st = stuck_failure_threshold \<le> failure_matches (tc_name tc) (PStr err) m;
           v' = v\<lparr>decision_count := decision_count v + 1, stuck := st,
                  mv_mission := record_skipped now ''skipped:prior_failure'' (tl (tool_calls d)) m\<rparr>
       in if st then Break v' t else Again v' t)"
proof -
  let ?s1 = "yield ops (upd (publish_status ''executing'' (thought d)) s)"
  obtain res t where d: "dispatch_tool_call ops tc ?s1 = (res, t)" by fastforce
  from assms(1) d obtain rest where a: "tool_calls d = tc # rest" "\<not> flagged ?s1" "\<not> tr_ok res"
    "tr_error res = PStr err" "\<not> is_offline_error (PStr err)"
    by (cases "tool_calls d") (auto simp: first_call_fails_def Let_def)
  have rec: "mission_record now nm ar res True m = mission_record now nm ar
      \<lparr>tr_request_id = PNone, tr_ok = False, tr_error = PStr err, tr_data = PNone\<rparr> True m" for now nm ar m
    using a by (simp add: mission_record_def)
  show thesis
    by (rule that [of "clock_ns (orch_of t)" t])
      (use a d assms(2) in \<open>simp add: on_decision_def Let_def flagged_def rec skip_rest_def running_def\<close>)
qed

text \<open>
  When the first call of a decision fails with an error it has failed with before, within the
  last three entries of the history, the mission is ended as stuck.
\<close>

theorem repeated_failure_ends_mission:
  assumes "first_call_fails ops d tc err s" and "running v"
    and "e \<in> set (last_n 3 (step_history (mv_mission v)))"
    and "st_tool e = tc_name tc" and "st_error e = PStr err"
  shows "\<exists>v' s'. on_decision ops d v s = Break v' s' \<and> stuck v'"
proof -
  let ?r = "\<lparr>tr_request_id = PNone, tr_ok = False, tr_error = PStr err, tr_data = PNone\<rparr>"
  let ?P = "\<lambda>st. st_tool st = tc_name tc \<and> py_eq (st_error st) (PStr err)"
  have "failure_matches (tc_name tc) (PStr err) (mission_record now (tc_name tc) (tc_args tc) ?r True (mv_mission v))
      = Suc (length (filter ?P (last_n 3 (step_history (mv_mission v)))))" for now
    by (simp add: failure_matches_def step_history_record stuck_failure_window_def last_n_snoc)
  moreover have "filter ?P (last_n 3 (step_history (mv_mission v))) \<noteq> []"
    using assms(3,4,5) by (auto simp: filter_empty_conv)
  ultimately have st: "stuck_failure_threshold \<le> failure_matches (tc_name tc) (PStr err)
      (mission_record now (tc_name tc) (tc_args tc) ?r True (mv_mission v))" for now
    by (cases "filter ?P (last_n 3 (step_history (mv_mission v)))") (auto simp: stuck_failure_threshold_def)
  from assms(1,2) show ?thesis
    by (rule first_call_fails_batch) (simp add: Let_def st)
qed

text \<open>
  C20: the window of the stuck test counts the calls skipped after a failure. When every decision is
  a batch of four calls or more whose first call fails, the entries of the window before it are
  skipped calls of the previous batch, so the same failure is never found repeated: the mission goes
  on, in the same situation, and is ended by its budget alone.
\<close>

theorem long_batches_never_stuck:
  assumes "first_call_fails ops d tc err s" and "running v"
    and "3 \<le> length (tl (tool_calls d))" and "err \<noteq> ''skipped:prior_failure''"
    and "\<forall>e\<in>set (last_n 3 (step_history (mv_mission v))). st_error e = PStr ''skipped:prior_failure''"
  shows "\<exists>v' s'. on_decision ops d v s = Again v' s' \<and> running v'
    \<and> (\<forall>e\<in>set (last_n 3 (step_history (mv_mission v'))). st_error e = PStr ''skipped:prior_failure'')"
proof -
  let ?r = "\<lparr>tr_request_id = PNone, tr_ok = False, tr_error = PStr err, tr_data = PNone\<rparr>"
  let ?P = "\<lambda>st. st_tool st = tc_name tc \<and> py_eq (st_error st) (PStr err)"
  let ?h = "step_history (mv_mission v)"
  have none: "filter ?P (last_n 3 ?h) = []" using assms(4,5) by (auto simp: filter_empty_conv)
  have st: "\<not> stuck_failure_threshold \<le> failure_matches (tc_name tc) (PStr err)
      (mission_record now (tc_name tc) (tc_args tc) ?r True (mv_mission v))" for now
    using none by (simp add: failure_matches_def step_history_record stuck_failure_window_def
        last_n_snoc stuck_failure_threshold_def)
  have tail: "set (last_n 3 (xs @ map f (tl (tool_calls d)))) \<subseteq> f ` set (tl (tool_calls d))"
    for xs :: "step list" and f
    using assms(3) set_last_n [of 3 "map f (tl (tool_calls d))"] by (simp add: last_n_append)
  show ?thesis
    using assms(1,2)
  proof (rule first_call_fails_batch)
    fix now t
    let ?m = "mission_record now (tc_name tc) (tc_args tc) ?r True (mv_mission v)"
    let ?v = "v\<lparr>decision_count := decision_count v + 1, stuck := False,
      mv_mission := record_skipped now ''skipped:prior_failure'' (tl (tool_calls d)) ?m\<rparr>"
    assume "on_decision ops d v s =
      (let m = ?m; st = stuck_failure_threshold \<le> failure_matches (tc_name tc) (PStr err) m;
           v' = v\<lparr>decision_count := decision_count v + 1, stuck := st,
                  mv_mission := record_skipped now ''skipped:prior_failure'' (tl (tool_calls d)) m\<rparr>
       in if st then Break v' t else Again v' t)"
    then have "on_decision ops d v s = Again ?v t" by (simp add: Let_def st)
    moreover have "running ?v" using assms(2) by (simp add: running_def)
    moreover have "\<forall>e\<in>set (last_n 3 (step_history (mv_mission ?v))). st_error e = PStr ''skipped:prior_failure''"
      using tail [of "step_history ?m"] by (fastforce simp: step_history_skipped)
    ultimately show ?thesis by blast
  qed
qed

end
