(* ===== verification/Orch_Failures.thy ===== *)
theory Orch_Failures
  imports Orch_Batch
begin

text \<open>
  How the main thread fares when its inputs are not what they should be (a reply of the bridge that
  is not JSON, a scene that is no object), what reaches the VLM of the frames and the telemetry, and
  the bounds over a whole session.
\<close>

section \<open>Garbled replies\<close>

lemma dispatch_garbled:
  assumes "\<not> bridge_offline_flag (orch_of s)"
    and "\<And>w. fst (w_connect ops w) = None" and "\<And>r w. \<exists>e. fst (w_rpc ops r w) = Garbled e"
  obtains e t where "dispatch_tool_call ops tc s = (fail_result tc (''wire_error: '' @ e), t)"
    "\<not> bridge_offline_flag (orch_of t)"
proof -
  obtain res t where d: "dispatch_tool_call ops tc s = (res, t)" by fastforce
  from d show thesis
  proof (cases rule: dispatch_cases)
    case refused
    with assms(1) show ?thesis by simp
  next
    case (unconnected e s1)
    with assms(2) [of "world s"] show ?thesis
      by (auto simp: ensure_req_socket_def Let_def split: if_splits prod.splits option.splits)
  next
    case (sent s1 out w ob)
    obtain b where s1: "orch_of s1 = (orch_of s)\<lparr>req_open := b\<rparr>"
      using ensure_req_socket_fields(1) [OF sent(2)] by blast
    obtain e where "out = Garbled e" using assms(3) [of "wire_request (orch_of s) tc" "world s1"] sent(3) by auto
    with sent d s1 show ?thesis
      by (intro that [of e t]) (auto simp: after_rpc_def reset_req_socket_def)
  qed
qed

text \<open>
  A bridge whose replies cannot be parsed ends the mission at its first call, and it is not
  flagged offline for it; so the reason given for the end is \<open>no_tool_calls\<close>, though a tool was
  called and its outcome is not known.
\<close>

theorem garbled_reply_reported_as_no_tool_calls:
  assumes "\<And>w. fst (w_connect ops w) = None" and "\<And>r w. \<exists>e. fst (w_rpc ops r w) = Garbled e"
    and "running v" and "\<not> bridge_offline_flag (orch_of s)"
    and "tool_calls d \<noteq> []" and "\<not> flagged (yield ops (upd (publish_status ''executing'' (thought d)) s))"
    and "decision_count v + 1 < n"
  shows "\<exists>v' s'. on_decision ops d v s = Break v' s'
    \<and> current_step (mv_mission v') = current_step (mv_mission v) + 1
    \<and> (\<not> stop_event (orch_of s') \<longrightarrow> end_reason (orch_of s') n v' = ''no_tool_calls'')"
proof -
  let ?s1 = "yield ops (upd (publish_status ''executing'' (thought d)) s)"
  from assms(5) obtain tc rest where tcs: "tool_calls d = tc # rest" by (cases "tool_calls d") auto
  have "\<not> bridge_offline_flag (orch_of ?s1)" using assms(4) by simp
  then obtain e t where dt: "dispatch_tool_call ops tc ?s1 = (fail_result tc (''wire_error: '' @ e), t)"
    "\<not> bridge_offline_flag (orch_of t)"
    using assms(1,2) by (rule dispatch_garbled)
  have off: "is_offline_error (tr_error (fail_result tc (''wire_error: '' @ e)))"
    by (simp add: startswith_def)
  show ?thesis
    using assms(3,6,7) tcs dt(1) off dt(2)
    by (simp add: on_decision_def flagged_def Let_def running_def end_reason_def)
qed

section \<open>A scene that is no object\<close>

lemma run_raises:
  assumes "\<not> stop_event (orch_of s)" and "run_turn ops s = Some (Inl e)"
  shows "run ops s = Some (Inl e)"
  by (subst run.simps) (simp add: assms)

text \<open>
  C21: a scene message that is JSON but no object (a number, say) is stored as the latest scene, and
  the next command that is not an abort then raises while building the VLM's context: the exception
  leaves \<open>_on_command\<close> and ends the decision loop.
\<close>

theorem malformed_scene_ends_decision_loop:
  assumes "schedule s = [[EvScene (Inr hdr)]]" and "py_dict hdr = Inl e"
    and "\<not> stop_event (orch_of s)" and "q_items (command_q (orch_of s)) = [cmd]"
    and "\<not> is_abort_command (orch_of s) cmd"
    and "py_int (cfg_get (o_cfg (orch_of s)) ''orchestrator.mission_max_steps'' (PInt 10)) = Inr n" and "0 < n"
  shows "run ops s = Some (Inl e)"
proof -
  let ?q = "(command_q (orch_of s))\<lparr>q_items := []\<rparr>"
  let ?s1 = "\<lparr>orch_of = (orch_of s)\<lparr>latest_scene := hdr, command_q := ?q\<rparr>, schedule = [], world = world s\<rparr>"
  let ?s2 = "upd (start_command cmd) ?s1"
  have y: "yield ops t = t" if "schedule t = []" for t using that by (simp add: yield_def)
  have "yield ops s = \<lparr>orch_of = (orch_of s)\<lparr>latest_scene := hdr\<rparr>, schedule = [], world = world s\<rparr>"
    using assms(1) by (cases s) (simp add: yield_def thread_steps_def on_scene_frame_def)
  moreover have "get_nowait (command_q (orch_of s)) = Some (cmd, ?q)"
    using assms(4) by (simp add: get_nowait_def)
  ultimately have turn: "run_turn ops s = on_command ops cmd ?s1"
    by (simp add: run_turn_def Let_def upd_def)
  have "mission_iter ops cmd n (new_vars cmd (orch_of ?s2)) ?s2 = Some (Raised e)"
    using assms(2) by (simp add: mission_iter_def y Let_def q_empty_def build_context_def start_command_def)
  then have "mission_loop ops cmd n (new_vars cmd (orch_of ?s2)) ?s2 = Some (Inl e)"
    using assms(3,7) by (simp add: mission_loop.simps [of ops cmd n] new_vars_def)
  then have "on_command ops cmd ?s1 = Some (Inl e)"
    using assms(5,6) by (simp add: on_command_def Let_def y is_abort_command_def)
  with turn show ?thesis by (intro run_raises) (use assms(3) in simp_all)
qed

section \<open>Frames and telemetry\<close>

text \<open>The telemetry samples in the order they came in, none from the future.\<close>

definition telem_ordered :: "orch \<Rightarrow> bool" where
  "telem_ordered ob \<longleftrightarrow> sorted (map fst (telem_history ob)) \<and> (\<forall>e\<in>set (telem_history ob). fst e \<le> clock_mono ob)"

lemma dropWhile_sorted_filter:
  "sorted (map fst h) \<Longrightarrow> dropWhile (\<lambda>e. fst e < (c::real)) h = filter (\<lambda>e. c \<le> fst e) h"
proof (induction h)
  case (Cons e h)
  then show ?case by (auto simp: not_less intro!: filter_True [symmetric])
qed simp

text \<open>
  The telemetry history is kept in order, whatever comes in, and after each telemetry sample
  holds exactly the samples of the configured window: those it held and the new one, less all that
  are older than \<open>window\<close> seconds.
\<close>

theorem telemetry_window:
  assumes "telem_ordered ob" and "telem_history_s ob = Fin window" and "0 \<le> window"
  shows "telem_ordered (thread_step frepr ob e)
    \<and> telem_history_s (thread_step frepr ob e) = Fin window
    \<and> (\<forall>hdr. e = EvTelem (Inr hdr) \<longrightarrow>
        telem_history (thread_step frepr ob e) =
          filter (\<lambda>x. clock_mono ob - window \<le> fst x) (telem_history ob @ [(clock_mono ob, hdr)])
        \<and> latest_telem (thread_step frepr ob e) = hdr)"
proof (cases e)
  case (EvTelem f)
  show ?thesis
  proof (cases f)
    case (Inr hdr)
    let ?h = "telem_history ob @ [(clock_mono ob, hdr)]"
    have s: "sorted (map fst ?h)" using assms(1) by (auto simp: telem_ordered_def sorted_append)
    have "prune (flt_sub (Fin (clock_mono ob)) (Fin window)) ?h = filter (\<lambda>x. clock_mono ob - window \<le> fst x) ?h"
      unfolding prune_def using dropWhile_sorted_filter [OF s, of "clock_mono ob - window"] by simp
    then have h: "telem_history (thread_step frepr ob e) = filter (\<lambda>x. clock_mono ob - window \<le> fst x) ?h"
      using assms(2) EvTelem Inr by (simp add: on_telem_frame_def Let_def)
    have "telem_ordered (thread_step frepr ob e)"
      unfolding telem_ordered_def h
      using sorted_filter [OF s, of "\<lambda>x. clock_mono ob - window \<le> fst x"] assms(1) EvTelem Inr
      by (auto simp: telem_ordered_def on_telem_frame_def Let_def)
    then show ?thesis using h EvTelem Inr assms(2) by (simp add: on_telem_frame_def Let_def)
  qed (use assms EvTelem in \<open>simp add: on_telem_frame_def\<close>)
next
  case (EvCommand f)
  then show ?thesis
    using assms by (cases rule: on_command_frame_cases [of frepr f ob]) (simp_all add: telem_ordered_def)
next
  case (EvScene f)
  then show ?thesis using assms by (cases f) (simp_all add: telem_ordered_def on_scene_frame_def)
qed (use assms in \<open>auto simp: telem_ordered_def on_frameset_def\<close>)

text \<open>
  A context that reaches the VLM holds an image only if a frame has come in that is no older
  than \<open>frame_max_age_s\<close>, and it is that frame's; it holds the whole telemetry history, oldest
  first, and the configured safety limits.
\<close>

theorem context_is_fresh:
  assumes "build_context cmd m ob = Inr ctx" and "frame_max_age_s ob = Fin age"
  shows "(\<forall>img. vx_rgb ctx = Some img \<longleftrightarrow>
      (\<exists>fs. latest_fs ob = Some fs \<and> img = fs_rgb fs \<and> clock_mono ob - latest_fs_ts ob \<le> age))
    \<and> vx_telemetry_history ctx = map snd (telem_history ob)
    \<and> vx_safety ctx = safety_snapshot ob \<and> vx_user_command ctx = vc_text cmd"
  using assms
  by (auto simp: build_context_def rbind_Inr_iff context_rgb_def frame_age_def split: option.splits if_splits)

section \<open>A session\<close>

text \<open>The states of the main thread between two turns of its loop, from a freshly built orchestrator.\<close>

inductive session :: "'w world_ops \<Rightarrow> 'w sys \<Rightarrow> 'w sys \<Rightarrow> bool" for ops s0 where
  built: "session ops s0 s0"
| turn: "session ops s0 s \<Longrightarrow> \<not> stop_event (orch_of s) \<Longrightarrow> run_turn ops s = Some (Inr t) \<Longrightarrow> session ops s0 t"

lemma command_bounds:
  "on_command ops cmd s = Some (Inr t) \<Longrightarrow> bounds_kept s t \<and> same_config s t"
proof -
  assume c: "on_command ops cmd s = Some (Inr t)"
  let ?s = "upd (start_command cmd) (yield ops s)"
  have "bounds_kept s ?s" "same_config s ?s" by (simp_all add: bounds_kept_def same_config_def yield_queue)
  then show ?thesis
    using bnd.command [OF c] conf.command [OF c] bnd.trans conf.trans by blast
qed

lemma turn_bounds:
  assumes "run_turn ops s = Some (Inr t)"
  shows "bounds_kept s t \<and> same_config s t"
proof (cases "get_nowait (command_q (orch_of (yield ops s)))")
  case None
  with assms have "t = yield ops s" by (simp add: run_turn_def Let_def)
  then show ?thesis using bnd.yield conf.yield by blast
next
  case (Some r)
  obtain cmd q where r: "r = (cmd, q)" by (cases r)
  let ?s = "upd (\<lambda>ob. ob\<lparr>command_q := q\<rparr>) (yield ops s)"
  have "on_command ops cmd ?s = Some (Inr t)" using assms Some r by (simp add: run_turn_def Let_def)
  from command_bounds [OF this] have t: "bounds_kept ?s t" "same_config ?s t" by auto
  have "pq.bounded (command_q (orch_of s)) \<longrightarrow> pq.bounded q" "q_max q = q_max (command_q (orch_of s))"
    using pq.bounded_get [OF Some [unfolded r]] pq.get_Some [OF Some [unfolded r]] yield_queue(1) [of ops s] yield_queue(2) [of s ops] by auto
  then have "bounds_kept s ?s" "same_config s ?s" by (auto simp: bounds_kept_def same_config_def)
  with t show ?thesis using bnd.trans conf.trans by blast
qed

lemma abort_keyword_strips: "abort_keyword cfg = Inr kw \<Longrightarrow> \<exists>x. kw = strip x \<and> strip x \<noteq> []"
  by (cases "cfg_get cfg ''stt.abort_keyword'' (PStr ''abort'')")
     (auto simp: abort_keyword_def split: if_splits)

text \<open>
  C22: over a whole session, from the constructor on and through any number of commands, the command
  queue never holds more than 16 commands, the history never more than 20 lines, and the abort
  keyword stays the configured one, with no blanks around it and not empty.
\<close>

theorem session_bounds:
  assumes "orch_init gemini now mono_now cfg = Inr (ob, socks)"
    and "session ops \<lparr>orch_of = ob, schedule = sched, world = w\<rparr> s"
  shows "length (q_items (command_q (orch_of s))) \<le> 16 \<and> length (history (orch_of s)) \<le> 20
    \<and> o_cfg (orch_of s) = cfg \<and> abort_kw (orch_of s) \<noteq> [] \<and> strip (abort_kw (orch_of s)) = abort_kw (orch_of s)
    \<and> abort_keyword cfg = Inr (abort_kw (orch_of s))"
proof -
  have init: "command_q ob = new_queue 16" "history ob = []" "o_cfg ob = cfg" "abort_keyword cfg = Inr (abort_kw ob)"
    using assms(1) by (auto simp: orch_init_def rbind_Inr_iff)
  obtain x where "abort_kw ob = strip x" "strip x \<noteq> []"
    using abort_keyword_strips [OF init(4)] by blast
  then have kw: "abort_kw ob \<noteq> []" "strip (abort_kw ob) = abort_kw ob" by simp_all
  let ?s0 = "\<lparr>orch_of = ob, schedule = sched, world = w\<rparr>"
  have "bounds_kept ?s0 s \<and> same_config ?s0 s"
    using assms(2)
  proof induction
    case built
    show ?case using bnd.refl conf.refl by blast
  next
    case (turn s t)
    then show ?case using turn_bounds bnd.trans conf.trans by blast
  qed
  with init kw show ?thesis
    by (auto simp: bounds_kept_def same_config_def pq.bounded_def new_queue_def)
qed

end
