(* ===== verification/Orch_Examples.thy ===== *)
theory Orch_Examples
  imports Orch_Safety
begin

text \<open>
  A concrete world for the examples of the orchestrator: the VLM takes its answers from a list (and
  then has none), the request socket connects, and the bridge takes its replies from a second list
  (and then says ok). The state is the pair of the two lists.
\<close>

type_synonym script = "(nat option \<times> (string + vlm_decision)) list \<times> rpc_outcome list"

definition scripted :: "script world_ops" where
  "scripted =
     \<lparr>w_vlm = (\<lambda>_ (as, rs). case as of [] \<Rightarrow> ((Some 0, Inr \<lparr>thought = ''done'', tool_calls = []\<rparr>), ([], rs))
                 | a # as' \<Rightarrow> (a, (as', rs))),
      w_connect = (\<lambda>w. (None, w)),
      w_rpc = (\<lambda>_ (as, rs). case rs of [] \<Rightarrow> (Reply (PDict [(''ok'', PBool True)]), (as, []))
                 | r # rs' \<Rightarrow> (r, (as, rs'))),
      w_uuid_hex = (\<lambda>w. (''0123456789abcdef'', w)),
      w_frepr = (\<lambda>_. ''1.0'')\<rparr>"

definition demo_orch :: orch where
  "demo_orch =
     \<lparr>o_cfg = [], stop_event = False, preempt_event = False, command_q = new_queue 16,
      history = [], latest_scene = PDict [], latest_telem = PDict [],
      telem_history_s = Fin 5, telem_history = [], latest_fs = None, latest_fs_ts = 0,
      frame_max_age_s = Fin 2, safety_snapshot = [], bridge_offline_flag = False,
      req_open = False, abort_kw = ''abort'', current_arm_authorized = False,
      status_out = [], req_sent = [], clock_ns = 0, clock_mono = 0\<rparr>"

definition demo :: "thread_event list list \<Rightarrow> script \<Rightarrow> script sys" where
  "demo evs w = \<lparr>orch_of = demo_orch, schedule = evs, world = w\<rparr>"

definition say :: "string \<Rightarrow> voice_command" where
  "say t = \<lparr>vc_ts_ns = 1, vc_text = t, vc_is_abort = False\<rparr>"

definition say_abort :: voice_command where
  "say_abort = \<lparr>vc_ts_ns = 2, vc_text = ''abort'', vc_is_abort = True\<rparr>"

definition call :: "string \<Rightarrow> tool_call" where
  "call n = \<lparr>tc_request_id = ''id'', tc_name = n, tc_args = []\<rparr>"

definition batch :: "string list \<Rightarrow> nat option \<times> (string + vlm_decision)" where
  "batch ns = (Some 0, Inr \<lparr>thought = ''go'', tool_calls = map call ns\<rparr>)"

text \<open>The system after a command that is known to return.\<close>

definition after_command :: "voice_command \<Rightarrow> script sys \<Rightarrow> script sys" where
  "after_command cmd s = (case on_command scripted cmd s of Some (Inr t) \<Rightarrow> t | _ \<Rightarrow> s)"

lemma after_command:
  "(case on_command scripted cmd s of Some (Inr t) \<Rightarrow> True | _ \<Rightarrow> False)
     \<Longrightarrow> on_command scripted cmd s = Some (Inr (after_command cmd s))"
  by (auto simp: after_command_def split: option.splits sum.splits)

end
