(* ===== verification/Orch_Witnesses.thy ===== *)
theory Orch_Witnesses
  imports Orch_Failures Orch_Examples
begin

text \<open>
  The properties of the orchestrator at concrete inputs: missions and aborts in the scripted world,
  where each hypothesis holds, evaluated on the model.
\<close>

section \<open>Inputs\<close>

text \<open>\<open>arm it\<close>, answered by an \<open>arm\<close> and a \<open>takeoff\<close> call: the state after the first decision.\<close>

abbreviation arm_start :: "script sys" where
  "arm_start \<equiv> demo [] ([batch [''arm'', ''takeoff'']], [])"

abbreviation arm_mission :: "script sys" where
  "arm_mission \<equiv> upd (start_command (say ''arm it'')) (yield scripted arm_start)"

definition first_iteration :: "voice_command \<Rightarrow> int \<Rightarrow> script sys \<Rightarrow> (mvars \<times> script sys) option" where
  "first_iteration cmd n s = (case mission_iter scripted cmd n (new_vars cmd (orch_of s)) s of
     Some (Again v t) \<Rightarrow> Some (v, t) | _ \<Rightarrow> None)"

lemma first_iteration_reach:
  assumes "first_iteration cmd n s = Some (v, t)" and "0 < n" and "\<not> stop_event (orch_of s)"
  shows "mission_reach scripted cmd n (new_vars cmd (orch_of s)) s True v t"
proof (rule mission_reach.again [OF mission_reach.start])
  show "mission_iter scripted cmd n (new_vars cmd (orch_of s)) s = Some (Again v t)"
    using assms(1) by (auto simp: first_iteration_def split: option.splits iteration.splits)
qed (use assms in \<open>simp_all add: new_vars_def\<close>)

lemma arm_first_iteration:
  "(case first_iteration (say ''arm it'') 10 arm_mission of
      Some (v, t) \<Rightarrow> map request_name (req_sent (orch_of t)) = [Some (PStr ''arm''), Some (PStr ''takeoff'')]
    | None \<Rightarrow> False)"
  by code_simp

lemma arm_mission_reach:
  obtains v t where
    "mission_reach scripted (say ''arm it'') 10 (new_vars (say ''arm it'') (orch_of arm_mission)) arm_mission True v t"
    "map request_name (req_sent (orch_of t)) = [Some (PStr ''arm''), Some (PStr ''takeoff'')]"
proof -
  obtain v t where *: "first_iteration (say ''arm it'') 10 arm_mission = Some (v, t)"
    "map request_name (req_sent (orch_of t)) = [Some (PStr ''arm''), Some (PStr ''takeoff'')]"
    using arm_first_iteration by (auto split: option.splits)
  have "\<not> stop_event (orch_of arm_mission)" by code_simp
  with * show thesis by (intro that [OF first_iteration_reach]) simp_all
qed

section \<open>Witnesses\<close>

theorem arm_carries_spoken_word_witness:
  "\<exists>v t new. mission_reach scripted (say ''arm it'') 10 (new_vars (say ''arm it'') (orch_of arm_mission))
       arm_mission True v t
     \<and> req_sent (orch_of t) = req_sent (orch_of arm_start) @ new
     \<and> map request_name new = [Some (PStr ''arm''), Some (PStr ''takeoff'')]
     \<and> arms_carry (re_word_search ''arm'' (vc_text (say ''arm it''))) new"
proof -
  obtain v t where r: "mission_reach scripted (say ''arm it'') 10
      (new_vars (say ''arm it'') (orch_of arm_mission)) arm_mission True v t"
    and n: "map request_name (req_sent (orch_of t)) = [Some (PStr ''arm''), Some (PStr ''takeoff'')]"
    by (rule arm_mission_reach)
  have "req_sent (orch_of arm_start) = []" by code_simp
  with arm_carries_spoken_word [OF refl r] r n show ?thesis by fastforce
qed

theorem command_arm_gate_witness:
  "\<exists>new. req_sent (orch_of (after_command (say ''arm it'') arm_start)) = req_sent (orch_of arm_start) @ new
    \<and> arms_carry (re_word_search ''arm'' (vc_text (say ''arm it''))) new"
  by (rule command_arm_gate [OF after_command]) code_simp

theorem abort_always_attempted_witness:
  "\<exists>t. on_command scripted (say ''please Abort now'') (demo [] ([], [])) = Some (Inr t)
    \<and> ((\<exists>r. req_sent (orch_of t) = req_sent (orch_of (demo [] ([], []))) @ [r]
          \<and> request_name r = Some (PStr ''abort''))
       \<or> (\<exists>w e. fst (w_connect scripted w) = Some e \<and> bridge_offline_flag (orch_of t)))
    \<and> (\<exists>l. last (history (orch_of t)) = ''user: '' @ vc_text (say ''please Abort now'') @ '' | end: aborted'' @ l)"
  by (rule abort_always_attempted) code_simp

text \<open>An abort that comes in while the VLM is being waited for.\<close>

abbreviation abort_frames :: "thread_event list list" where
  "abort_frames \<equiv> [[], [], [], [EvCommand (Inr (command_asdict say_abort))], []]"

abbreviation slow_land :: "script sys" where
  "slow_land \<equiv> demo abort_frames ([(Some 3, Inr \<lparr>thought = ''go'', tool_calls = [call ''land'']\<rparr>)], [])"

theorem abort_handled_next_witness:
  "\<exists>u. run_turn scripted (after_command (say ''land'') slow_land) = Some (Inr u)
    \<and> ((\<exists>r. req_sent (orch_of u) = req_sent (orch_of (after_command (say ''land'') slow_land)) @ [r]
          \<and> request_name r = Some (PStr ''abort''))
       \<or> (\<exists>w e. fst (w_connect scripted w) = Some e \<and> bridge_offline_flag (orch_of u)))"
proof (rule abort_handled_next [OF after_command, of _ _ abort_frames])
  show "case on_command scripted (say ''land'') slow_land of Some (Inr t) \<Rightarrow> True | _ \<Rightarrow> False"
    by code_simp
  have "schedule (after_command (say ''land'') slow_land) = []" by code_simp
  then show "schedule slow_land = abort_frames @ schedule (after_command (say ''land'') slow_land)"
    by (simp add: demo_def)
  show "\<exists>e\<in>set (concat abort_frames). abort_event e"
    by (auto simp: abort_event_def say_abort_def)
qed

definition hanging :: "script world_ops" where
  "hanging = scripted\<lparr>w_vlm := \<lambda>_ w. ((None, Inl ''never''), w)\<rparr>"

theorem wake_ends_hung_call_witness:
  "\<exists>e. mission_iter hanging (say ''land'') 10 (new_vars (say ''land'') demo_orch) (demo abort_frames ([], []))
         = Some (Raised e)
     \<or> (\<exists>v' s'. mission_iter hanging (say ''land'') 10 (new_vars (say ''land'') demo_orch)
          (demo abort_frames ([], [])) = Some (Break v' s') \<and> preempted v')"
  by (rule wake_ends_hung_call)
    (simp_all add: hanging_def demo_def wake_event_def abort_event_def say_abort_def, metis voice_command.select_convs(3))

definition prompt :: "script world_ops" where
  "prompt = scripted\<lparr>w_vlm := \<lambda>_ w. ((Some 2, Inr \<lparr>thought = ''go'', tool_calls = [call ''takeoff'']\<rparr>), w)\<rparr>"

theorem command_returns_witness:
  "\<exists>r. on_command prompt (say ''take off'') (demo [] ([], [])) = Some r"
  by (rule command_returns) (simp add: prompt_def)


text \<open>A batch whose second call is refused by the bridge.\<close>

abbreviation refused_batch :: "tool_call list" where
  "refused_batch \<equiv> map call [''takeoff'', ''goto_xyz'', ''land'']"

abbreviation refusing :: "script sys" where
  "refusing \<equiv> demo [] ([], [Reply (PDict [(''ok'', PBool True)]),
     Reply (PDict [(''ok'', PBool False), (''error'', PStr ''geofence'')])])"

abbreviation batch_vars :: mvars where "batch_vars \<equiv> new_vars (say ''go'') demo_orch"

definition batch_end :: "mvars \<times> script sys" where
  "batch_end = run_batch scripted refused_batch batch_vars refusing"

lemma batch_end: "run_batch scripted refused_batch batch_vars refusing = (fst batch_end, snd batch_end)"
  by (simp add: batch_end_def)

theorem batch_audit_trail_witness:
  "current_step (mv_mission (fst batch_end)) = 2
    \<and> (\<exists>k ran skipped. k \<le> length refused_batch
      \<and> step_history (mv_mission (fst batch_end)) = step_history (mv_mission batch_vars) @ ran @ skipped
      \<and> ran_entries (take k refused_batch) ran \<and> skipped_entries (drop k refused_batch) skipped
      \<and> current_step (mv_mission (fst batch_end)) = current_step (mv_mission batch_vars) + k
      \<and> list_all went_on (butlast ran))"
proof
  show "current_step (mv_mission (fst batch_end)) = 2" by code_simp
qed (rule batch_audit_trail [OF batch_end])


theorem offline_ends_mission_witness:
  "\<exists>v (t :: script sys). map request_name (req_sent (orch_of t)) = [Some (PStr ''arm''), Some (PStr ''takeoff'')]
     \<and> \<not> bridge_offline_flag (orch_of t) \<and> running v"
proof (rule arm_mission_reach)
  fix v t
  assume r: "mission_reach scripted (say ''arm it'') 10 (new_vars (say ''arm it'') (orch_of arm_mission)) arm_mission True v t"
    and n: "map request_name (req_sent (orch_of t)) = [Some (PStr ''arm''), Some (PStr ''takeoff'')]"
  have o: "orch_of arm_mission = start_command (say ''arm it'') (orch_of (yield scripted arm_start))" by simp
  from offline_ends_mission [OF r [unfolded o] o] n show ?thesis by (intro exI [of _ v] exI [of _ t]) simp
qed

abbreviation timing_out :: "script sys" where
  "timing_out \<equiv> demo [] ([batch [''takeoff'', ''land'']], [TimedOut])"

theorem offline_is_last_status_witness:
  "os_state (last (status_out (orch_of (after_command (say ''go'') timing_out)))) = ''bridge_offline''"
proof (rule offline_is_last_status [OF after_command])
  show "case on_command scripted (say ''go'') timing_out of Some (Inr t) \<Rightarrow> True | _ \<Rightarrow> False" by code_simp
  show "\<not> is_abort_command (orch_of timing_out) (say ''go'')" by code_simp
  show "bridge_offline_flag (orch_of (after_command (say ''go'') timing_out))" by code_simp
  show "\<not> stop_event (orch_of (after_command (say ''go'') timing_out))" by code_simp
qed

text \<open>A bridge that denies arming, a short batch and a long one.\<close>

definition denied :: "script sys" where
  "denied = demo [] ([], replicate 2 (Reply (PDict [(''ok'', PBool False), (''error'', PStr ''Arming denied'')])))"

definition denied_vars :: mvars where
  "denied_vars = batch_vars\<lparr>mv_mission := mission_record 0 ''arm'' []
     \<lparr>tr_request_id = PNone, tr_ok = False, tr_error = PStr ''Arming denied'', tr_data = PNone\<rparr> True
     (mv_mission batch_vars)\<rparr>"

definition decide :: "string list \<Rightarrow> vlm_decision" where
  "decide ns = \<lparr>thought = ''go'', tool_calls = map call ns\<rparr>"

theorem repeated_failure_ends_mission_witness:
  "\<exists>v' s'. on_decision scripted (decide [''arm'']) denied_vars denied = Break v' s' \<and> stuck v'"
proof (rule repeated_failure_ends_mission)
  show "first_call_fails scripted (decide [''arm'']) (call ''arm'') ''Arming denied'' denied" by code_simp
  show "running denied_vars" by code_simp
  show "hd (step_history (mv_mission denied_vars)) \<in> set (last_n 3 (step_history (mv_mission denied_vars)))"
    by (simp add: denied_vars_def new_vars_def new_mission_def mission_record_def)
  show "st_tool (hd (step_history (mv_mission denied_vars))) = tc_name (call ''arm'')"
    "st_error (hd (step_history (mv_mission denied_vars))) = PStr ''Arming denied''"
    by (simp_all add: denied_vars_def new_vars_def new_mission_def mission_record_def call_def)
qed

theorem long_batches_never_stuck_witness:
  "\<exists>v' s'. on_decision scripted (decide [''arm'', ''takeoff'', ''goto_xyz'', ''hold'']) batch_vars denied = Again v' s'
    \<and> running v'
    \<and> (\<forall>e\<in>set (last_n 3 (step_history (mv_mission v'))). st_error e = PStr ''skipped:prior_failure'')"
proof (rule long_batches_never_stuck)
  show "first_call_fails scripted (decide [''arm'', ''takeoff'', ''goto_xyz'', ''hold'']) (call ''arm'')
      ''Arming denied'' denied" by code_simp
  show "running batch_vars" by code_simp
qed (simp_all add: decide_def new_vars_def new_mission_def)

definition babbling :: "script world_ops" where
  "babbling = scripted\<lparr>w_rpc := \<lambda>_ w. (Garbled ''JSONDecodeError()'', w)\<rparr>"

theorem garbled_reply_reported_as_no_tool_calls_witness:
  "\<exists>v' s'. on_decision babbling (decide [''takeoff'']) batch_vars (demo [] ([], [])) = Break v' s'
    \<and> current_step (mv_mission v') = current_step (mv_mission batch_vars) + 1
    \<and> (\<not> stop_event (orch_of s') \<longrightarrow> end_reason (orch_of s') 10 v' = ''no_tool_calls'')"
proof (rule garbled_reply_reported_as_no_tool_calls)
  show "running batch_vars" by code_simp
  show "\<not> bridge_offline_flag (orch_of (demo [] ([], [])))" by code_simp
  show "\<not> flagged (yield babbling (upd (publish_status ''executing'' (thought (decide [''takeoff'']))) (demo [] ([], []))))"
    by code_simp
qed (simp_all add: babbling_def scripted_def decide_def new_vars_def)

definition one_command :: "script sys" where
  "one_command = (demo [[EvScene (Inr (PInt 5))]] ([], []))
     \<lparr>orch_of := demo_orch\<lparr>command_q := \<lparr>q_max = 16, q_items = [say ''take off'']\<rparr>\<rparr>\<rparr>"

theorem malformed_scene_ends_decision_loop_witness:
  "run scripted one_command = Some (Inl (TypeError ''object is not iterable''))"
proof (rule malformed_scene_ends_decision_loop)
  show "schedule one_command = [[EvScene (Inr (PInt 5))]]" by (simp add: one_command_def demo_def)
  show "\<not> is_abort_command (orch_of one_command) (say ''take off'')" by code_simp
  show "py_int (cfg_get (o_cfg (orch_of one_command)) ''orchestrator.mission_max_steps'' (PInt 10)) = Inr 10"
    by code_simp
qed (simp_all add: one_command_def demo_orch_def py_dict_def)

theorem telemetry_window_witness:
  "let ob = demo_orch\<lparr>clock_mono := 9, telem_history := [(3, PInt 1), (5, PInt 2)]\<rparr>; e = EvTelem (Inr (PInt 3))
   in map snd (telem_history (thread_step (\<lambda>_. []) ob e)) = [PInt 2, PInt 3] \<and>
      telem_ordered (thread_step (\<lambda>_. []) ob e)"
proof -
  let ?ob = "demo_orch\<lparr>clock_mono := 9, telem_history := [(3, PInt 1), (5, PInt 2)]\<rparr>"
  have "telem_ordered ?ob" "telem_history_s ?ob = Fin 5" by (simp_all add: telem_ordered_def demo_orch_def)
  from telemetry_window [OF this, of "\<lambda>_. []" "EvTelem (Inr (PInt 3))"] show ?thesis by (simp add: Let_def)
qed

theorem context_is_fresh_witness:
  "\<exists>ctx. build_context (say ''look'') None demo_orch = Inr ctx \<and> vx_rgb ctx = None
     \<and> vx_user_command ctx = ''look''"
proof -
  obtain ctx where c: "build_context (say ''look'') None demo_orch = Inr ctx"
    by (simp add: build_context_def demo_orch_def py_dict_def)
  from context_is_fresh [OF c, of 2] c show ?thesis by (auto simp: demo_orch_def say_def)
qed

text \<open>An orchestrator built from a configuration, and one turn of its loop.\<close>

definition demo_cfg :: pydict where
  "demo_cfg =
     [(''services'', PDict [(''orchestrator_command_pull'', PStr ''ipc:///tmp/lexaire10''),
         (''orchestrator_status_pub'', PStr ''ipc:///tmp/lexaire11''),
         (''perception_scene_pub'', PStr ''ipc:///tmp/lexaire12''),
         (''telemetry_pub'', PStr ''ipc:///tmp/lexaire13''),
         (''flight_bridge_rep'', PStr ''ipc:///tmp/lexaire14'')]),
      (''sensor'', PDict [(''channels'', PDict [(''rgb'', PStr ''ipc:///tmp/lexaire00''),
         (''depth'', PStr ''ipc:///tmp/lexaire01'')])]),
      (''stt'', PDict [(''abort_keyword'', PStr '' abort '')])]"

definition demo_init :: "(orch \<times> orch_socks) result" where
  "demo_init = orch_init (\<lambda>_. Inr ()) 0 0 demo_cfg"

definition built_sys :: "script sys" where
  "built_sys = \<lparr>orch_of = fst (projr demo_init),
     schedule = [[EvCommand (Inr (command_asdict (say ''take off'')))]], world = ([batch [''takeoff'']], [])\<rparr>"

definition after_turn :: "script sys" where
  "after_turn = (case run_turn scripted built_sys of Some (Inr t) \<Rightarrow> t | _ \<Rightarrow> built_sys)"

theorem session_bounds_witness:
  "length (history (orch_of after_turn)) = 1 \<and> abort_kw (orch_of after_turn) = ''abort''
    \<and> length (q_items (command_q (orch_of after_turn))) \<le> 16 \<and> length (history (orch_of after_turn)) \<le> 20"
proof -
  have i: "orch_init (\<lambda>_. Inr ()) 0 0 demo_cfg = Inr (fst (projr demo_init), snd (projr demo_init))"
  proof -
    have "isl demo_init = False" by code_simp
    then show ?thesis by (cases demo_init) (simp_all add: demo_init_def [symmetric])
  qed
  have t: "run_turn scripted built_sys = Some (Inr after_turn)"
  proof -
    have "case run_turn scripted built_sys of Some (Inr t) \<Rightarrow> True | _ \<Rightarrow> False" by code_simp
    then show ?thesis by (auto simp: after_turn_def split: option.splits sum.splits)
  qed
  have "\<not> stop_event (orch_of built_sys)" by code_simp
  then have "session scripted built_sys after_turn" by (rule session.turn [OF session.built _ t])
  from session_bounds [OF i this [unfolded built_sys_def]]
  have "length (q_items (command_q (orch_of after_turn))) \<le> 16 \<and> length (history (orch_of after_turn)) \<le> 20"
    by blast
  moreover have "length (history (orch_of after_turn)) = 1" "abort_kw (orch_of after_turn) = ''abort''"
    by code_simp+
  ultimately show ?thesis by blast
qed

end
