(* ===== verification/Lib_Props.thy ===== *)
theory Lib_Props
  imports Config Messages Transport Subscriber
begin

text \<open>
  The properties of the shared Python package \<open>lexaire\<close>: configuration search and the environment
  file, endpoints, the keyword test, the command message, the frame matcher. Each is followed by its
  witness where it has hypotheses.
\<close>

section \<open>Keywords\<close>



text \<open>
  An abort keyword that begins or ends with a character that is no word character (as in
  \<open>stop!\<close>) is accepted by the configuration, but is not found in a text that is that keyword.
\<close>

theorem punctuated_keyword_not_found:
  assumes "kw \<noteq> []" and "\<not> is_word (hd kw) \<or> \<not> is_word (last kw)"
  shows "\<not> re_word_search kw kw"
proof
  assume "re_word_search kw kw"
  then obtain p m q where *: "kw = p @ m @ q" "map lower_c m = map lower_c kw"
    "(p \<noteq> [] \<and> is_word (last p)) \<noteq> is_word (hd kw)" "is_word (last kw) \<noteq> (q \<noteq> [] \<and> is_word (hd q))"
    using re_word_search_iff [OF assms(1)] by blast
  then have "length m = length kw" by (metis length_map)
  with *(1) have "p = []" "q = []" by simp_all
  with * assms(2) show False by simp
qed

theorem punctuated_keyword_not_found_witness: "\<not> re_word_search ''stop!'' ''stop!''"
  by (rule punctuated_keyword_not_found) code_simp+

section \<open>Configuration\<close>

text \<open>
  Without an override the configuration is the one of the nearest directory: the working
  directory or the closest of its ancestors, at most five levels up, that has a
  \<open>common/config.yaml\<close>; with none of these the call raises.
\<close>

theorem config_found_nearest:
  assumes "override = None \<or> override = Some []"
  shows "find_config_path is_file to_path cwd override = Inr p \<longleftrightarrow>
    (\<exists>j<6. j \<le> length cwd \<and> p = ancestor j cwd @ [''common'', ''config.yaml''] \<and> is_file p
       \<and> (\<forall>i<j. \<not> is_file (ancestor i cwd @ [''common'', ''config.yaml''])))"
  using assms walk_up_Some_iff [of 6 is_file "[''common'', ''config.yaml'']" cwd p]
  by (auto simp: find_config_path_def split: option.splits)

theorem config_found_nearest_witness:
  "find_config_path (\<lambda>p. p = [''r'', ''common'', ''config.yaml'']) (\<lambda>_. []) [''r'', ''a'', ''b''] None
    = Inr [''r'', ''common'', ''config.yaml'']"
  by (subst config_found_nearest) (auto simp: ancestor_def dest: less_2_cases intro!: exI [of _ 2])

text \<open>
  The environment file never overwrites a variable that is set; of several assignments to one
  name in the file the first counts; and nothing else is set.
\<close>

theorem dotenv_no_overwrite:
  "load_dotenv is_file read_text start env k =
     (case env k of
        Some v \<Rightarrow> Some v
      | None \<Rightarrow> (case walk_up 6 is_file [''.env''] start of
          Some p \<Rightarrow> map_of (List.map_filter dotenv_line (splitlines (read_text p))) k
        | None \<Rightarrow> None))"
  by (simp add: load_dotenv_def dotenv_steps split: option.split)

text \<open>
  A lookup with a default and one without agree: where \<open>require\<close> finds a value \<open>get\<close> returns it,
  where it raises \<open>get\<close> returns the default, and a value of null counts as missing in both.
\<close>

theorem get_and_require_agree:
  "cfg_get cfg path dflt = (case cfg_require cfg path of Inr v \<Rightarrow> v | Inl _ \<Rightarrow> dflt)
    \<and> (lookup_path (PDict cfg) (split_on (CHR ''.'') path) = Some PNone
        \<longrightarrow> cfg_get cfg path dflt = dflt \<and> isl (cfg_require cfg path))"
  by (auto simp: cfg_get_def cfg_require_def split: option.splits)

theorem get_and_require_agree_witness:
  "cfg_get [(''a'', PDict [(''b'', PNone)])] ''a.b'' (PInt 7) = PInt 7
    \<and> isl (cfg_require [(''a'', PDict [(''b'', PNone)])] ''a.b'')"
  by (rule get_and_require_agree [THEN conjunct2, rule_format]) code_simp

section \<open>Endpoints\<close>

text \<open>
  The Python services and the C++ services bind to the same address: on an endpoint
  \<open>tcp://host:port\<close> of the configuration both rewrite the host to the wildcard and keep the port.
\<close>

theorem bind_endpoints_agree:
  assumes "plain_host h" and "p \<le> 65535"
  shows "bind_ep (''tcp://'' @ h @ '':'' @ nat_dec p)
      = Inr (bind_endpoint (''tcp://'' @ h @ '':'' @ nat_dec p))
    \<and> bind_endpoint (''tcp://'' @ h @ '':'' @ nat_dec p) = ''tcp://*:'' @ nat_dec p"
proof -
  have "startswith (''tcp://'' @ h @ '':'' @ nat_dec p) ''tcp://''" by (simp add: startswith_def)
  then show ?thesis
    using url_port_endpoint [OF assms] bind_endpoint_simple [OF assms(1), of p] by (simp add: bind_ep_def)
qed

theorem bind_endpoints_agree_witness:
  "bind_ep (''tcp://'' @ ''drone.local'' @ '':'' @ nat_dec 5555) = Inr (''tcp://*:'' @ nat_dec 5555)"
  using bind_endpoints_agree [of "''drone.local''" 5555] by (simp add: plain_host_def)

section \<open>The frame matcher\<close>

text \<open>
  C23: whatever messages come in on the two streams, well formed or not, and however matching and
  reading interleave with them, neither buffer of the subscriber ever holds more than
  \<open>buffer_size\<close> frames or two of one sequence number, and its queue never more than 16 framesets.
\<close>

theorem subscriber_stays_bounded:
  "sub_inv (foldl (sub_step libs) (new_subscriber n) evs)"
proof -
  have "sub_inv s \<Longrightarrow> sub_inv (foldl (sub_step libs) s evs)" for s
    by (induction evs arbitrary: s) (simp_all add: sub_step_inv)
  then show ?thesis using new_subscriber_inv by blast
qed

lemma set_map_filter: "y \<in> set (List.map_filter f ks) \<longleftrightarrow> (\<exists>k\<in>set ks. f k = Some y)"
  by (induction ks) (auto simp: map_filter_simps split: option.splits)

text \<open>
  C24: a pass of the matcher that does not raise emits, in the order of the sequence numbers and once
  each, exactly the framesets of those numbers both buffers hold whose headers are well formed, made
  of the colour and the depth frame of that number, and leaves no number in both buffers.
\<close>

theorem matcher_pairs_frames:
  assumes "sub_inv s" and "try_match s = (s', Inr fss)"
  shows "sorted (map fs_seq fss) \<and> distinct (map fs_seq fss)
    \<and> (\<forall>fs. fs \<in> set fss \<longleftrightarrow> (\<exists>x d. map_of (rgb_buf s) (fs_seq fs) = Some x
          \<and> map_of (depth_buf s) (fs_seq fs) = Some d \<and> make_frameset (fs_seq fs) x d = Inr fs))
    \<and> common_seqs s' = []"
proof -
  have m: "match_seqs (common_seqs s) [] s = (s', Inr fss)" using assms(2) by (simp add: try_match_def)
  have dist: "distinct (common_seqs s)" using assms(1) by (simp add: sub_inv_def distinct_common_seqs)
  have fss: "fss = List.map_filter (emits s) (common_seqs s)" using match_seqs_emits [OF dist m] by simp
  have "map fs_seq (List.map_filter (emits s) ks) = filter (\<lambda>k. emits s k \<noteq> None) ks" for ks
    by (induction ks) (auto simp: map_filter_simps dest: emits_Some split: option.splits)
  moreover have "sorted (common_seqs s)" by (simp add: common_seqs_def)
  ultimately have ord: "sorted (map fs_seq fss)" "distinct (map fs_seq fss)"
    using dist unfolding fss by (simp_all add: sorted_filter [of id, simplified])
  have mem: "fs \<in> set fss \<longleftrightarrow> emits s (fs_seq fs) = Some fs" for fs
  proof -
    have "fs \<in> set fss \<longleftrightarrow> (\<exists>k\<in>set (common_seqs s). emits s k = Some fs)"
      unfolding fss by (rule set_map_filter)
    also have "\<dots> \<longleftrightarrow> emits s (fs_seq fs) = Some fs"
    proof
      assume e: "emits s (fs_seq fs) = Some fs"
      then have "fs_seq fs \<in> set (common_seqs s)"
        by (auto simp: set_common_seqs dest!: emits_Some map_of_SomeD intro!: image_eqI)
      with e show "\<exists>k\<in>set (common_seqs s). emits s k = Some fs" by blast
    qed (auto dest: emits_Some)
    finally show ?thesis .
  qed
  have "set (common_seqs s') = {}"
    using match_seqs_removes [OF m] by (auto simp: set_common_seqs)
  with ord mem show ?thesis by (auto simp: emits_def split: option.splits sum.splits)
qed

definition two_frames :: subscriber where
  "two_frames = (new_subscriber 8)
     \<lparr>rgb_buf := [(7, PDict [(''ts_ns'', PInt 70), (''intrinsics'', PDict [])], [[(1, 2, 3)]]),
                (5, PDict [(''intrinsics'', PDict [])], [])],
      depth_buf := [(5, PDict [], []), (7, PDict [], [[9]]), (8, PDict [], [])]\<rparr>"

theorem matcher_pairs_frames_witness:
  "\<exists>s' fs. try_match two_frames = (s', Inr [fs]) \<and> fs_seq fs = 7 \<and> fs_rgb fs = [[(1, 2, 3)]]
     \<and> fs_depth fs = [[9]] \<and> common_seqs s' = []"
proof -
  have inv: "sub_inv two_frames"
    by (simp add: sub_inv_def two_frames_def new_subscriber_def new_queue_def pq.bounded_def)
  have "common_seqs two_frames = [5, 7]" by (simp add: common_seqs_def two_frames_def)
  then obtain s' fs where m: "try_match two_frames = (s', Inr [fs])"
    "fs_seq fs = 7" "fs_rgb fs = [[(1, 2, 3)]]" "fs_depth fs = [[9]]"
    by (simp add: try_match_def two_frames_def make_frameset_def hdr_item_def matcher_catches_def Let_def)
  with matcher_pairs_frames [OF inv m(1)] show ?thesis by blast
qed

text \<open>
  A colour header whose time stamp is the JSON number \<open>Infinity\<close> ends the matcher thread: the
  conversion raises \<open>OverflowError\<close>, which the handler meant to keep the thread alive on a
  malformed header does not catch.
\<close>

theorem infinite_timestamp_ends_matcher:
  assumes "common_seqs s = seq # seqs" and "map_of (rgb_buf s) seq = Some (PDict h, img)"
    and "map_of h ''ts_ns'' = Some (PFloat PInf)"
    and "map_of (depth_buf s) seq = Some (PDict g, dep)" and "map_of g ''depth_scale_m'' = Some (PFloat (Fin x))"
  shows "\<exists>s' e. run_matcher s = (s', Some (OverflowError e))"
proof -
  have "make_frameset seq (PDict h, img) (PDict g, dep)
      = Inl (OverflowError ''cannot convert float infinity to integer'')"
    using assms(3,5) by (simp add: make_frameset_def hdr_item_def)
  then show ?thesis
    using assms(1,2,4) by (simp add: run_matcher_def try_match_def Let_def matcher_catches_def)
qed

definition infinite_frame :: subscriber where
  "infinite_frame = (new_subscriber 8)
     \<lparr>rgb_buf := [(7, PDict [(''ts_ns'', PFloat PInf), (''intrinsics'', PDict [])], [])],
      depth_buf := [(7, PDict [(''depth_scale_m'', PFloat (Fin 1))], [])]\<rparr>"

theorem infinite_timestamp_ends_matcher_witness:
  "\<exists>s' e. run_matcher infinite_frame = (s', Some (OverflowError e))"
proof (rule infinite_timestamp_ends_matcher)
  show "common_seqs infinite_frame = [7]" by (simp add: infinite_frame_def common_seqs_def)
  show "map_of (rgb_buf infinite_frame) 7
      = Some (PDict [(''ts_ns'', PFloat PInf), (''intrinsics'', PDict [])], [])"
    "map_of (depth_buf infinite_frame) 7 = Some (PDict [(''depth_scale_m'', PFloat (Fin 1))], [])"
    by (simp_all add: infinite_frame_def)
  show "map_of [(''ts_ns'', PFloat PInf), (''intrinsics'', PDict [])] ''ts_ns'' = Some (PFloat PInf)"
    "map_of [(''depth_scale_m'', PFloat (Fin 1))] ''depth_scale_m'' = Some (PFloat (Fin 1))" by simp_all
qed

end
