(* ===== verification/Detectors.thy ===== *)
theory Detectors
  imports Messages Config Subscriber
begin

text \<open>
  \<open>python/services/perception/detectors.py\<close>: the depth and camera-frame position of a detection, the
  YOLO detector around a model that is a parameter (its label set and its predictions), and the
  construction from the configuration. A depth image is its rows; \<open>np.median\<close> is a parameter, of
  which the properties assume that a median lies between two of the values.
\<close>

section \<open>Depth of a box and position of its centre\<close>

record detector_inputs =
  in_rgb :: rgb_image
  in_depth :: "depth_image option"
  in_depth_scale_m :: pyfloat
  in_intrinsics :: pyval

text \<open>\<open>depth.size\<close>, \<open>depth.shape[1]\<close> and the slice \<open>depth[y0:y1, x0:x1]\<close> for \<open>0 \<le> y0\<close>, \<open>0 \<le> x0\<close>.\<close>

definition img_width :: "depth_image \<Rightarrow> nat" where
  "img_width d = (case d of [] \<Rightarrow> 0 | row # _ \<Rightarrow> length row)"

definition img_size :: "depth_image \<Rightarrow> nat" where
  "img_size d = length d * img_width d"

definition slice :: "int \<Rightarrow> int \<Rightarrow> 'a list \<Rightarrow> 'a list" where
  "slice a b xs = take (nat b - nat a) (drop (nat a) xs)"

definition patch_pixels :: "depth_image \<Rightarrow> int \<Rightarrow> int \<Rightarrow> int \<Rightarrow> int \<Rightarrow> nat list" where
  "patch_pixels d x0 y0 x1 y1 = filter (\<lambda>z. 0 < z) (concat (map (slice x0 x1) (slice y0 y1 d)))"

text \<open>The position, once the median depth \<open>z_m\<close> is known.\<close>

definition back_project ::
    "pyval \<Rightarrow> pyfloat \<Rightarrow> pyfloat \<Rightarrow> pyfloat \<Rightarrow> pyfloat list option result" where
  "back_project intr cx cy z_m =
     rbind (rbind (hdr_get intr ''fx'' (PFloat (Fin 0))) py_float) (\<lambda>fx.
     rbind (rbind (hdr_get intr ''fy'' (PFloat (Fin 0))) py_float) (\<lambda>fy.
     rbind (hdr_get intr ''ppx'' PNone) (\<lambda>ppx_raw.
     rbind (hdr_get intr ''ppy'' PNone) (\<lambda>ppy_raw.
       if flt_le fx (Fin 0) \<or> flt_le fy (Fin 0) \<or> ppx_raw = PNone \<or> ppy_raw = PNone then Inr None
       else
         rbind (py_float ppx_raw) (\<lambda>ppx.
         rbind (py_float ppy_raw) (\<lambda>ppy.
         rbind (flt_div (flt_mul (flt_sub cx ppx) z_m) fx) (\<lambda>X.
         rbind (flt_div (flt_mul (flt_sub cy ppy) z_m) fy) (\<lambda>Y.
           Inr (Some [X, Y, z_m])))))))))"

definition half :: "pyfloat \<Rightarrow> pyfloat" where
  "half x = flt_mul x (Fin (1 / 2))"

definition center_depth_and_xyz ::
    "(nat list \<Rightarrow> real) \<Rightarrow> depth_image option \<Rightarrow> pyfloat \<Rightarrow> pyval \<Rightarrow> pyfloat \<Rightarrow> pyfloat \<Rightarrow> pyfloat \<Rightarrow> pyfloat
     \<Rightarrow> (pyfloat option \<times> pyfloat list option) result" where
  "center_depth_and_xyz np_median depth depth_scale_m intr x y w h =
     (case depth of
        None \<Rightarrow> Inr (None, None)
      | Some d \<Rightarrow>
          (if img_size d = 0 \<or> flt_le depth_scale_m (Fin 0) then Inr (None, None)
           else
             let cx = flt_add x (half w); cy = flt_add y (half h)
             in rbind (int_of_float x) (\<lambda>ix. rbind (int_of_float y) (\<lambda>iy.
                rbind (int_of_float (flt_add x w)) (\<lambda>ixw. rbind (int_of_float (flt_add y h)) (\<lambda>iyh.
                  let x0 = max 0 ix; y0 = max 0 iy;
                      x1 = min (int (img_width d)) ixw; y1 = min (int (length d)) iyh
                  in if x1 \<le> x0 \<or> y1 \<le> y0 then Inr (None, None)
                     else
                       let nz = patch_pixels d x0 y0 x1 y1
                       in if nz = [] then Inr (None, None)
                          else let z_m = flt_mul (Fin (np_median nz)) depth_scale_m
                               in rbind (back_project intr cx cy z_m) (\<lambda>xyz.
                                    Inr (Some z_m, xyz))))))))"

section \<open>The detector\<close>

text \<open>
  What the detector uses of the YOLO model: its class names by number and a prediction, called with
  the image, the score threshold, the maximal number of detections, the device and the classes
  asked for. A prediction is \<open>None\<close> for an empty result list or no boxes, else the boxes with their
  corners, confidence and class.
\<close>

record yolo_box =
  bx0 :: pyfloat
  by0 :: pyfloat
  bx1 :: pyfloat
  by1 :: pyfloat
  b_conf :: pyfloat
  b_cls :: int

type_synonym predictor =
  "rgb_image \<Rightarrow> pyfloat \<Rightarrow> int \<Rightarrow> pyval option \<Rightarrow> int list option \<Rightarrow> yolo_box list option result"

record yolo_lib =
  np_median :: "nat list \<Rightarrow> real"
  yolo_predict :: predictor

record yolo_detector =
  y_names :: "(int \<times> string) list"
  y_score :: pyfloat
  y_max_det :: int
  y_device :: pyval
  y_class_filter :: "int list option"

text \<open>
  The class filter of the constructor: \<open>name_to_id\<close> keeps the last number of a name, \<open>wanted\<close> is the
  set of numbers of the requested names that are known (here the sorted list of its elements, which
  is what \<open>detect\<close> passes on). The requested names are what iterating over the configured value
  gives; a name that is no string is unknown, one that cannot be hashed raises.
\<close>

definition name_to_id :: "(int \<times> string) list \<Rightarrow> string \<Rightarrow> int option" where
  "name_to_id names c = map_of (rev (map (\<lambda>(k, v). (v, k)) names)) c"

definition class_id :: "(int \<times> string) list \<Rightarrow> pyval \<Rightarrow> int option result" where
  "class_id names c = (case c of
     PStr t \<Rightarrow> Inr (name_to_id names t)
   | PList _ \<Rightarrow> Inl (TypeError ''unhashable type'')
   | PDict _ \<Rightarrow> Inl (TypeError ''unhashable type'')
   | _ \<Rightarrow> Inr None)"

definition iter_items :: "pyval \<Rightarrow> pyval list result" where
  "iter_items v = (case v of
     PStr s \<Rightarrow> Inr (map (\<lambda>c. PStr [c]) s)
   | PList vs \<Rightarrow> Inr vs
   | PDict d \<Rightarrow> Inr (map (\<lambda>kv. PStr (fst kv)) d)
   | _ \<Rightarrow> Inl (TypeError ''object is not iterable''))"

definition class_filter :: "(int \<times> string) list \<Rightarrow> pyval \<Rightarrow> int list option result" where
  "class_filter names classes =
     (if \<not> truthy classes then Inr None
      else
        rbind (iter_items classes) (\<lambda>cs.
        rbind (rmap (class_id names) cs) (\<lambda>ids.
          let wanted = sort (remdups (List.map_filter id ids))
          in if wanted = []
             then Inl (ValueError ''perception.detector.classes: none of the requested classes match'')
             else Inr (Some wanted))))"

definition new_yolo ::
    "(pyval \<Rightarrow> (int \<times> string) list result) \<Rightarrow> pyval \<Rightarrow> pyfloat \<Rightarrow> int \<Rightarrow> pyval \<Rightarrow> pyval
     \<Rightarrow> yolo_detector result" where
  "new_yolo load weights score max_det device classes =
     rbind (load weights) (\<lambda>names.
     rbind (class_filter names classes) (\<lambda>flt.
       Inr \<lparr>y_names = names, y_score = score, y_max_det = max_det,
            y_device = (if device = PStr ''auto'' then PNone else device), y_class_filter = flt\<rparr>))"

definition label_of :: "(int \<times> string) list \<Rightarrow> int \<Rightarrow> string" where
  "label_of names k = (case map_of names k of Some n \<Rightarrow> n | None \<Rightarrow> ''id_'' @ int_dec k)"

definition detection_of_box :: "yolo_lib \<Rightarrow> yolo_detector \<Rightarrow> detector_inputs \<Rightarrow> yolo_box \<Rightarrow> detection result" where
  "detection_of_box lib det inp b =
     (let bw = flt_sub (bx1 b) (bx0 b); bh = flt_sub (by1 b) (by0 b)
      in rbind (center_depth_and_xyz (np_median lib) (in_depth inp) (in_depth_scale_m inp) (in_intrinsics inp)
                  (bx0 b) (by0 b) bw bh) (\<lambda>(depth_m, xyz).
           Inr \<lparr>d_label = label_of (y_names det) (b_cls b), d_bbox_xywh = [bx0 b, by0 b, bw, bh],
                d_confidence = b_conf b, d_depth_m = depth_m, d_xyz_cam_m = xyz\<rparr>))"

definition detect :: "yolo_lib \<Rightarrow> yolo_detector \<Rightarrow> detector_inputs \<Rightarrow> detection list result" where
  "detect lib det inp =
     (let rgb = map (map swap_channels) (in_rgb inp);
          device = (if truthy (y_device det) then Some (y_device det) else None)
      in rbind (yolo_predict lib rgb (y_score det) (y_max_det det) device (y_class_filter det)) (\<lambda>r.
           case r of None \<Rightarrow> Inr [] | Some boxes \<Rightarrow> rmap (detection_of_box lib det inp) boxes))"

definition build_detector ::
    "(pyval \<Rightarrow> (int \<times> string) list result) \<Rightarrow> pydict \<Rightarrow> yolo_detector result" where
  "build_detector load cfg =
     (let model = cfg_get cfg ''perception.detector.model'' (PStr ''yolo'')
      in if model = PStr ''yolo'' then
           rbind (py_float (cfg_get cfg ''perception.detector.score_threshold'' (PFloat (Fin (35 / 100))))) (\<lambda>score.
           rbind (py_int (cfg_get cfg ''perception.detector.max_detections'' (PInt 20))) (\<lambda>max_det.
             new_yolo load (cfg_get cfg ''perception.detector.weights'' (PStr ''yolo11n.pt'')) score max_det
               (cfg_get cfg ''perception.detector.device'' (PStr ''auto''))
               (cfg_get cfg ''perception.detector.classes'' PNone)))
         else Inl (ValueError ''unknown perception.detector.model''))"

section \<open>Lemmas\<close>

lemma patch_pixels_pos: "z \<in> set (patch_pixels d x0 y0 x1 y1) \<Longrightarrow> 0 < z"
  by (simp add: patch_pixels_def)

lemma slice_subset: "set (slice a b xs) \<subseteq> set xs"
  by (auto simp: slice_def dest!: in_set_takeD in_set_dropD)

text \<open>What is assumed of \<open>np.median\<close>.\<close>

definition between :: "(nat list \<Rightarrow> real) \<Rightarrow> bool" where
  "between med \<longleftrightarrow> (\<forall>xs. xs \<noteq> [] \<longrightarrow> (\<exists>a\<in>set xs. \<exists>b\<in>set xs. real a \<le> med xs \<and> med xs \<le> real b))"

text \<open>The ways the function can go, with the patch and the depth of the last one.\<close>

lemma center_depth_cases:
  assumes "center_depth_and_xyz med depth scale intr (Fin x) (Fin y) (Fin w) (Fin h) = r"
  obtains (nothing) "r = Inr (None, None)"
    | (patch) d nz where "depth = Some d" "\<not> flt_le scale (Fin 0)"
        "nz = patch_pixels d (max 0 (trunc x)) (max 0 (trunc y))
           (min (int (img_width d)) (trunc (x + w))) (min (int (length d)) (trunc (y + h)))"
        "nz \<noteq> []" "max 0 (trunc x) < min (int (img_width d)) (trunc (x + w))"
        "max 0 (trunc y) < min (int (length d)) (trunc (y + h))"
        "r = rbind (back_project intr (Fin (x + w / 2)) (Fin (y + h / 2)) (flt_mul (Fin (med nz)) scale))
           (\<lambda>xyz. Inr (Some (flt_mul (Fin (med nz)) scale), xyz))"
proof (cases depth)
  case None
  with assms have "r = Inr (None, None)" by (auto simp: center_depth_and_xyz_def)
  then show ?thesis by (rule nothing)
next
  case (Some d)
  let ?nz = "patch_pixels d (max 0 (trunc x)) (max 0 (trunc y))
     (min (int (img_width d)) (trunc (x + w))) (min (int (length d)) (trunc (y + h)))"
  show ?thesis
  proof (cases "img_size d = 0 \<or> flt_le scale (Fin 0)
      \<or> min (int (img_width d)) (trunc (x + w)) \<le> max 0 (trunc x)
      \<or> min (int (length d)) (trunc (y + h)) \<le> max 0 (trunc y) \<or> ?nz = []")
    case True
    with assms Some have "r = Inr (None, None)" by (auto simp: center_depth_and_xyz_def Let_def)
    then show ?thesis by (rule nothing)
  next
    case False
    then show ?thesis
      using assms Some by (intro patch [OF Some _ refl]) (auto simp: center_depth_and_xyz_def Let_def half_def)
  qed
qed

lemma back_project_Some:
  assumes "back_project intr (Fin cx) (Fin cy) (Fin z) = Inr (Some v)"
    and "hdr_get intr ''fx'' (PFloat (Fin 0)) = Inr (PFloat (Fin fx))" "hdr_get intr ''fy'' (PFloat (Fin 0)) = Inr (PFloat (Fin fy))"
    and "hdr_get intr ''ppx'' PNone = Inr (PFloat (Fin ppx))" "hdr_get intr ''ppy'' PNone = Inr (PFloat (Fin ppy))"
  shows "0 < fx \<and> 0 < fy \<and> v = [Fin ((cx - ppx) * z / fx), Fin ((cy - ppy) * z / fy), Fin z]"
  using assms by (auto simp: back_project_def Let_def split: if_splits)

section \<open>Properties\<close>

text \<open>The pixels of a box, clamped to the image, that have a depth.\<close>

definition box_pixels :: "depth_image \<Rightarrow> real \<Rightarrow> real \<Rightarrow> real \<Rightarrow> real \<Rightarrow> nat list" where
  "box_pixels d x y w h = patch_pixels d (max 0 (trunc x)) (max 0 (trunc y))
     (min (int (img_width d)) (trunc (x + w))) (min (int (length d)) (trunc (y + h)))"

lemma center_depth_Some:
  assumes "center_depth_and_xyz med (Some d) (Fin s) intr (Fin x) (Fin y) (Fin w) (Fin h) = Inr (Some (Fin z), xyz)"
  shows "box_pixels d x y w h \<noteq> []" "0 < s" "z = med (box_pixels d x y w h) * s"
    "back_project intr (Fin (x + w / 2)) (Fin (y + h / 2)) (Fin z) = Inr xyz"
proof -
  have "box_pixels d x y w h \<noteq> [] \<and> 0 < s \<and> z = med (box_pixels d x y w h) * s
    \<and> back_project intr (Fin (x + w / 2)) (Fin (y + h / 2)) (Fin z) = Inr xyz"
    using assms
  proof (cases rule: center_depth_cases)
    case (patch d' nz)
    from patch(7) [symmetric] patch(1-4) show ?thesis by (auto simp: rbind_Inr_iff box_pixels_def)
  qed simp
  then show "box_pixels d x y w h \<noteq> []" "0 < s" "z = med (box_pixels d x y w h) * s"
    "back_project intr (Fin (x + w / 2)) (Fin (y + h / 2)) (Fin z) = Inr xyz" by auto
qed


text \<open>
  C35: a position that is reported projects back onto the centre of the box as it was detected, not
  as clamped to the image: with the intrinsics' focal lengths and principal point,
  \<open>fx * X / Z + ppx\<close> and \<open>fy * Y / Z + ppy\<close> are the coordinates of that centre and \<open>Z\<close> is the
  reported depth.
\<close>

theorem position_projects_to_centre:
  assumes "between med"
    and "center_depth_and_xyz med (Some d) (Fin s) intr (Fin x) (Fin y) (Fin w) (Fin h)
      = Inr (Some (Fin z), Some v)"
    and "hdr_get intr ''fx'' (PFloat (Fin 0)) = Inr (PFloat (Fin fx))" "hdr_get intr ''fy'' (PFloat (Fin 0)) = Inr (PFloat (Fin fy))"
    and "hdr_get intr ''ppx'' PNone = Inr (PFloat (Fin ppx))" "hdr_get intr ''ppy'' PNone = Inr (PFloat (Fin ppy))"
  shows "\<exists>X Y. v = [Fin X, Fin Y, Fin z] \<and> fx * X / z + ppx = x + w / 2 \<and> fy * Y / z + ppy = y + h / 2"
proof -
  note c = center_depth_Some [OF assms(2)]
  obtain a where "a \<in> set (box_pixels d x y w h)" "real a \<le> med (box_pixels d x y w h)"
    using assms(1) c(1) by (auto simp: between_def)
  moreover from this have "0 < a" using patch_pixels_pos by (simp add: box_pixels_def)
  ultimately have "0 < z" using c(2,3) by simp
  with back_project_Some [OF c(4) assms(3-6)] show ?thesis by auto
qed

text \<open>
  A class filter that is configured is never dropped. If the detector is built, it asks the model
  for the numbers of the requested classes the model knows, at least one, each once; requested names
  that are all unknown are an error, not a detector without a filter.
\<close>

theorem class_filter_honoured:
  assumes "truthy classes" and "iter_items classes = Inr cs"
    and "class_filter names classes = Inr flt"
  shows "\<exists>ws. flt = Some ws \<and> ws \<noteq> [] \<and> sorted ws \<and> distinct ws
    \<and> (\<forall>k. k \<in> set ws \<longleftrightarrow> (\<exists>t. PStr t \<in> set cs \<and> name_to_id names t = Some k))"
proof -
  from assms obtain ids where ids: "rmap (class_id names) cs = Inr ids"
    and f: "flt = Some (sort (remdups (List.map_filter id ids)))" "sort (remdups (List.map_filter id ids)) \<noteq> []"
    by (auto simp: class_filter_def rbind_Inr_iff Let_def split: if_splits)
  have mem: "k \<in> set (List.map_filter id ids) \<longleftrightarrow> (\<exists>t. PStr t \<in> set cs \<and> name_to_id names t = Some k)" for k
    using ids
  proof (induction cs arbitrary: ids)
    case (Cons c cs)
    from Cons.prems obtain i js where i: "class_id names c = Inr i" "rmap (class_id names) cs = Inr js" "ids = i # js"
      by (auto simp: rbind_Inr_iff)
    have "i = Some k \<longleftrightarrow> (\<exists>t. c = PStr t \<and> name_to_id names t = Some k)"
      using i(1) by (auto simp: class_id_def split: pyval.splits)
    with i Cons.IH [OF i(2)] show ?case by (auto simp: map_filter_simps split: option.splits)
  qed (simp add: map_filter_simps)
  from f mem show ?thesis by (intro exI [of _ "sort (remdups (List.map_filter id ids))"]) auto
qed

section \<open>Witnesses\<close>

text \<open>The median of a list that is not empty.\<close>

definition median :: "nat list \<Rightarrow> real" where
  "median xs =
     (let ys = sort xs; n = length ys
      in if odd n then of_nat (ys ! (n div 2))
         else (of_nat (ys ! (n div 2 - 1)) + of_nat (ys ! (n div 2))) / 2)"

lemma median_between: "between median"
  unfolding between_def
proof (intro allI impI)
  fix xs :: "nat list"
  assume "xs \<noteq> []"
  let ?ys = "sort xs" and ?n = "length (sort xs)"
  have n: "0 < ?n" using \<open>xs \<noteq> []\<close> by simp
  have m: "?ys ! (?n div 2) \<in> set xs" "?ys ! (?n div 2 - 1) \<in> set xs"
    using nth_mem [of "?n div 2" ?ys] nth_mem [of "?n div 2 - 1" ?ys] n by (auto simp: less_imp_diff_less)
  have le: "?ys ! (?n div 2 - 1) \<le> ?ys ! (?n div 2)"
    using n by (intro sorted_nth_mono) auto
  then have "real (?ys ! (?n div 2 - 1)) \<le> median xs" "median xs \<le> real (?ys ! (?n div 2))"
    by (auto simp: median_def Let_def field_simps)
  with m show "\<exists>a\<in>set xs. \<exists>b\<in>set xs. real a \<le> median xs \<and> median xs \<le> real b" by blast
qed

abbreviation small_depth :: depth_image where
  "small_depth \<equiv> [[0, 10, 0], [20, 40, 0], [7, 7, 7]]"

abbreviation small_intr :: pyval where
  "small_intr \<equiv> PDict [(''fx'', PFloat (Fin 2)), (''fy'', PFloat (Fin 4)),
     (''ppx'', PFloat (Fin 1)), (''ppy'', PFloat (Fin 1))]"

lemma small_patch: "patch_pixels small_depth 0 0 2 2 = [10, 20, 40]"
  by (simp add: patch_pixels_def slice_def numeral_2_eq_2)

lemma small_result:
  "center_depth_and_xyz median (Some small_depth) (Fin (1 / 10)) small_intr (Fin (- 1)) (Fin 0) (Fin 3) (Fin 2)
    = Inr (Some (Fin 2), Some [Fin (- (1 / 2)), Fin 0, Fin 2])"
proof -
  have "\<lceil>- 1 :: real\<rceil> = - 1" by (rule ceiling_unique) simp_all
  then have t: "trunc (- 1) = - 1" "trunc 0 = 0" "trunc 2 = 2" by (simp_all add: trunc_def)
  have m: "median [10, 20, 40] = 20" by (simp add: median_def Let_def)
  show ?thesis
    using t by (simp add: center_depth_and_xyz_def Let_def img_size_def img_width_def small_patch m
        half_def back_project_def)
qed


theorem position_projects_to_centre_witness:
  "\<exists>X Y. [Fin (- (1 / 2)), Fin 0, Fin 2] = [Fin X, Fin Y, Fin 2]
     \<and> 2 * X / 2 + 1 = - 1 + 3 / 2 \<and> 4 * Y / 2 + 1 = 0 + 2 / (2 :: real)"
  by (rule position_projects_to_centre [OF median_between small_result]) simp_all

theorem class_filter_honoured_witness:
  "class_filter [(0, ''person''), (1, ''car'')] (PList [PStr ''car'', PStr ''unicorn'']) = Inr (Some [1])
    \<and> (\<exists>ws. Some [1 :: int] = Some ws \<and> ws \<noteq> [] \<and> distinct ws)"
proof
  show c: "class_filter [(0, ''person''), (1, ''car'')] (PList [PStr ''car'', PStr ''unicorn'']) = Inr (Some [1])"
    by (simp add: class_filter_def iter_items_def class_id_def name_to_id_def map_filter_simps)
  show "\<exists>ws. Some [1 :: int] = Some ws \<and> ws \<noteq> [] \<and> distinct ws"
    using class_filter_honoured [OF _ _ c] by (simp add: iter_items_def)
qed

end
