(* ===== verification/Perception.thy ===== *)
theory Perception
  imports Detectors Transport
begin

text \<open>
  \<open>python/services/perception/main.py\<close>: the perception service. Its set-up from the configuration,
  and its main loop as a step on the loop's variables: drain the subscriber to the newest frameset,
  throttle to the tick rate, pass over stale frames, detect, publish. The readings of the monotonic
  clock, the framesets the subscriber hands out and the signal flag are inputs.
\<close>

section \<open>Set-up\<close>

record perc_conf =
  pc_interval_s :: pyfloat
  pc_frame_max_age_s :: pyfloat
  pc_detector :: yolo_detector
  pc_pub :: sock

text \<open>\<open>max(raw_tick, 0.1)\<close> and \<open>1.0 / tick_hz\<close>.\<close>

definition clamp_tick :: "pyfloat \<Rightarrow> pyfloat" where
  "clamp_tick raw = flt_max raw (Fin (1 / 10))"

definition perc_setup ::
    "(pyval \<Rightarrow> (int \<times> string) list result) \<Rightarrow> pydict \<Rightarrow> perc_conf result" where
  "perc_setup load cfg =
     rbind (py_float (cfg_get cfg ''perception.tick_hz'' (PFloat (Fin 2)))) (\<lambda>raw_tick.
     let tick_hz = clamp_tick raw_tick in
     rbind (cfg_require cfg ''services.perception_scene_pub'') (\<lambda>ep.
     rbind (build_detector load cfg) (\<lambda>detector.
     rbind (cfg_require cfg ''sensor.channels.rgb'') (\<lambda>_.
     rbind (cfg_require cfg ''sensor.channels.depth'') (\<lambda>_.
     rbind (case ep of PStr s \<Rightarrow> Inr s | _ \<Rightarrow> Inl (AttributeError ''startswith'')) (\<lambda>ep.
     rbind (pub ep 4) (\<lambda>sk.
     rbind (flt_div (Fin 1) tick_hz) (\<lambda>interval_s.
     rbind (py_float (cfg_get cfg ''perception.frame_max_age_s'' (PFloat (Fin 2)))) (\<lambda>age.
       Inr \<lparr>pc_interval_s = interval_s, pc_frame_max_age_s = age, pc_detector = detector,
            pc_pub = sk\<rparr>)))))))))"

section \<open>The loop\<close>

record perc_state =
  last_tick :: real
  p_latest_fs :: "frameset option"
  p_latest_fs_ts :: real

definition perc_init :: perc_state where
  "perc_init = \<lparr>last_tick = 0, p_latest_fs = None, p_latest_fs_ts = 0\<rparr>"

text \<open>
  How an iteration ends: with the exit code of the service, in a sleep, without a scene (no frame or
  a stale one), in an exception of the detector that is logged, or with a scene published.
\<close>

datatype perc_out = Exit int | Sleep pyfloat | NoScene | DetectorError py_error | Scene scene_header

text \<open>\<open>min(a, b)\<close> keeps its first argument unless the second is less.\<close>

definition flt_min :: "pyfloat \<Rightarrow> pyfloat \<Rightarrow> pyfloat" where
  "flt_min x y = (if flt_less y x then y else x)"

definition drain_frames :: "(frameset \<times> real) list \<Rightarrow> perc_state \<Rightarrow> perc_state" where
  "drain_frames fs st =
     foldl (\<lambda>st (f, t). st\<lparr>p_latest_fs := Some f, p_latest_fs_ts := t\<rparr>) st fs"

definition inputs_of :: "frameset \<Rightarrow> detector_inputs" where
  "inputs_of f = \<lparr>in_rgb = fs_rgb f, in_depth = Some (fs_depth f),
     in_depth_scale_m = fs_depth_scale_m f, in_intrinsics = fs_intrinsics f\<rparr>"

definition scene_of :: "frameset \<Rightarrow> detection list \<Rightarrow> scene_header" where
  "scene_of f ds = \<lparr>sc_ts_ns = fs_ts_ns f, sc_frame_seq = fs_seq f, sc_detections = map detection_asdict ds\<rparr>"

definition perc_iter ::
    "yolo_lib \<Rightarrow> perc_conf \<Rightarrow> real option \<Rightarrow> (frameset \<times> real) list \<Rightarrow> real
     \<Rightarrow> perc_state \<Rightarrow> perc_state \<times> perc_out" where
  "perc_iter lib pc once_deadline frames now st0 =
     (let st = drain_frames frames st0 in
      if (case once_deadline of Some t \<Rightarrow> p_latest_fs st = None \<and> t \<le> now | None \<Rightarrow> False) then (st, Exit 2)
      else if flt_less (Fin (now - last_tick st)) (pc_interval_s pc) then
        (st, Sleep (flt_min (flt_sub (pc_interval_s pc) (Fin (now - last_tick st))) (Fin (1 / 20))))
      else
        let st = st\<lparr>last_tick := now\<rparr> in
        case p_latest_fs st of
          None \<Rightarrow> (st, NoScene)
        | Some f \<Rightarrow>
            (if flt_less (pc_frame_max_age_s pc) (Fin (now - p_latest_fs_ts st)) then (st, NoScene)
             else case detect lib (pc_detector pc) (inputs_of f) of
               Inl e \<Rightarrow> (st, DetectorError e)
             | Inr ds \<Rightarrow> (st, Scene (scene_of f ds))))"

text \<open>
  The loop over the inputs of its iterations: whether the stop signal has come, the frames handed
  out, the clock. The result is the scenes with the time each was published at, and the exit code if
  the loop has ended.
\<close>

type_synonym perc_input = "bool \<times> (frameset \<times> real) list \<times> real"

fun perc_loop ::
    "yolo_lib \<Rightarrow> perc_conf \<Rightarrow> bool \<Rightarrow> real option \<Rightarrow> perc_input list
     \<Rightarrow> perc_state \<Rightarrow> (real \<times> scene_header) list \<times> int option" where
  "perc_loop lib pc once dl [] st = ([], None)"
| "perc_loop lib pc once dl ((stop, frames, now) # ins) st =
     (if stop then ([], Some 0)
      else case perc_iter lib pc dl frames now st of
          (st', Exit c) \<Rightarrow> ([], Some c)
        | (st', Scene h) \<Rightarrow>
            (if once then ([(now, h)], Some 0)
             else let (out, r) = perc_loop lib pc once dl ins st' in ((now, h) # out, r))
        | (st', _) \<Rightarrow> perc_loop lib pc once dl ins st')"

definition perception_run ::
    "yolo_lib \<Rightarrow> perc_conf \<Rightarrow> bool \<Rightarrow> real \<Rightarrow> perc_input list
     \<Rightarrow> (real \<times> scene_header) list \<times> int option" where
  "perception_run lib pc once start ins =
     perc_loop lib pc once (if once then Some (start + 10) else None) ins perc_init"

section \<open>Lemmas\<close>

lemma drain_frames_latest:
  "p_latest_fs (drain_frames fs st) = (if fs = [] then p_latest_fs st else Some (fst (last fs)))"
  "p_latest_fs_ts (drain_frames fs st) = (if fs = [] then p_latest_fs_ts st else snd (last fs))"
  "last_tick (drain_frames fs st) = last_tick st"
  by (induction fs arbitrary: st) (auto simp: drain_frames_def)

lemma perc_iter_cases:
  assumes "perc_iter lib pc dl frames now st = (st', out)"
  obtains (exit) "out = Exit 2" "p_latest_fs st' = None" "st' = drain_frames frames st"
    | (sleep) d where "out = Sleep d" "st' = drain_frames frames st"
      "flt_less (Fin (now - last_tick st)) (pc_interval_s pc)"
    | (tick) "st' = (drain_frames frames st)\<lparr>last_tick := now\<rparr>"
      "\<not> flt_less (Fin (now - last_tick st)) (pc_interval_s pc)" "out = NoScene \<or> (\<exists>e. out = DetectorError e)"
    | (scene) f ds where "st' = (drain_frames frames st)\<lparr>last_tick := now\<rparr>"
      "\<not> flt_less (Fin (now - last_tick st)) (pc_interval_s pc)" "out = Scene (scene_of f ds)"
      "p_latest_fs st' = Some f" "detect lib (pc_detector pc) (inputs_of f) = Inr ds"
      "\<not> flt_less (pc_frame_max_age_s pc) (Fin (now - p_latest_fs_ts st'))"
proof -
  let ?st = "drain_frames frames st" and ?now = "\<lambda>st. Fin (now - last_tick st)"
  consider (a) "case dl of Some t \<Rightarrow> p_latest_fs ?st = None \<and> t \<le> now | None \<Rightarrow> False"
    | (b) "\<not> (case dl of Some t \<Rightarrow> p_latest_fs ?st = None \<and> t \<le> now | None \<Rightarrow> False)"
        "flt_less (?now ?st) (pc_interval_s pc)"
    | (c) "\<not> (case dl of Some t \<Rightarrow> p_latest_fs ?st = None \<and> t \<le> now | None \<Rightarrow> False)"
        "\<not> flt_less (?now ?st) (pc_interval_s pc)"
    by blast
  then show thesis
  proof cases
    case a
    with assms show ?thesis by (intro exit) (auto simp: perc_iter_def Let_def split: option.splits)
  next
    case b
    with assms show ?thesis
      by (intro sleep) (auto simp: perc_iter_def Let_def drain_frames_latest(3))
  next
    case c
    let ?st' = "?st\<lparr>last_tick := now\<rparr>"
    have r: "(st', out) = (case p_latest_fs ?st' of None \<Rightarrow> (?st', NoScene)
        | Some f \<Rightarrow> (if flt_less (pc_frame_max_age_s pc) (Fin (now - p_latest_fs_ts ?st')) then (?st', NoScene)
             else case detect lib (pc_detector pc) (inputs_of f) of
               Inl e \<Rightarrow> (?st', DetectorError e) | Inr ds \<Rightarrow> (?st', Scene (scene_of f ds))))"
      using c assms by (simp add: perc_iter_def Let_def)
    have n: "\<not> flt_less (Fin (now - last_tick st)) (pc_interval_s pc)"
      using c(2) by (simp add: drain_frames_latest(3))
    show ?thesis
    proof (cases "p_latest_fs ?st'")
      case None
      with r show ?thesis by (intro tick [OF _ n]) simp_all
    next
      case (Some f)
      show ?thesis
      proof (cases "flt_less (pc_frame_max_age_s pc) (Fin (now - p_latest_fs_ts ?st'))")
        case True
        with r Some show ?thesis by (intro tick [OF _ n]) simp_all
      next
        case fresh: False
        show ?thesis
        proof (cases "detect lib (pc_detector pc) (inputs_of f)")
          case (Inl e)
          with r Some fresh show ?thesis by (intro tick [OF _ n]) simp_all
        next
          case (Inr ds)
          with r Some fresh show ?thesis by (intro scene [OF _ n _ _ Inr]) simp_all
        qed
      qed
    qed
  qed
qed

section \<open>Properties\<close>


text \<open>
  C26: a scene that is published describes the newest frameset the subscriber has handed out, with
  that frameset's time stamp and sequence number, and this frameset is no older than
  \<open>frame_max_age_s\<close>; so once frames stop coming, no scene is published any more.
\<close>

theorem scene_of_fresh_frame:
  assumes "perc_iter lib pc dl frames now st = (st', Scene h)" and "pc_frame_max_age_s pc = Fin age"
  shows "\<exists>f ds. p_latest_fs st' = Some f \<and> detect lib (pc_detector pc) (inputs_of f) = Inr ds \<and> h = scene_of f ds
    \<and> (frames \<noteq> [] \<longrightarrow> f = fst (last frames) \<and> now - snd (last frames) \<le> age)
    \<and> (frames = [] \<longrightarrow> p_latest_fs st = Some f \<and> now - p_latest_fs_ts st \<le> age)"
  using assms(1)
proof (cases rule: perc_iter_cases)
  case (scene f ds)
  with assms(2) show ?thesis by (intro exI [of _ f] exI [of _ ds]) (auto simp: drain_frames_latest)
qed auto

text \<open>
  The clamp on the tick rate does what it is for on every rate but one: the interval is then
  between 0 and 10 seconds. On a rate of NaN, which is a number to the configuration, the interval is
  NaN and the loop is never throttled: it ticks in every iteration.
\<close>

theorem tick_clamp:
  "flt_div (Fin 1) (clamp_tick raw) =
     Inr (case raw of Fin r \<Rightarrow> Fin (1 / max r (1 / 10)) | PInf \<Rightarrow> Fin 0 | NInf \<Rightarrow> Fin 10 | NaN \<Rightarrow> NaN)
   \<and> snd (perc_iter lib (pc\<lparr>pc_interval_s := NaN\<rparr>) dl frames now st) \<noteq> Sleep d"
proof
  show "flt_div (Fin 1) (clamp_tick raw) =
     Inr (case raw of Fin r \<Rightarrow> Fin (1 / max r (1 / 10)) | PInf \<Rightarrow> Fin 0 | NInf \<Rightarrow> Fin 10 | NaN \<Rightarrow> NaN)"
    by (cases raw) (auto simp: clamp_tick_def flt_max_def max_def)
  have "\<not> flt_less x NaN" for x by (cases x) simp_all
  then show "snd (perc_iter lib (pc\<lparr>pc_interval_s := NaN\<rparr>) dl frames now st) \<noteq> Sleep d"
    by (auto simp: perc_iter_def Let_def split: option.splits sum.splits)
qed

section \<open>Witnesses\<close>

definition demo_conf :: perc_conf where
  "demo_conf = \<lparr>pc_interval_s = Fin (1 / 2), pc_frame_max_age_s = Fin 2,
     pc_detector = \<lparr>y_names = [], y_score = Fin (1 / 2), y_max_det = 20, y_device = PNone, y_class_filter = None\<rparr>,
     pc_pub = sub [] 0 [] None\<rparr>"

definition demo_frame :: "int \<Rightarrow> frameset" where
  "demo_frame n = \<lparr>fs_ts_ns = 100 + n, fs_seq = n, fs_rgb = [], fs_depth = [], fs_depth_scale_m = Fin 0, fs_intrinsics = PDict []\<rparr>"

definition no_boxes :: yolo_lib where
  "no_boxes = \<lparr>np_median = median, yolo_predict = (\<lambda>img score max_det device classes. Inr None)\<rparr>"

abbreviation demo_inputs :: "perc_input list" where
  "demo_inputs \<equiv> [(False, [(demo_frame 1, 10), (demo_frame 2, 10)], 10), (False, [], 10 + 1 / 5),
     (False, [(demo_frame 3, 11)], 11), (False, [], 20), (True, [], 21)]"

lemma demo_run:
  "perception_run no_boxes demo_conf False 0 demo_inputs =
     ([(10, scene_of (demo_frame 2) []), (11, scene_of (demo_frame 3) [])], Some 0)"
  by (simp add: perception_run_def perc_iter_def perc_init_def demo_conf_def drain_frames_def no_boxes_def
      detect_def truthy.simps Let_def flt_min_def)


theorem scene_of_fresh_frame_witness:
  "\<exists>st f ds. perc_iter no_boxes demo_conf None [(demo_frame 1, 9), (demo_frame 2, 10)] 10 perc_init
      = (st, Scene (scene_of (demo_frame 2) [])) \<and> p_latest_fs st = Some f \<and> f = demo_frame 2
      \<and> scene_of (demo_frame 2) [] = scene_of f ds"
proof -
  obtain st where i: "perc_iter no_boxes demo_conf None [(demo_frame 1, 9), (demo_frame 2, 10)] 10 perc_init
      = (st, Scene (scene_of (demo_frame 2) []))"
    by (simp add: perc_iter_def perc_init_def demo_conf_def drain_frames_def no_boxes_def detect_def Let_def)
  from scene_of_fresh_frame [OF i, of 2] i show ?thesis by (auto simp: demo_conf_def)
qed

end
