(* ===== verification/Stt.thy ===== *)
theory Stt
  imports Orch_State
begin

text \<open>
  \<open>python/services/stt/main.py\<close>: the speech service. Its construction, \<open>send\<close>, the four modes and
  their choice by the command line. The state is the service's attributes and the headers it has
  pushed; whether the stop signal has come is read from a list, one reading at each point where the
  code looks at it (a list that has run out reads as not stopped). Sleeping and logging are left out.
\<close>

section \<open>State and construction\<close>

record stt =
  s_cfg :: pydict
  s_abort_kw :: string
  s_push :: sock
  s_stop :: bool
  s_sent :: "pyval list"
  s_clock_ns :: int

definition stt_abort_keyword :: "pydict \<Rightarrow> string result" where
  "stt_abort_keyword cfg =
     (case cfg_get cfg ''stt.abort_keyword'' (PStr ''abort'') of
        PStr s \<Rightarrow> (if strip s = [] then Inl (ValueError ''stt.abort_keyword is empty/whitespace'')
                   else Inr (strip s))
      | _ \<Rightarrow> Inl (AttributeError ''strip''))"

definition stt_init :: "int \<Rightarrow> pydict \<Rightarrow> stt result" where
  "stt_init now cfg =
     rbind (stt_abort_keyword cfg) (\<lambda>kw.
     rbind (cfg_require cfg ''services.orchestrator_command_pull'') (\<lambda>ep.
     rbind (connect_endpoint ep) (\<lambda>ep.
       Inr \<lparr>s_cfg = cfg, s_abort_kw = kw, s_push = push ep 16 500, s_stop = False, s_sent = [],
            s_clock_ns = now\<rparr>)))"

definition stt_stop :: "stt \<Rightarrow> stt" where
  "stt_stop s = s\<lparr>s_stop := True\<rparr>"

section \<open>Sending\<close>

text \<open>\<open>send\<close>: the text may be missing (\<open>text or ""\<close>); the result says whether a command went out.\<close>

definition stt_send :: "string option \<Rightarrow> stt \<Rightarrow> stt \<times> bool" where
  "stt_send text s =
     (let t = strip (case text of None \<Rightarrow> [] | Some x \<Rightarrow> x)
      in if t = [] then (s, False)
         else
           let cmd = \<lparr>vc_ts_ns = s_clock_ns s, vc_text = t, vc_is_abort = re_word_search (s_abort_kw s) t\<rparr>
           in (s\<lparr>s_sent := s_sent s @ [command_asdict cmd]\<rparr>, True))"

section \<open>Modes\<close>

definition run_once :: "string \<Rightarrow> stt \<Rightarrow> stt" where
  "run_once text s = fst (stt_send (Some text) s)"

definition is_command_line :: "string \<Rightarrow> bool" where
  "is_command_line line = (strip line \<noteq> [] \<and> \<not> startswith (strip line) ''#'')"

fun send_lines :: "bool list \<Rightarrow> string list \<Rightarrow> stt \<Rightarrow> stt" where
  "send_lines stops [] s = s"
| "send_lines stops (line # rest) s =
     (case stops of
        True # _ \<Rightarrow> s
      | _ \<Rightarrow> send_lines (tl stops) rest
              (if is_command_line line then fst (stt_send (Some (strip line)) s) else s))"

text \<open>\<open>run_file\<close> on the contents of the file; without the file the call raises.\<close>

definition run_file :: "string option \<Rightarrow> bool list \<Rightarrow> stt \<Rightarrow> stt result" where
  "run_file contents stops s =
     (case contents of
        None \<Rightarrow> Inl (FileNotFoundError [])
      | Some text \<Rightarrow> Inr (send_lines stops (readlines text) s))"

text \<open>
  \<open>run_audio_file\<close>: \<open>text\<close> is what loading and transcribing the clip comes to.
\<close>

definition run_audio_file :: "string result \<Rightarrow> stt \<Rightarrow> stt result" where
  "run_audio_file transcript s =
     rbind transcript (\<lambda>text. Inr (if text = [] then s else fst (stt_send (Some text) s)))"

text \<open>The reader thread of \<open>run_interactive\<close>: every line of the input, then the stop signal.\<close>

fun read_stdin :: "bool list \<Rightarrow> string list \<Rightarrow> stt \<Rightarrow> stt" where
  "read_stdin stops [] s = s"
| "read_stdin stops (line # rest) s =
     (case stops of True # _ \<Rightarrow> s | _ \<Rightarrow> read_stdin (tl stops) rest (fst (stt_send (Some line) s)))"

definition run_interactive :: "bool list \<Rightarrow> string list \<Rightarrow> stt \<Rightarrow> stt" where
  "run_interactive stops lines s = (read_stdin stops lines s)\<lparr>s_stop := True\<rparr>"

text \<open>The choice of the mode in \<open>cli\<close>, and the stop at its end.\<close>

record stt_args =
  a_once :: "string option"
  a_from_file :: "string option"
  a_audio_file :: "string option"

definition stt_cli ::
    "(string \<Rightarrow> string result) \<Rightarrow> (string \<Rightarrow> string option) \<Rightarrow> string list \<Rightarrow> bool list
     \<Rightarrow> int \<Rightarrow> pydict \<Rightarrow> stt_args \<Rightarrow> stt result" where
  "stt_cli transcribe_file read_text stdin stops now cfg args =
     rbind (stt_init now cfg) (\<lambda>s.
     rbind (case a_audio_file args of
        Some p \<Rightarrow> run_audio_file (transcribe_file p) s
      | None \<Rightarrow> (case a_once args of
          Some t \<Rightarrow> Inr (run_once t s)
        | None \<Rightarrow> (case a_from_file args of
            Some p \<Rightarrow> run_file (read_text p) stops s
          | None \<Rightarrow> Inr (run_interactive stops stdin s))))
       (\<lambda>s'. Inr (stt_stop s')))"

section \<open>Lemmas\<close>

lemma stt_send_frame [simp]:
  "s_abort_kw (fst (stt_send t s)) = s_abort_kw s" "s_clock_ns (fst (stt_send t s)) = s_clock_ns s"
  "s_cfg (fst (stt_send t s)) = s_cfg s" "s_push (fst (stt_send t s)) = s_push s"
  "s_stop (fst (stt_send t s)) = s_stop s"
  by (simp_all add: stt_send_def Let_def)

text \<open>The command a text becomes.\<close>

definition command_of :: "stt \<Rightarrow> string \<Rightarrow> voice_command" where
  "command_of s t = \<lparr>vc_ts_ns = s_clock_ns s, vc_text = t, vc_is_abort = re_word_search (s_abort_kw s) t\<rparr>"

lemma stt_send_sent:
  "s_sent (fst (stt_send (Some t) s)) = s_sent s @ (if strip t = [] then [] else [command_asdict (command_of s (strip t))])"
  by (simp add: stt_send_def command_of_def Let_def)

lemma command_of_send [simp]: "command_of (fst (stt_send t s)) = command_of s"
  by (rule ext) (simp add: command_of_def)

lemma send_lines_sent:
  "s_sent (send_lines [] ls s)
     = s_sent s @ map (\<lambda>l. command_asdict (command_of s (strip l))) (filter is_command_line ls)"
  by (induction ls arbitrary: s) (auto simp: stt_send_sent is_command_line_def)

section \<open>Properties\<close>

text \<open>
  C31: the speech service and the orchestrator agree on what an abort is. Built from the same
  configuration, the command the orchestrator decodes from a header the service has sent carries the
  abort flag exactly if the orchestrator's own keyword test on the text says so.
\<close>

theorem abort_flag_agrees:
  assumes "stt_init now cfg = Inr s" and "orch_init gemini t0 t1 cfg = Inr (ob, socks)"
    and "stt_send (Some utt) s = (s', True)"
  shows "\<exists>hdr c. s_sent s' = [hdr] \<and> decode_command frepr t hdr = Inr c
    \<and> vc_text c = strip utt \<and> (vc_is_abort c \<longleftrightarrow> re_word_search (abort_kw ob) (vc_text c))"
proof -
  have "stt_abort_keyword cfg = Inr (s_abort_kw s)" and e: "s_sent s = []"
    using assms(1) by (auto simp: stt_init_def rbind_Inr_iff)
  moreover have "abort_keyword cfg = Inr (abort_kw ob)"
    using assms(2) by (auto simp: orch_init_def rbind_Inr_iff)
  ultimately have kw: "s_abort_kw s = abort_kw ob" by (simp add: stt_abort_keyword_def abort_keyword_def)
  have "strip utt \<noteq> []" using assms(3) by (auto simp: stt_send_def Let_def)
  then have "s_sent s' = [command_asdict (command_of s (strip utt))]"
    using stt_send_sent [of utt s] e assms(3) by simp
  then show ?thesis using kw by (simp add: decode_command_asdict command_of_def)
qed

text \<open>
  File mode, when it is not stopped, sends one command for each line that is neither blank nor a
  comment, in order and stripped, and nothing else.
\<close>

theorem file_mode_sends_commands:
  "\<exists>s'. run_file (Some txt) [] s = Inr s'
     \<and> s_sent s' = s_sent s @ map (\<lambda>l. command_asdict (command_of s (strip l)))
         (filter is_command_line (readlines txt))"
  by (simp add: run_file_def send_lines_sent)

section \<open>Witnesses\<close>

definition stt_cfg :: pydict where
  "stt_cfg =
     [(''services'', PDict [(''orchestrator_command_pull'', PStr ''ipc:///tmp/c''),
         (''orchestrator_status_pub'', PStr ''ipc:///tmp/s''), (''perception_scene_pub'', PStr ''ipc:///tmp/p''),
         (''telemetry_pub'', PStr ''ipc:///tmp/t''), (''flight_bridge_rep'', PStr ''ipc:///tmp/f'')]),
      (''sensor'', PDict [(''channels'', PDict [(''rgb'', PStr ''ipc:///tmp/r''), (''depth'', PStr ''ipc:///tmp/d'')])]),
      (''stt'', PDict [(''abort_keyword'', PStr ''abort'')])]"

definition stt_demo :: stt where
  "stt_demo = \<lparr>s_cfg = stt_cfg, s_abort_kw = ''abort'', s_push = push ''ipc:///tmp/c'' 16 500, s_stop = False,
     s_sent = [], s_clock_ns = 5\<rparr>"

lemma projr_Inr: "\<not> isl x \<Longrightarrow> x = Inr (projr x)"
  by (cases x) simp_all

theorem abort_flag_agrees_witness:
  "\<exists>hdr c (ob :: orch). s_sent (fst (stt_send (Some '' Abort! '') stt_demo)) = [hdr]
    \<and> decode_command (\<lambda>_. []) 0 hdr = Inr c \<and> vc_text c = ''Abort!'' \<and> abort_kw ob = ''abort''
    \<and> (vc_is_abort c \<longleftrightarrow> re_word_search (abort_kw ob) (vc_text c))"
proof -
  have i: "stt_init 5 stt_cfg = Inr stt_demo"
    by (simp add: stt_init_def stt_abort_keyword_def stt_demo_def stt_cfg_def cfg_get_def cfg_require_def
        connect_endpoint_def strip_def lstrip_def rstrip_def is_space_def)
  have "\<not> isl (orch_init (\<lambda>_. Inr ()) 0 0 stt_cfg)" by code_simp
  then obtain r where "orch_init (\<lambda>_. Inr ()) 0 0 stt_cfg = Inr r" using projr_Inr by blast
  then obtain ob socks where o: "orch_init (\<lambda>_. Inr ()) 0 0 stt_cfg = Inr (ob, socks)" by (cases r) simp
  have "snd (stt_send (Some '' Abort! '') stt_demo)" by code_simp
  then have t: "stt_send (Some '' Abort! '') stt_demo = (fst (stt_send (Some '' Abort! '') stt_demo), True)"
    by (simp add: prod_eq_iff)
  have strip: "strip '' Abort! '' = ''Abort!''" by code_simp
  have "abort_keyword stt_cfg = Inr ''abort''" by code_simp
  then have kw: "abort_kw ob = ''abort''" using o by (auto simp: orch_init_def rbind_Inr_iff)
  obtain hdr c where "s_sent (fst (stt_send (Some '' Abort! '') stt_demo)) = [hdr]"
    "decode_command (\<lambda>_. []) 0 hdr = Inr c" "vc_text c = strip '' Abort! ''"
    "vc_is_abort c \<longleftrightarrow> re_word_search (abort_kw ob) (vc_text c)"
    using abort_flag_agrees [OF i o t, of "\<lambda>_. []" 0] by blast
  with strip kw show ?thesis by (intro exI [of _ hdr] exI [of _ c] exI [of _ ob]) simp
qed

end
