(* ===== verification/Whisper.thy ===== *)
theory Whisper
  imports PyVal "HOL-Library.Word"
begin

text \<open>
  \<open>python/services/stt/whisper_backend.py\<close>: the backend around the Whisper model (a parameter) and
  the loading of a WAV clip as mono samples at 16 kHz. The bytes of the clip and the header fields
  \<open>wave\<close> reads are inputs; a sample is a signed or unsigned word of the clip's width, then a real
  number (the rounding of \<open>float32\<close> is not modelled). \<open>np.interp\<close> is a parameter.
\<close>

section \<open>The backend\<close>

definition default_compute_type :: "pyval \<Rightarrow> pyval \<Rightarrow> pyval result" where
  "default_compute_type device compute_type =
     (if compute_type \<noteq> PNone then Inr compute_type
      else if device = PStr ''cpu'' then Inr (PStr ''int8'')
      else if truthy device then
        (case device of
           PStr d \<Rightarrow> Inr (PStr (if startswith d ''cuda'' then ''float16'' else ''auto''))
         | _ \<Rightarrow> Inl (AttributeError ''startswith''))
      else Inr (PStr ''auto''))"

record whisper =
  wh_model :: "real list \<Rightarrow> pyval \<Rightarrow> string list result"
  wh_language :: pyval

text \<open>\<open>load\<close> is the constructor of the model: from its size, the device and the compute type.\<close>

definition new_whisper ::
    "(pyval \<Rightarrow> pyval \<Rightarrow> pyval \<Rightarrow> (real list \<Rightarrow> pyval \<Rightarrow> string list result) result)
     \<Rightarrow> pyval \<Rightarrow> pyval \<Rightarrow> pyval \<Rightarrow> pyval \<Rightarrow> whisper result" where
  "new_whisper load model_size device compute_type language =
     rbind (default_compute_type device compute_type) (\<lambda>ct.
     rbind (load model_size device ct) (\<lambda>m.
       Inr \<lparr>wh_model = m, wh_language = (if truthy language then language else PNone)\<rparr>))"

definition transcribe :: "whisper \<Rightarrow> real list \<Rightarrow> string result" where
  "transcribe w audio =
     (if audio = [] then Inr []
      else rbind (wh_model w audio (wh_language w)) (\<lambda>segments.
             Inr (strip (join '' '' (map strip segments)))))"

section \<open>Loading a clip\<close>

record wav =
  n_channels :: nat
  sampwidth :: nat
  framerate :: nat
  raw_bytes :: "8 word list"

text \<open>\<open>np.frombuffer\<close> on little-endian integers: the bytes must be whole samples.\<close>

fun le_int :: "8 word list \<Rightarrow> int" where
  "le_int [] = 0"
| "le_int (b # bs) = uint b + 256 * le_int bs"

function chunks :: "nat \<Rightarrow> 'a list \<Rightarrow> 'a list list" where
  "chunks n xs = (if n = 0 \<or> xs = [] then [] else take n xs # chunks n (drop n xs))"
  by pat_completeness auto
termination
  by (relation "measure (\<lambda>(n, xs). length xs)") auto

declare chunks.simps [simp del]

definition frombuffer :: "nat \<Rightarrow> (8 word list \<Rightarrow> 'a) \<Rightarrow> 8 word list \<Rightarrow> 'a list result" where
  "frombuffer width conv raw =
     (if length raw mod width \<noteq> 0 then Inl (ValueError ''buffer size must be a multiple of element size'')
      else Inr (map conv (chunks width raw)))"

definition int16_sample :: "8 word list \<Rightarrow> real" where
  "int16_sample bs = of_int (sint (word_of_int (le_int bs) :: 16 word)) / 32768"

definition int32_sample :: "8 word list \<Rightarrow> real" where
  "int32_sample bs = of_int (sint (word_of_int (le_int bs) :: 32 word)) / 2147483648"

definition uint8_sample :: "8 word list \<Rightarrow> real" where
  "uint8_sample bs = (of_int (uint (word_of_int (le_int bs) :: 8 word)) - 128) / 128"

definition decode_samples :: "nat \<Rightarrow> 8 word list \<Rightarrow> real list result" where
  "decode_samples width raw =
     (if width = 2 then frombuffer 2 int16_sample raw
      else if width = 4 then frombuffer 4 int32_sample raw
      else if width = 1 then frombuffer 1 uint8_sample raw
      else Inl (ValueError (''unsupported WAV sample width: '' @ nat_dec width @ '' bytes'')))"

text \<open>\<open>arr.reshape(-1, n).mean(axis=1)\<close>\<close>

definition mix_down :: "nat \<Rightarrow> real list \<Rightarrow> real list result" where
  "mix_down n arr =
     (if n \<le> 1 then Inr arr
      else if length arr mod n \<noteq> 0 then Inl (ValueError ''cannot reshape array'')
      else Inr (map (\<lambda>fr. sum_list fr / of_nat n) (chunks n arr)))"

text \<open>\<open>round()\<close>: to the nearest integer, a tie to the even one.\<close>

definition round_even :: "real \<Rightarrow> int" where
  "round_even r =
     (let f = \<lfloor>r\<rfloor>; d = r - of_int f
      in if d < 1 / 2 then f else if 1 / 2 < d then f + 1 else if even f then f else f + 1)"

definition linspace01 :: "nat \<Rightarrow> real list" where
  "linspace01 n = map (\<lambda>i. of_nat i / of_nat n) [0..<n]"

definition resample ::
    "(real list \<Rightarrow> real list \<Rightarrow> real list \<Rightarrow> real list result) \<Rightarrow> nat \<Rightarrow> real list \<Rightarrow> real list result" where
  "resample np_interp rate arr =
     (if rate = 16000 then Inr arr
      else if rate = 0 then Inl (ZeroDivisionError ''division by zero'')
      else
        let n_out = nat (round_even (of_nat (length arr * 16000) / of_nat rate))
        in np_interp (linspace01 n_out) (linspace01 (length arr)) arr)"

definition load_wav ::
    "(real list \<Rightarrow> real list \<Rightarrow> real list \<Rightarrow> real list result) \<Rightarrow> wav \<Rightarrow> real list result" where
  "load_wav np_interp wv =
     rbind (decode_samples (sampwidth wv) (raw_bytes wv)) (\<lambda>arr.
     rbind (mix_down (n_channels wv) arr) (\<lambda>mono.
       resample np_interp (framerate wv) mono))"

section \<open>Properties\<close>

lemma chunks_Nil [simp]: "chunks n [] = []"
  by (simp add: chunks.simps [of n "[]"])

lemma chunks_length: "c \<in> set (chunks n xs) \<Longrightarrow> n dvd length xs \<Longrightarrow> length c = n"
proof (induction n xs rule: chunks.induct)
  case (1 n xs)
  show ?case
  proof (cases "n = 0 \<or> xs = []")
    case True
    with 1 show ?thesis by (simp add: chunks.simps [of n xs])
  next
    case False
    with "1.prems" have "n \<le> length xs" by (auto dest: dvd_imp_le)
    moreover have "n dvd length (drop n xs)" using "1.prems"(2) by (simp add: dvd_diff_nat)
    ultimately show ?thesis using 1 False by (auto simp: chunks.simps [of n xs])
  qed
qed

lemma chunks_subset: "c \<in> set (chunks n xs) \<Longrightarrow> set c \<subseteq> set xs"
proof (induction n xs rule: chunks.induct)
  case (1 n xs)
  then show ?case
    by (cases "n = 0 \<or> xs = []") (auto simp: chunks.simps [of n xs] dest!: in_set_takeD in_set_dropD)
qed

lemma length_chunks: "0 < n \<Longrightarrow> n dvd length xs \<Longrightarrow> length (chunks n xs) = length xs div n"
proof (induction n xs rule: chunks.induct)
  case (1 n xs)
  show ?case
  proof (cases "xs = []")
    case True
    then show ?thesis by (simp add: chunks.simps [of n xs])
  next
    case False
    with "1.prems" have "n \<le> length xs" by (auto dest: dvd_imp_le)
    moreover have "n dvd length (drop n xs)" using "1.prems"(2) by (simp add: dvd_diff_nat)
    ultimately show ?thesis
      using 1 False by (simp add: chunks.simps [of n xs] le_div_geq)
  qed
qed

text \<open>Samples of full scale.\<close>

definition in_range :: "real list \<Rightarrow> bool" where
  "in_range xs \<longleftrightarrow> (\<forall>x\<in>set xs. - 1 \<le> x \<and> x \<le> 1)"

lemma scale_bounds:
  fixes k n :: int
  assumes "- n \<le> k" and "k < n"
  shows "- 1 \<le> real_of_int k / real_of_int n \<and> real_of_int k / real_of_int n \<le> 1"
proof -
  have "0 < real_of_int n" "- real_of_int n \<le> real_of_int k" "real_of_int k \<le> real_of_int n"
    using assms by linarith+
  then show ?thesis by (simp add: field_simps)
qed

lemma sample_bounds:
  "- 1 \<le> int16_sample bs \<and> int16_sample bs \<le> 1"
  "- 1 \<le> int32_sample bs \<and> int32_sample bs \<le> 1"
  "- 1 \<le> uint8_sample bs \<and> uint8_sample bs \<le> 1"
proof -
  have "- 32768 \<le> sint (word_of_int (le_int bs) :: 16 word)" "sint (word_of_int (le_int bs) :: 16 word) < 32768"
    using sint_range_size [of "word_of_int (le_int bs) :: 16 word"] by (simp_all add: word_size)
  from scale_bounds [OF this] show "- 1 \<le> int16_sample bs \<and> int16_sample bs \<le> 1"
    by (simp add: int16_sample_def)
  have "- 2147483648 \<le> sint (word_of_int (le_int bs) :: 32 word)"
    "sint (word_of_int (le_int bs) :: 32 word) < 2147483648"
    using sint_range_size [of "word_of_int (le_int bs) :: 32 word"] by (simp_all add: word_size)
  from scale_bounds [OF this] show "- 1 \<le> int32_sample bs \<and> int32_sample bs \<le> 1"
    by (simp add: int32_sample_def)
  have "- 128 \<le> uint (word_of_int (le_int bs) :: 8 word) - 128" "uint (word_of_int (le_int bs) :: 8 word) - 128 < 128"
    using uint_lt2p [of "word_of_int (le_int bs) :: 8 word"] by simp_all
  from scale_bounds [OF this] show "- 1 \<le> uint8_sample bs \<and> uint8_sample bs \<le> 1"
    by (simp add: uint8_sample_def)
qed

lemma decode_in_range: "decode_samples w raw = Inr xs \<Longrightarrow> in_range xs"
  using sample_bounds by (auto simp: decode_samples_def frombuffer_def in_range_def split: if_splits)

lemma mix_in_range:
  assumes "in_range xs" and "mix_down n xs = Inr ys"
  shows "in_range ys"
proof (cases "n \<le> 1")
  case True
  with assms show ?thesis by (simp add: mix_down_def)
next
  case False
  then have ys: "ys = map (\<lambda>fr. sum_list fr / of_nat n) (chunks n xs)" and d: "n dvd length xs"
    using assms(2) by (auto simp: mix_down_def split: if_splits)
  have "- 1 \<le> sum_list fr / of_nat n \<and> sum_list fr / of_nat n \<le> 1" if "fr \<in> set (chunks n xs)" for fr
  proof -
    have len: "length fr = n" using chunks_length [OF that d] .
    have "\<forall>x\<in>set fr. - 1 \<le> x \<and> x \<le> 1" using chunks_subset [OF that] assms(1) by (auto simp: in_range_def)
    then have "- real (length fr) \<le> sum_list fr \<and> sum_list fr \<le> real (length fr)"
      by (induction fr) auto
    with len False show ?thesis by (simp add: field_simps)
  qed
  then show ?thesis by (auto simp: ys in_range_def)
qed

text \<open>What is assumed of \<open>np.interp\<close>: a value for each point, between two of the values given.\<close>

definition interpolates :: "(real list \<Rightarrow> real list \<Rightarrow> real list \<Rightarrow> real list result) \<Rightarrow> bool" where
  "interpolates itp \<longleftrightarrow> (\<forall>x xp fp ys. itp x xp fp = Inr ys \<longrightarrow> length ys = length x
     \<and> (\<forall>y\<in>set ys. \<exists>a\<in>set fp. \<exists>b\<in>set fp. a \<le> y \<and> y \<le> b))"

text \<open>
  Whatever the width, the number of channels and the rate of a clip, the samples that are loaded
  lie between -1 and 1; a clip at 16 kHz gives one sample for each frame, another one the number of
  frames scaled to 16 kHz and rounded.
\<close>

theorem loaded_samples_in_range:
  assumes "interpolates itp" and "load_wav itp wv = Inr xs" and "0 < n_channels wv"
  shows "in_range xs \<and>
    (let frames = length (raw_bytes wv) div sampwidth wv div n_channels wv
     in length xs = (if framerate wv = 16000 then frames
          else nat (round_even (of_nat (frames * 16000) / of_nat (framerate wv)))))"
proof -
  obtain arr mono where d: "decode_samples (sampwidth wv) (raw_bytes wv) = Inr arr"
    and m: "mix_down (n_channels wv) arr = Inr mono" and r: "resample itp (framerate wv) mono = Inr xs"
    using assms(2) by (auto simp: load_wav_def rbind_Inr_iff)
  have rng: "in_range mono" using mix_in_range [OF decode_in_range [OF d] m] .
  have "length arr = length (raw_bytes wv) div sampwidth wv"
    using d length_chunks [of _ "raw_bytes wv"]
    by (auto simp: decode_samples_def frombuffer_def split: if_splits)
  moreover have "length mono = length arr div n_channels wv"
    using m length_chunks [of "n_channels wv" arr] assms(3)
    by (cases "n_channels wv = 1") (auto simp: mix_down_def mod_eq_0_iff_dvd split: if_splits)
  ultimately have len: "length mono = length (raw_bytes wv) div sampwidth wv div n_channels wv" by simp
  show ?thesis
  proof (cases "framerate wv = 16000")
    case True
    with r rng len show ?thesis by (simp add: resample_def)
  next
    case False
    with r have i: "itp (linspace01 (nat (round_even (of_nat (length mono * 16000) / of_nat (framerate wv)))))
        (linspace01 (length mono)) mono = Inr xs"
      by (auto simp: resample_def Let_def split: if_splits)
    with assms(1) have "length xs = nat (round_even (of_nat (length mono * 16000) / of_nat (framerate wv)))"
      and b: "\<forall>y\<in>set xs. \<exists>a\<in>set mono. \<exists>b\<in>set mono. a \<le> y \<and> y \<le> b"
      by (auto simp: interpolates_def linspace01_def)
    moreover have "in_range xs" using b rng unfolding in_range_def by fastforce
    ultimately show ?thesis using False len by simp
  qed
qed

text \<open>An interpolation: the sample at or before the point.\<close>

definition nearest :: "real list \<Rightarrow> real list \<Rightarrow> real list \<Rightarrow> real list result" where
  "nearest x xp fp =
     (if fp = [] then Inl (ValueError ''array of sample points is empty'')
      else Inr (map (\<lambda>t. fp ! min (nat \<lfloor>t * of_nat (length fp)\<rfloor>) (length fp - 1)) x))"

definition short_clip :: wav where
  "short_clip = \<lparr>n_channels = 2, sampwidth = 1, framerate = 8000, raw_bytes = [0, 255, 128, 128]\<rparr>"

theorem loaded_samples_in_range_witness:
  "\<exists>xs. load_wav nearest short_clip = Inr xs \<and> in_range xs \<and> length xs = 4"
proof -
  have "interpolates nearest"
    unfolding interpolates_def
  proof (intro allI impI conjI ballI)
    fix x xp fp ys y
    assume n: "nearest x xp fp = Inr ys"
    then show "length ys = length x" by (auto simp: nearest_def split: if_splits)
    assume "y \<in> set ys"
    with n have "y \<in> set fp"
      by (auto simp: nearest_def min_less_iff_disj split: if_splits intro!: nth_mem)
    then show "\<exists>a\<in>set fp. \<exists>b\<in>set fp. a \<le> y \<and> y \<le> b" by blast
  qed
  have r: "round_even 4 = 4" by (simp add: round_even_def)
  have "\<exists>xs. load_wav nearest short_clip = Inr xs"
    by (simp add: load_wav_def short_clip_def decode_samples_def frombuffer_def mix_down_def resample_def
        chunks.simps nearest_def Let_def)
  then obtain xs where xs: "load_wav nearest short_clip = Inr xs" by blast
  from loaded_samples_in_range [OF \<open>interpolates nearest\<close> xs] xs show ?thesis
    by (simp add: short_clip_def Let_def r)
qed

end
