(* ===== verification/Speech.thy ===== *)
theory Speech
  imports Stt Whisper
begin

text \<open>
  The speech service with its backend: \<open>_get_whisper\<close> of \<open>python/services/stt/main.py\<close> builds the
  backend from the configuration, and the mode for a clip loads, transcribes and sends it.
\<close>

definition get_whisper ::
    "(pyval \<Rightarrow> pyval \<Rightarrow> pyval \<Rightarrow> (real list \<Rightarrow> pyval \<Rightarrow> string list result) result) \<Rightarrow> pydict \<Rightarrow> whisper result" where
  "get_whisper load cfg =
     new_whisper load
       (cfg_get cfg ''stt.whisper_model'' (PStr ''small'')) (cfg_get cfg ''stt.whisper_device'' (PStr ''auto''))
       (cfg_get cfg ''stt.whisper_compute_type'' PNone) (cfg_get cfg ''stt.whisper_language'' PNone)"

text \<open>The backend comes first, then the clip is opened; opening it may raise.\<close>

definition clip_transcript ::
    "(pyval \<Rightarrow> pyval \<Rightarrow> pyval \<Rightarrow> (real list \<Rightarrow> pyval \<Rightarrow> string list result) result)
     \<Rightarrow> (real list \<Rightarrow> real list \<Rightarrow> real list \<Rightarrow> real list result) \<Rightarrow> wav result \<Rightarrow> pydict \<Rightarrow> string result" where
  "clip_transcript load np_interp clip cfg =
     rbind (get_whisper load cfg) (\<lambda>w.
     rbind clip (\<lambda>wv.
     rbind (load_wav np_interp wv) (transcribe w)))"

definition run_clip ::
    "(pyval \<Rightarrow> pyval \<Rightarrow> pyval \<Rightarrow> (real list \<Rightarrow> pyval \<Rightarrow> string list result) result)
     \<Rightarrow> (real list \<Rightarrow> real list \<Rightarrow> real list \<Rightarrow> real list result) \<Rightarrow> wav result \<Rightarrow> stt \<Rightarrow> stt result" where
  "run_clip load np_interp clip s = run_audio_file (clip_transcript load np_interp clip (s_cfg s)) s"

lemma transcribe_stripped: "transcribe w audio = Inr t \<Longrightarrow> strip t = t"
  by (auto simp: transcribe_def rbind_Inr_iff strip_Nil_iff split: if_splits)

text \<open>A clip becomes one command with the transcript as its text, or none if nothing was heard.\<close>

lemma clip_sends_transcript:
  assumes "run_clip load np_interp clip s = Inr s'"
  shows "\<exists>t. clip_transcript load np_interp clip (s_cfg s) = Inr t
    \<and> s_sent s' = s_sent s @ (if t = [] then [] else [command_asdict (command_of s t)])"
proof -
  obtain t where t: "clip_transcript load np_interp clip (s_cfg s) = Inr t"
    "s' = (if t = [] then s else fst (stt_send (Some t) s))"
    using assms by (auto simp: run_clip_def run_audio_file_def rbind_Inr_iff)
  then have "strip t = t" by (auto simp: clip_transcript_def rbind_Inr_iff intro: transcribe_stripped)
  with t show ?thesis by (auto simp: stt_send_sent)
qed

end
