(* ===== verification/Json.thy ===== *)
theory Json
  imports Messages
begin

text \<open>
  The JSON text of a header: what \<open>json.dumps\<close> prints for a value and what \<open>json.loads\<close> reads,
  with \<open>encode_header\<close> and \<open>decode_header\<close> of \<open>python/lexaire/messages.py\<close> on top. Strings print
  as ASCII. The reader works on Latin-1 text (see \<open>PyText\<close>): an escape beyond it is an error of the
  model. The decimal of a finite float is the argument \<open>frepr\<close>; the reader reads any decimal.
  Encoding and decoding are an interface, \<open>json_codec\<close>, with the model as its interpretation.
\<close>

section \<open>Printing\<close>

definition escape_char :: "char \<Rightarrow> string" where
  "escape_char c =
     (if c = CHR 0x22 \<or> c = CHR 0x5C then [CHR 0x5C, c]
      else if c = CHR 0x0A then [CHR 0x5C, CHR ''n'']
      else if c = CHR 0x0D then [CHR 0x5C, CHR ''r'']
      else if c = CHR 0x09 then [CHR 0x5C, CHR ''t'']
      else if c = CHR 0x0C then [CHR 0x5C, CHR ''f'']
      else if c = CHR 0x08 then [CHR 0x5C, CHR ''b'']
      else if 32 \<le> (of_char c :: nat) \<and> (of_char c :: nat) \<le> 126 then [c]
      else [CHR 0x5C, CHR ''u'', CHR ''0'', CHR ''0'', hex_digit (of_char c div 16), hex_digit (of_char c mod 16)])"

definition json_string :: "string \<Rightarrow> string" where
  "json_string s = CHR 0x22 # concat (map escape_char s) @ [CHR 0x22]"

definition json_float :: "(pyfloat \<Rightarrow> string) \<Rightarrow> pyfloat \<Rightarrow> string" where
  "json_float frepr x = (case x of
     NaN \<Rightarrow> ''NaN'' | PInf \<Rightarrow> ''Infinity'' | NInf \<Rightarrow> ''-Infinity'' | Fin _ \<Rightarrow> frepr x)"

text \<open>\<open>separators=(",", ":")\<close> or the default with blanks.\<close>

fun dumps :: "bool \<Rightarrow> (pyfloat \<Rightarrow> string) \<Rightarrow> pyval \<Rightarrow> string" where
  "dumps tight frepr PNone = ''null''"
| "dumps tight frepr (PBool b) = (if b then ''true'' else ''false'')"
| "dumps tight frepr (PInt i) = int_dec i"
| "dumps tight frepr (PFloat x) = json_float frepr x"
| "dumps tight frepr (PStr s) = json_string s"
| "dumps tight frepr (PList vs) =
     ''['' @ join (if tight then '','' else '', '') (map (dumps tight frepr) vs) @ '']''"
| "dumps tight frepr (PDict d) =
     ''{'' @ join (if tight then '','' else '', '')
       (map (\<lambda>(k, v). json_string k @ (if tight then '':'' else '': '') @ dumps tight frepr v) d) @ ''}''"

section \<open>Reading\<close>

definition json_error :: "py_error" where
  "json_error = ValueError ''JSONDecodeError''"

definition is_json_ws :: "char \<Rightarrow> bool" where
  "is_json_ws c = (c = CHR '' '' \<or> c = CHR 0x09 \<or> c = CHR 0x0A \<or> c = CHR 0x0D)"

definition skip_ws :: "string \<Rightarrow> string" where
  "skip_ws s = dropWhile is_json_ws s"

definition hex_val :: "char \<Rightarrow> nat option" where
  "hex_val c = (let n = of_char c in
     if 48 \<le> n \<and> n \<le> 57 then Some (n - 48) else if 97 \<le> n \<and> n \<le> 102 then Some (n - 87)
     else if 65 \<le> n \<and> n \<le> 70 then Some (n - 55) else None)"

definition hex4 :: "string \<Rightarrow> char option" where
  "hex4 ds = (case map hex_val ds of
     [Some a, Some b, Some c, Some d] \<Rightarrow>
       (let n = ((a * 16 + b) * 16 + c) * 16 + d in if n < 256 then Some (char_of n) else None)
   | _ \<Rightarrow> None)"

definition unescape :: "char \<Rightarrow> char option" where
  "unescape e =
     (if e = CHR 0x22 \<or> e = CHR 0x5C \<or> e = CHR ''/'' then Some e
      else if e = CHR ''n'' then Some (CHR 0x0A) else if e = CHR ''r'' then Some (CHR 0x0D)
      else if e = CHR ''t'' then Some (CHR 0x09) else if e = CHR ''f'' then Some (CHR 0x0C)
      else if e = CHR ''b'' then Some (CHR 0x08) else None)"

text \<open>The rest of a string after its opening quote: its characters, and what follows it.\<close>

function scan_str :: "string \<Rightarrow> (string \<times> string) result" where
  "scan_str s =
     (case s of
        [] \<Rightarrow> Inl json_error
      | c # r \<Rightarrow>
          (if c = CHR 0x22 then Inr ([], r)
           else if c = CHR 0x5C then
             (case r of
                [] \<Rightarrow> Inl json_error
              | e # r' \<Rightarrow>
                  (if e = CHR ''u'' then
                     (case hex4 (take 4 r') of
                        None \<Rightarrow> Inl json_error
                      | Some ch \<Rightarrow> rbind (scan_str (drop 4 r')) (\<lambda>(t, u). Inr (ch # t, u)))
                   else (case unescape e of
                        None \<Rightarrow> Inl json_error
                      | Some ch \<Rightarrow> rbind (scan_str r') (\<lambda>(t, u). Inr (ch # t, u)))))
           else if (of_char c :: nat) < 32 then Inl json_error
           else rbind (scan_str r) (\<lambda>(t, u). Inr (c # t, u))))"
  by pat_completeness auto
termination
  by (relation "measure length") auto

declare scan_str.simps [simp del]

text \<open>
  A number: an optional sign, a zero or digits without a leading zero; with a fraction or an exponent
  it is a float.
\<close>

definition take_digits :: "string \<Rightarrow> string \<times> string" where
  "take_digits s = (takeWhile is_digit s, dropWhile is_digit s)"

definition scan_frac :: "string \<Rightarrow> string \<times> string" where
  "scan_frac s = (case s of
     c # r \<Rightarrow> (if c = CHR ''.'' then (let (ds, r') = take_digits r in if ds = [] then ([], s) else (c # ds, r')) else ([], s))
   | [] \<Rightarrow> ([], s))"

definition scan_exp :: "string \<Rightarrow> string \<times> string" where
  "scan_exp s = (case s of
     c # r \<Rightarrow>
       (if c = CHR ''e'' \<or> c = CHR ''E'' then
          (let (sg, r1) = (case r of d # r' \<Rightarrow> (if d = CHR ''-'' \<or> d = CHR ''+'' then ([d], r') else ([], r)) | [] \<Rightarrow> ([], r));
               (ds, r2) = take_digits r1
           in if ds = [] then ([], s) else (c # sg @ ds, r2))
        else ([], s))
   | [] \<Rightarrow> ([], s))"

definition digits_val :: "string \<Rightarrow> nat" where
  "digits_val ds = foldl (\<lambda>v c. 10 * v + digit_val c) 0 ds"

definition scan_sign :: "string \<Rightarrow> bool \<times> string" where
  "scan_sign s = (case s of c # r \<Rightarrow> (if c = CHR ''-'' then (True, r) else (False, s)) | [] \<Rightarrow> (False, s))"

definition scan_int_part :: "string \<Rightarrow> string \<times> string" where
  "scan_int_part s =
     (let (ds, r) = take_digits s
      in case ds of [] \<Rightarrow> ([], s) | d # ds' \<Rightarrow> (if d = CHR ''0'' then ([d], ds' @ r) else (ds, r)))"

definition scan_number :: "string \<Rightarrow> (pyval \<times> string) result" where
  "scan_number s =
     (let (neg, r) = scan_sign s; (int_part, r1) = scan_int_part r
      in if int_part = [] then Inl json_error
         else
           let (frac, r2) = scan_frac r1; (ex, r3) = scan_exp r2
           in if frac = [] \<and> ex = [] then
                Inr (PInt (if neg then - int (digits_val int_part) else int (digits_val int_part)), r3)
              else (case py_float_of_str ((if neg then ''-'' else []) @ int_part @ frac @ ex) of
                  Some x \<Rightarrow> Inr (PFloat x, r3)
                | None \<Rightarrow> Inl json_error))"

text \<open>A constant word at the front.\<close>

definition word :: "string \<Rightarrow> pyval \<Rightarrow> string \<Rightarrow> (pyval \<times> string) option" where
  "word w v s = (if startswith s w then Some (v, drop (length w) s) else None)"

definition first_some :: "'a option list \<Rightarrow> 'a option" where
  "first_some xs = (case dropWhile (\<lambda>x. x = None) xs of x # _ \<Rightarrow> x | [] \<Rightarrow> None)"

definition scan_atom :: "string \<Rightarrow> (pyval \<times> string) result" where
  "scan_atom s = (case first_some [word ''null'' PNone s, word ''true'' (PBool True) s, word ''false'' (PBool False) s,
       word ''NaN'' (PFloat NaN) s, word ''Infinity'' (PFloat PInf) s, word ''-Infinity'' (PFloat NInf) s] of
     Some r \<Rightarrow> Inr r | None \<Rightarrow> scan_number s)"

text \<open>Later items of a key replace earlier ones in place.\<close>

definition dict_of :: "(string \<times> pyval) list \<Rightarrow> pydict" where
  "dict_of kvs = foldl (\<lambda>d (k, v). AList.update k v d) [] kvs"

text \<open>
  The scanner. The number bounds the depth of the recursion; \<open>loads\<close> gives it twice the length of the
  text, which is enough.
\<close>

definition no_fuel :: "py_error" where "no_fuel = RuntimeError ''fuel''"

fun pval :: "nat \<Rightarrow> string \<Rightarrow> (pyval \<times> string) result"
  and parr :: "nat \<Rightarrow> string \<Rightarrow> (pyval list \<times> string) result"
  and pobj :: "nat \<Rightarrow> string \<Rightarrow> ((string \<times> pyval) list \<times> string) result" where
  "pval 0 s = Inl no_fuel"
| "pval (Suc n) s =
     (case s of
        [] \<Rightarrow> Inl json_error
      | c # r \<Rightarrow>
          (if c = CHR 0x22 then rbind (scan_str r) (\<lambda>(t, u). Inr (PStr t, u))
           else if c = CHR ''['' then
             (if skip_ws r \<noteq> [] \<and> hd (skip_ws r) = CHR '']'' then Inr (PList [], tl (skip_ws r))
              else rbind (parr n (skip_ws r)) (\<lambda>(vs, u). Inr (PList vs, u)))
           else if c = CHR ''{'' then
             (if skip_ws r \<noteq> [] \<and> hd (skip_ws r) = CHR ''}'' then Inr (PDict [], tl (skip_ws r))
              else rbind (pobj n (skip_ws r)) (\<lambda>(kvs, u). Inr (PDict (dict_of kvs), u)))
           else scan_atom s))"
| "parr 0 s = Inl no_fuel"
| "parr (Suc n) s =
     rbind (pval n s) (\<lambda>(v, r).
       case skip_ws r of
         [] \<Rightarrow> Inl json_error
       | c # u \<Rightarrow>
           (if c = CHR '']'' then Inr ([v], u)
            else if c = CHR '','' then rbind (parr n (skip_ws u)) (\<lambda>(vs, w). Inr (v # vs, w))
            else Inl json_error))"
| "pobj 0 s = Inl no_fuel"
| "pobj (Suc n) s =
     (case s of
        [] \<Rightarrow> Inl json_error
      | q # r \<Rightarrow>
          (if q \<noteq> CHR 0x22 then Inl json_error
           else
             rbind (scan_str r) (\<lambda>(k, r1).
               case skip_ws r1 of
                 [] \<Rightarrow> Inl json_error
               | c # r2 \<Rightarrow>
                   (if c \<noteq> CHR '':'' then Inl json_error
                    else
                      rbind (pval n (skip_ws r2)) (\<lambda>(v, r3).
                        case skip_ws r3 of
                          [] \<Rightarrow> Inl json_error
                        | e # u \<Rightarrow>
                            (if e = CHR ''}'' then Inr ([(k, v)], u)
                             else if e = CHR '','' then rbind (pobj n (skip_ws u)) (\<lambda>(kvs, w). Inr ((k, v) # kvs, w))
                             else Inl json_error))))))"

definition loads :: "string \<Rightarrow> pyval result" where
  "loads s =
     rbind (pval (2 * length s + 2) (skip_ws s)) (\<lambda>(v, r).
       if skip_ws r = [] then Inr v else Inl json_error)"

section \<open>Headers\<close>

text \<open>\<open>frame.decode("utf-8")\<close>, for text within Latin-1.\<close>

fun utf8_decode :: "string \<Rightarrow> string result" where
  "utf8_decode [] = Inr []"
| "utf8_decode [c] = (if (of_char c :: nat) < 128 then Inr [c] else Inl (ValueError ''UnicodeDecodeError''))"
| "utf8_decode (c # d # cs) =
     (let n = of_char c; m = of_char d in
      if n < 128 then rbind (utf8_decode (d # cs)) (\<lambda>t. Inr (c # t))
      else if (n = 194 \<or> n = 195) \<and> 128 \<le> m \<and> m < (192 :: nat) then
        rbind (utf8_decode cs) (\<lambda>t. Inr (char_of ((n - 192) * 64 + (m - 128)) # t))
      else Inl (ValueError ''UnicodeDecodeError''))"

definition encode_header :: "(pyfloat \<Rightarrow> string) \<Rightarrow> pyval \<Rightarrow> string" where
  "encode_header frepr v = dumps True frepr v"

definition decode_header :: "string \<Rightarrow> pyval result" where
  "decode_header frame = rbind (utf8_decode frame) loads"

section \<open>What is read is what was printed\<close>

text \<open>
  The text of a float as \<open>repr\<close> gives it: printable, a digit after an optional minus sign, and read
  back by the scanner as the same float. That \<open>float(repr(x)) == x\<close> is Python's promise for a finite
  float; here it is a hypothesis on \<open>frepr\<close> for the floats of a value.
\<close>

definition ends_number :: "string \<Rightarrow> bool" where
  "ends_number s = (case s of [] \<Rightarrow> True
     | c # _ \<Rightarrow> \<not> is_digit c \<and> c \<noteq> CHR ''.'' \<and> c \<noteq> CHR ''e'' \<and> c \<noteq> CHR ''E'')"

definition printable :: "string \<Rightarrow> bool" where
  "printable s \<longleftrightarrow> (\<forall>c\<in>set s. 32 \<le> (of_char c :: nat) \<and> (of_char c :: nat) < 127)"

definition float_text :: "(pyfloat \<Rightarrow> string) \<Rightarrow> pyfloat \<Rightarrow> bool" where
  "float_text frepr x \<longleftrightarrow>
     printable (frepr x)
     \<and> (\<exists>d ds. is_digit d \<and> (frepr x = d # ds \<or> frepr x = CHR ''-'' # d # ds))
     \<and> (\<forall>rest. ends_number rest \<longrightarrow> scan_number (frepr x @ rest) = Inr (PFloat x, rest))"

text \<open>The values whose floats have such a text and whose dictionaries have no key twice.\<close>

fun jsonable :: "(pyfloat \<Rightarrow> string) \<Rightarrow> pyval \<Rightarrow> bool" where
  "jsonable frepr (PFloat x) = ((\<forall>r. x \<noteq> Fin r) \<or> float_text frepr x)"
| "jsonable frepr (PList vs) = list_all (jsonable frepr) vs"
| "jsonable frepr (PDict d) = (distinct (map fst d) \<and> list_all (\<lambda>(k, v). jsonable frepr v) d)"
| "jsonable frepr v = True"

lemma hex_val_digit: "d < 16 \<Longrightarrow> hex_val (hex_digit d) = Some d"
  by (auto simp: hex_val_def hex_digit_def of_char_of Let_def)

lemma hex4_digits:
  "n < 256 \<Longrightarrow> hex4 [CHR ''0'', CHR ''0'', hex_digit (n div 16), hex_digit (n mod 16)] = Some (char_of n)"
proof -
  assume n: "n < 256"
  have "hex_val (CHR ''0'') = Some 0" by (simp add: hex_val_def)
  moreover have "hex_val (hex_digit (n div 16)) = Some (n div 16)" "hex_val (hex_digit (n mod 16)) = Some (n mod 16)"
    using n by (simp_all add: hex_val_digit)
  ultimately show ?thesis using n by (simp add: hex4_def Let_def)
qed

lemma escape_char_cases:
  obtains (esc) e where "escape_char c = [CHR 0x5C, e]" "unescape e = Some c" "e \<noteq> CHR ''u''"
    | (plain) "escape_char c = [c]" "c \<noteq> CHR 0x22" "c \<noteq> CHR 0x5C" "\<not> (of_char c :: nat) < 32"
    | (hex) "escape_char c = [CHR 0x5C, CHR ''u'', CHR ''0'', CHR ''0'', hex_digit (of_char c div 16), hex_digit (of_char c mod 16)]"
proof -
  consider "c = CHR 0x22" | "c = CHR 0x5C" | "c = CHR 0x0A" | "c = CHR 0x0D" | "c = CHR 0x09"
    | "c = CHR 0x0C" | "c = CHR 0x08"
    | (other) "c \<noteq> CHR 0x22 \<and> c \<noteq> CHR 0x5C \<and> c \<noteq> CHR 0x0A \<and> c \<noteq> CHR 0x0D \<and> c \<noteq> CHR 0x09
        \<and> c \<noteq> CHR 0x0C \<and> c \<noteq> CHR 0x08"
    by blast
  then show thesis
  proof cases
    case 1
    then show thesis by (intro esc [of "CHR 0x22"]) (simp_all add: escape_char_def unescape_def)
  next
    case 2
    then show thesis by (intro esc [of "CHR 0x5C"]) (simp_all add: escape_char_def unescape_def)
  next
    case 3
    then show thesis by (intro esc [of "CHR ''n''"]) (simp_all add: escape_char_def unescape_def)
  next
    case 4
    then show thesis by (intro esc [of "CHR ''r''"]) (simp_all add: escape_char_def unescape_def)
  next
    case 5
    then show thesis by (intro esc [of "CHR ''t''"]) (simp_all add: escape_char_def unescape_def)
  next
    case 6
    then show thesis by (intro esc [of "CHR ''f''"]) (simp_all add: escape_char_def unescape_def)
  next
    case 7
    then show thesis by (intro esc [of "CHR ''b''"]) (simp_all add: escape_char_def unescape_def)
  next
    case other
    then show thesis
      using plain hex by (cases "32 \<le> (of_char c :: nat) \<and> (of_char c :: nat) \<le> 126") (auto simp: escape_char_def)
  qed
qed

lemma scan_str_escape:
  "scan_str (concat (map escape_char s) @ CHR 0x22 # rest) = Inr (s, rest)"
proof (induction s)
  case Nil
  then show ?case by (simp add: scan_str.simps [of "CHR 0x22 # rest"])
next
  case (Cons c s)
  let ?t = "concat (map escape_char s) @ CHR 0x22 # rest"
  have unfold: "concat (map escape_char (c # s)) @ CHR 0x22 # rest = escape_char c @ ?t" by simp
  consider (esc) e where "escape_char c = [CHR 0x5C, e]" "unescape e = Some c" "e \<noteq> CHR ''u''"
    | (plain) "escape_char c = [c]" "c \<noteq> CHR 0x22" "c \<noteq> CHR 0x5C" "\<not> (of_char c :: nat) < 32"
    | (hex) "escape_char c = [CHR 0x5C, CHR ''u'', CHR ''0'', CHR ''0'', hex_digit (of_char c div 16), hex_digit (of_char c mod 16)]"
    by (rule escape_char_cases)
  then show ?case
  proof cases
    case (esc e)
    then show ?thesis
      unfolding unfold using Cons.IH by (simp add: scan_str.simps [of "CHR 0x5C # e # ?t"])
  next
    case plain
    then show ?thesis
      unfolding unfold using Cons.IH by (simp add: scan_str.simps [of "c # ?t"])
  next
    case hex
    have "hex4 [CHR ''0'', CHR ''0'', hex_digit (of_char c div 16), hex_digit (of_char c mod 16)] = Some c"
      using hex4_digits [of "of_char c"] nat_of_char_less_256 [of c] by simp
    then show ?thesis
      unfolding unfold hex using Cons.IH
      by (subst scan_str.simps) simp
  qed
qed

lemma scan_json_string: "scan_str (tl (json_string s) @ rest) = Inr (s, rest)"
  by (simp add: json_string_def scan_str_escape)

text \<open>Text that cannot continue a number.\<close>

lemma take_digits_nat_dec:
  "ends_number rest \<Longrightarrow> take_digits (nat_dec n @ rest) = (nat_dec n, rest)"
  using nat_dec_digits [of _ n]
  by (cases rest) (auto simp: take_digits_def ends_number_def takeWhile_append dropWhile_append)

lemma hd_nat_dec: "0 < n \<Longrightarrow> hd (nat_dec n) \<noteq> CHR ''0''"
proof (induction n rule: nat_dec.induct)
  case (1 n)
  show ?case
  proof (cases "n < 10")
    case True
    then have "of_char (hd (nat_dec n)) = 48 + n" by (simp add: nat_dec.simps [of n] digit_char_def of_char_of)
    with "1.prems" show ?thesis by auto
  next
    case False
    then have "hd (nat_dec n) = hd (nat_dec (n div 10))" by (subst nat_dec.simps) simp
    with 1 False show ?thesis by simp
  qed
qed

lemma nat_dec_0 [simp]: "nat_dec 0 = ''0''"
  by code_simp

lemma digits_val_nat_dec [simp]: "digits_val (nat_dec n) = n"
  by (simp add: digits_val_def foldl_nat_dec)

lemma ends_number_scan: "ends_number rest \<Longrightarrow> scan_frac rest = ([], rest) \<and> scan_exp rest = ([], rest)"
  by (cases rest) (auto simp: ends_number_def scan_frac_def scan_exp_def)

lemma scan_int_part_nat_dec:
  assumes "ends_number rest"
  shows "scan_int_part (nat_dec n @ rest) = (nat_dec n, rest)"
proof (cases "n = 0")
  case True
  with assms show ?thesis
    using take_digits_nat_dec [OF assms, of 0] by (simp add: scan_int_part_def)
next
  case False
  then obtain d ds where "nat_dec n = d # ds" "d \<noteq> CHR ''0''"
    using hd_nat_dec [of n] by (cases "nat_dec n") auto
  with take_digits_nat_dec [OF assms, of n] show ?thesis by (simp add: scan_int_part_def)
qed

lemma hd_nat_dec_digit: "is_digit (hd (nat_dec n))"
  using nat_dec_digits [of "hd (nat_dec n)" n] by simp

lemma scan_number_int:
  assumes "ends_number rest"
  shows "scan_number (int_dec i @ rest) = Inr (PInt i, rest)"
proof -
  have sign: "scan_sign (int_dec i @ rest) = (i < 0, nat_dec (nat \<bar>i\<bar>) @ rest)"
  proof (cases "i < 0")
    case True
    then show ?thesis by (simp add: scan_sign_def int_dec_def abs_if)
  next
    case False
    obtain d ds where d: "nat_dec (nat i) = d # ds" by (cases "nat_dec (nat i)") auto
    then have "d \<noteq> CHR ''-''" using hd_nat_dec_digit [of "nat i"] by (auto simp: is_digit_def)
    with False d show ?thesis by (simp add: scan_sign_def int_dec_def abs_if)
  qed
  show ?thesis
    using scan_int_part_nat_dec [OF assms, of "nat \<bar>i\<bar>"] ends_number_scan [OF assms]
    by (simp add: scan_number_def sign)
qed

lemma scan_atom_number:
  assumes "is_digit d" and "s = d # ds \<or> s = CHR ''-'' # d # ds"
  shows "scan_atom s = scan_number s"
proof -
  have n: "d \<noteq> CHR ''n''" "d \<noteq> CHR ''t''" "d \<noteq> CHR ''f''" "d \<noteq> CHR ''N''" "d \<noteq> CHR ''I''" "d \<noteq> CHR ''-''"
    using assms(1) by (auto simp: is_digit_def)
  show ?thesis
    using assms(2) n by (elim disjE) (simp_all add: scan_atom_def first_some_def word_def startswith_def)
qed

lemma pval_number:
  assumes "is_digit d" and "s = d # ds \<or> s = CHR ''-'' # d # ds" and "0 < n"
  shows "pval n s = scan_number s"
proof -
  have "d \<noteq> CHR 0x22" "d \<noteq> CHR ''[''" "d \<noteq> CHR ''{''" using assms(1) by (auto simp: is_digit_def)
  with assms(2,3) have "pval n s = scan_atom s" by (cases n) auto
  then show ?thesis using scan_atom_number [OF assms(1,2)] by simp
qed

text \<open>How a printed value begins.\<close>

lemma int_dec_Cons: "\<exists>d ds. is_digit d \<and> (int_dec i = d # ds \<or> int_dec i = CHR ''-'' # d # ds)"
  using hd_nat_dec_digit [of "nat \<bar>i\<bar>"]
  by (cases "nat_dec (nat \<bar>i\<bar>)") (auto simp: int_dec_def abs_if split: if_splits)

definition starts_value :: "string \<Rightarrow> bool" where
  "starts_value s \<longleftrightarrow> s \<noteq> [] \<and> \<not> is_json_ws (hd s) \<and> hd s \<noteq> CHR '']'' \<and> hd s \<noteq> CHR ''}''"

lemma starts_value_dumps: "jsonable frepr v \<Longrightarrow> starts_value (dumps tight frepr v)"
proof (cases v)
  case (PInt i)
  with int_dec_Cons [of i] show ?thesis by (auto simp: starts_value_def is_json_ws_def is_digit_def)
next
  case (PFloat x)
  assume "jsonable frepr v"
  with PFloat show ?thesis
    by (cases x) (auto simp: starts_value_def json_float_def float_text_def is_json_ws_def is_digit_def)
qed (simp_all add: starts_value_def json_string_def is_json_ws_def)

lemma dumps_Cons:
  assumes "jsonable frepr v"
  obtains c r where "dumps tight frepr v = c # r" "\<not> is_json_ws c" "c \<noteq> CHR '']''" "c \<noteq> CHR ''}''"
  using starts_value_dumps [OF assms, of tight] that
  by (cases "dumps tight frepr v") (simp_all add: starts_value_def)

lemma skip_ws_dumps: "jsonable frepr v \<Longrightarrow> skip_ws (dumps tight frepr v @ r) = dumps tight frepr v @ r"
  by (rule dumps_Cons [of frepr v tight]) (auto simp: skip_ws_def)

lemma skip_ws_blank [simp]: "skip_ws (CHR '' '' # s) = skip_ws s"
  by (simp add: skip_ws_def is_json_ws_def)

lemma skip_ws_punct [simp]:
  "skip_ws (CHR '']'' # s) = CHR '']'' # s" "skip_ws (CHR ''}'' # s) = CHR ''}'' # s"
  "skip_ws (CHR '','' # s) = CHR '','' # s" "skip_ws (CHR '':'' # s) = CHR '':'' # s"
  "skip_ws (CHR 0x22 # s) = CHR 0x22 # s" "skip_ws [] = []"
  by (simp_all add: skip_ws_def is_json_ws_def)

lemma ends_number_punct [simp]:
  "ends_number []" "ends_number (CHR '']'' # s)" "ends_number (CHR ''}'' # s)" "ends_number (CHR '','' # s)"
  by (simp_all add: ends_number_def is_digit_def)

abbreviation item_sep :: "bool \<Rightarrow> string" where "item_sep tight \<equiv> if tight then '','' else '', ''"
abbreviation key_sep :: "bool \<Rightarrow> string" where "key_sep tight \<equiv> if tight then '':'' else '': ''"

text \<open>The statement for one value, for enough fuel.\<close>

definition reads_back :: "bool \<Rightarrow> (pyfloat \<Rightarrow> string) \<Rightarrow> pyval \<Rightarrow> bool" where
  "reads_back tight frepr v \<longleftrightarrow> (\<forall>n rest. 2 * length (dumps tight frepr v) \<le> n \<longrightarrow> ends_number rest
     \<longrightarrow> pval n (dumps tight frepr v @ rest) = Inr (v, rest))"

lemma parr_reads_back:
  "\<forall>v\<in>set vs. reads_back tight frepr v \<and> jsonable frepr v \<Longrightarrow> vs \<noteq> []
     \<Longrightarrow> 2 * length (join (item_sep tight) (map (dumps tight frepr) vs)) + 1 \<le> n
     \<Longrightarrow> parr n (join (item_sep tight) (map (dumps tight frepr) vs) @ CHR '']'' # rest) = Inr (vs, rest)"
proof (induction vs arbitrary: n)
  case (Cons v vs)
  then obtain m where n: "n = Suc m" by (cases n) auto
  let ?d = "dumps tight frepr v"
  have v: "reads_back tight frepr v" "jsonable frepr v" using Cons.prems(1) by auto
  show ?case
  proof (cases vs)
    case Nil
    have "pval m (?d @ CHR '']'' # rest) = Inr (v, CHR '']'' # rest)"
      using v(1) Cons.prems(3) Nil n by (simp add: reads_back_def)
    then show ?thesis by (simp add: n Nil)
  next
    case (Cons w ws)
    let ?js = "join (item_sep tight) (map (dumps tight frepr) vs)"
    have js: "join (item_sep tight) (map (dumps tight frepr) (v # vs)) = ?d @ item_sep tight @ ?js"
      by (simp add: Cons)
    have len: "2 * length ?d \<le> m" "2 * length ?js + 1 \<le> m"
      using Cons.prems(3) n unfolding js by auto
    let ?r = "item_sep tight @ ?js @ CHR '']'' # rest"
    have "pval m (?d @ ?r) = Inr (v, ?r)"
      using v(1) len(1) by (simp add: reads_back_def)
    moreover have "skip_ws (?js @ CHR '']'' # rest) = ?js @ CHR '']'' # rest"
    proof -
      have "jsonable frepr w" using Cons.prems(1) Cons by simp
      then obtain c r where "dumps tight frepr w = c # r" "\<not> is_json_ws c" by (rule dumps_Cons)
      then show ?thesis by (cases ws) (auto simp: Cons skip_ws_def)
    qed
    moreover have "parr m (?js @ CHR '']'' # rest) = Inr (vs, rest)"
      using Cons.IH [of m] Cons.prems(1) len(2) Cons by simp
    ultimately show ?thesis unfolding js n by (cases tight) simp_all
  qed
qed simp

lemma pobj_reads_back:
  "\<forall>(k, v)\<in>set d. reads_back tight frepr v \<and> jsonable frepr v \<Longrightarrow> d \<noteq> []
     \<Longrightarrow> 2 * length (join (item_sep tight) (map (\<lambda>(k, v). json_string k @ key_sep tight @ dumps tight frepr v) d)) + 1 \<le> n
     \<Longrightarrow> pobj n (join (item_sep tight) (map (\<lambda>(k, v). json_string k @ key_sep tight @ dumps tight frepr v) d)
            @ CHR ''}'' # rest) = Inr (d, rest)"
proof (induction d arbitrary: n)
  case (Cons kv d)
  obtain k v where kv: "kv = (k, v)" by (cases kv)
  let ?it = "\<lambda>(k, v). json_string k @ key_sep tight @ dumps tight frepr v"
  from Cons.prems obtain m where n: "n = Suc m" by (cases n) auto
  let ?d = "dumps tight frepr v"
  have v: "reads_back tight frepr v" "jsonable frepr v" using Cons.prems(1) kv by auto
  have key: "json_string k @ u = CHR 0x22 # tl (json_string k) @ u" for u by (simp add: json_string_def)
  have head: "pobj n ((json_string k @ key_sep tight @ ?d) @ r) =
      (case skip_ws r of [] \<Rightarrow> Inl json_error
       | e # u \<Rightarrow> if e = CHR ''}'' then Inr ([(k, v)], u)
          else if e = CHR '','' then rbind (pobj m (skip_ws u)) (\<lambda>(kvs, w). Inr ((k, v) # kvs, w))
          else Inl json_error)"
    if "2 * length ?d \<le> m" "ends_number r" for r
  proof -
    have p: "pval m (?d @ r) = Inr (v, r)" using v(1) that by (simp add: reads_back_def)
    have s: "skip_ws (?d @ r) = ?d @ r" using v(2) by (rule skip_ws_dumps)
    show ?thesis
      unfolding n append_assoc key
      by (cases tight) (use p s in \<open>simp_all add: scan_json_string\<close>)
  qed
  show ?case
  proof (cases d)
    case Nil
    have "2 * length ?d \<le> m" using Cons.prems(3) Nil n kv by simp
    from head [OF this, of "CHR ''}'' # rest"] show ?thesis by (simp add: Nil kv)
  next
    case (Cons e es)
    let ?js = "join (item_sep tight) (map ?it d)"
    have js: "join (item_sep tight) (map ?it (kv # d)) = (json_string k @ key_sep tight @ ?d) @ item_sep tight @ ?js"
      by (simp add: Cons kv)
    have len: "2 * length ?d \<le> m" "2 * length ?js + 1 \<le> m"
      using Cons.prems(3) n unfolding js by auto
    have ih: "pobj m (?js @ CHR ''}'' # rest) = Inr (d, rest)"
      using Cons.IH [of m] Cons.prems(1) len(2) Cons by simp
    have skip: "skip_ws (?js @ CHR ''}'' # rest) = ?js @ CHR ''}'' # rest"
      by (cases es) (auto simp: Cons json_string_def split: prod.split)
    have "ends_number (item_sep tight @ ?js @ CHR ''}'' # rest)" by simp
    from head [OF len(1) this] show ?thesis
      unfolding js using ih skip by (cases tight) (simp_all add: kv)
  qed
qed simp

text \<open>A dictionary without a key twice is the dictionary of its items.\<close>

lemma dict_of_distinct: "distinct (map fst d) \<Longrightarrow> dict_of d = d"
proof -
  have "distinct (map fst (a @ d)) \<Longrightarrow> foldl (\<lambda>d (k, v). AList.update k v d) a d = a @ d" for a
  proof (induction d arbitrary: a)
    case (Cons e d)
    obtain k v where e: "e = (k, v)" by (cases e)
    have "k \<notin> fst ` set a" using Cons.prems e by auto
    then have "AList.update k v a = a @ [e]" unfolding e by (induction a) auto
    with Cons.IH [of "a @ [e]"] Cons.prems show ?case by (simp add: e)
  qed simp
  from this [of "[]"] show "distinct (map fst d) \<Longrightarrow> dict_of d = d" by (simp add: dict_of_def)
qed

text \<open>What is written is read back, kind by kind.\<close>

lemma reads_back_atoms: "reads_back tight frepr PNone" "reads_back tight frepr (PBool b)" "reads_back tight frepr (PStr s)"
proof -
  have "pval n (''null'' @ rest) = Inr (PNone, rest)" if "0 < n" for n rest
    using that by (cases n) (simp_all add: scan_atom_def first_some_def word_def startswith_def)
  then show "reads_back tight frepr PNone" by (auto simp: reads_back_def)
  have "pval n ((if b then ''true'' else ''false'') @ rest) = Inr (PBool b, rest)" if "0 < n" for n rest
    using that by (cases n) (simp_all add: scan_atom_def first_some_def word_def startswith_def)
  then show "reads_back tight frepr (PBool b)" by (cases b) (auto simp: reads_back_def)
  have "pval n (json_string s @ rest) = Inr (PStr s, rest)" if "0 < n" for n rest
    using that scan_json_string [of s rest] by (cases n) (simp_all add: json_string_def)
  then show "reads_back tight frepr (PStr s)" by (auto simp: reads_back_def json_string_def)
qed

lemma reads_back_int: "reads_back tight frepr (PInt i)"
proof -
  have "pval n (int_dec i @ rest) = Inr (PInt i, rest)" if "0 < n" "ends_number rest" for n rest
  proof -
    obtain d ds where d: "is_digit d" "int_dec i = d # ds \<or> int_dec i = CHR ''-'' # d # ds"
      using int_dec_Cons by blast
    then have "int_dec i @ rest = d # ds @ rest \<or> int_dec i @ rest = CHR ''-'' # d # ds @ rest" by auto
    then show ?thesis using pval_number [OF d(1) _ that(1)] scan_number_int [OF that(2)] by metis
  qed
  moreover have "0 < length (int_dec i)" by (simp add: int_dec_def)
  then have "0 < n" if "2 * length (int_dec i) \<le> n" for n using that by linarith
  ultimately show ?thesis by (simp add: reads_back_def)
qed

lemma reads_back_float:
  assumes "jsonable frepr (PFloat x)"
  shows "reads_back tight frepr (PFloat x)"
proof -
  have "pval n (json_float frepr x @ rest) = Inr (PFloat x, rest)" if "0 < n" "ends_number rest" for n rest
  proof (cases "\<exists>r. x = Fin r")
    case True
    then have x: "json_float frepr x = frepr x" "float_text frepr x" using assms by (auto simp: json_float_def)
    then obtain d ds where d: "is_digit d" "frepr x = d # ds \<or> frepr x = CHR ''-'' # d # ds"
      by (auto simp: float_text_def)
    then have "frepr x @ rest = d # ds @ rest \<or> frepr x @ rest = CHR ''-'' # d # ds @ rest" by auto
    then show ?thesis using pval_number [OF d(1) _ that(1)] x that(2) by (metis float_text_def)
  next
    case False
    then show ?thesis using that(1)
      by (cases n; cases x) (simp_all add: json_float_def scan_atom_def first_some_def word_def startswith_def)
  qed
  moreover have "0 < length (json_float frepr x)"
    using assms by (cases x) (auto simp: json_float_def float_text_def)
  then have "0 < n" if "2 * length (json_float frepr x) \<le> n" for n using that by linarith
  ultimately show ?thesis by (simp add: reads_back_def)
qed

lemma reads_back_list:
  assumes ok: "\<forall>v\<in>set vs. reads_back tight frepr v \<and> jsonable frepr v"
  shows "reads_back tight frepr (PList vs)"
  unfolding reads_back_def
proof (intro allI impI)
  fix n rest
  assume n: "2 * length (dumps tight frepr (PList vs)) \<le> n"
  then obtain m where m: "n = Suc m" by (cases n) auto
  show "pval n (dumps tight frepr (PList vs) @ rest) = Inr (PList vs, rest)"
  proof (cases vs)
    case Nil
    then show ?thesis by (simp add: m)
  next
    case (Cons w ws)
    let ?js = "join (item_sep tight) (map (dumps tight frepr) vs)"
    have "parr m (?js @ CHR '']'' # rest) = Inr (vs, rest)"
      by (rule parr_reads_back [OF ok]) (use n m Cons in auto)
    moreover have "jsonable frepr w" using ok Cons by simp
    then obtain c r where "dumps tight frepr w = c # r" "\<not> is_json_ws c" "c \<noteq> CHR '']''" by (rule dumps_Cons)
    then have "skip_ws (?js @ CHR '']'' # rest) = ?js @ CHR '']'' # rest" "hd (?js @ CHR '']'' # rest) \<noteq> CHR '']''"
      by (cases ws; auto simp: Cons skip_ws_def)+
    ultimately show ?thesis by (simp add: m)
  qed
qed

lemma reads_back_dict:
  assumes ok: "\<forall>(k, v)\<in>set d. reads_back tight frepr v \<and> jsonable frepr v" and "distinct (map fst d)"
  shows "reads_back tight frepr (PDict d)"
  unfolding reads_back_def
proof (intro allI impI)
  fix n rest
  assume n: "2 * length (dumps tight frepr (PDict d)) \<le> n"
  then obtain m where m: "n = Suc m" by (cases n) auto
  show "pval n (dumps tight frepr (PDict d) @ rest) = Inr (PDict d, rest)"
  proof (cases d)
    case Nil
    then show ?thesis by (simp add: m)
  next
    case (Cons e es)
    let ?js = "join (item_sep tight) (map (\<lambda>(k, v). json_string k @ key_sep tight @ dumps tight frepr v) d)"
    have "pobj m (?js @ CHR ''}'' # rest) = Inr (d, rest)"
      by (rule pobj_reads_back [OF ok]) (use n m Cons in auto)
    moreover have "skip_ws (?js @ CHR ''}'' # rest) = ?js @ CHR ''}'' # rest" "hd (?js @ CHR ''}'' # rest) \<noteq> CHR ''}''"
      by (cases es; auto simp: Cons json_string_def split: prod.split)+
    moreover have "dict_of d = d" using assms(2) dict_of_distinct by simp
    ultimately show ?thesis by (simp add: m)
  qed
qed

lemma dumps_reads_back: "jsonable frepr v \<Longrightarrow> reads_back tight frepr v"
proof (induction tight frepr v rule: dumps.induct)
  case (6 tight frepr vs)
  then show ?case by (intro reads_back_list) (auto simp: list_all_iff)
next
  case (7 tight frepr d)
  then show ?case by (intro reads_back_dict) (fastforce simp: list_all_iff)+
qed (simp_all add: reads_back_atoms reads_back_int reads_back_float)

text \<open>So is what a reader reads of a whole text.\<close>

theorem loads_dumps: "jsonable frepr v \<Longrightarrow> loads (dumps tight frepr v) = Inr v"
proof -
  assume v: "jsonable frepr v"
  let ?d = "dumps tight frepr v"
  have "pval (2 * length ?d + 2) ?d = Inr (v, [])"
    using dumps_reads_back [OF v, of tight, unfolded reads_back_def, rule_format, of "2 * length ?d + 2" "[]"]
    by (simp del: pval.simps)
  moreover have "skip_ws ?d = ?d" using skip_ws_dumps [OF v, of tight "[]"] by simp
  ultimately show ?thesis by (simp only: loads_def rbind_simps prod.case skip_ws_punct if_True refl)
qed

section \<open>Enough fuel\<close>

text \<open>What a successful step of the scanner leaves is shorter than what it got.\<close>

lemma scan_str_shorter: "scan_str s = Inr (t, u) \<Longrightarrow> length u < length s"
proof (induction s arbitrary: t u rule: scan_str.induct)
  case (1 s)
  note p = "1.prems" [unfolded scan_str.simps [of s]]
  show ?case
  proof (cases s)
    case Nil
    with p show ?thesis by simp
  next
    case (Cons c r)
    note IH = "1.IH" [OF Cons]
    show ?thesis
    proof (cases "c = CHR 0x22")
      case True
      with p Cons show ?thesis by simp
    next
      case c: False
      show ?thesis
      proof (cases "c = CHR 0x5C")
        case True
        show ?thesis
        proof (cases r)
          case Nil
          with p Cons True show ?thesis by simp
        next
          case r: (Cons e r')
          show ?thesis
          proof (cases "e = CHR ''u''")
            case u: True
            with p Cons True r obtain ch t' where "hex4 (take 4 r') = Some ch"
              "scan_str (drop 4 r') = Inr (t', u)"
              by (auto simp: rbind_Inr_iff split: option.splits)
            with IH(1) [OF c True r u] show ?thesis using Cons r by fastforce
          next
            case e: False
            with p Cons True r obtain ch t' where "unescape e = Some ch" "scan_str r' = Inr (t', u)"
              by (auto simp: rbind_Inr_iff split: option.splits)
            with IH(2) [OF c True r e] show ?thesis using Cons r by fastforce
          qed
        qed
      next
        case b: False
        with p Cons c obtain t' where "\<not> (of_char c :: nat) < 32" "scan_str r = Inr (t', u)"
          by (auto simp: rbind_Inr_iff split: if_splits)
        with IH(3) [OF c b] show ?thesis using Cons by fastforce
      qed
    qed
  qed
qed

lemma take_digits_length: "take_digits s = (ds, r) \<Longrightarrow> length ds + length r = length s"
  by (auto simp: take_digits_def simp flip: length_append)

lemma scan_int_part_shorter: "scan_int_part s = (ip, r) \<Longrightarrow> ip \<noteq> [] \<Longrightarrow> length r < length s"
  by (auto simp: scan_int_part_def split: prod.splits list.splits if_splits dest!: take_digits_length)

lemma scan_frac_le: "scan_frac s = (fr, r) \<Longrightarrow> length r \<le> length s"
  by (auto simp: scan_frac_def split: prod.splits list.splits if_splits dest!: take_digits_length)

lemma scan_exp_le: "scan_exp s = (ex, r) \<Longrightarrow> length r \<le> length s"
  by (auto simp: scan_exp_def split: prod.splits list.splits if_splits dest!: take_digits_length)

lemma scan_sign_le: "scan_sign s = (neg, r) \<Longrightarrow> length r \<le> length s"
  by (auto simp: scan_sign_def split: list.splits if_splits)

lemma scan_number_shorter:
  assumes "scan_number s = Inr (v, u)"
  shows "length u < length s"
proof -
  obtain neg r where sg: "scan_sign s = (neg, r)" by fastforce
  obtain ip r1 where ip: "scan_int_part r = (ip, r1)" by fastforce
  obtain fr r2 where fr: "scan_frac r1 = (fr, r2)" by fastforce
  obtain ex r3 where ex: "scan_exp r2 = (ex, r3)" by fastforce
  have "ip \<noteq> []" "u = r3"
    using assms by (auto simp: scan_number_def sg ip fr ex Let_def split: if_splits option.splits)
  with scan_sign_le [OF sg] scan_int_part_shorter [OF ip] scan_frac_le [OF fr] scan_exp_le [OF ex]
  show ?thesis by simp
qed

lemma word_shorter:
  assumes "word w v s = Some (x, u)" and "w \<noteq> []"
  shows "length u < length s"
proof -
  have "take (length w) s = w" "u = drop (length w) s"
    using assms(1) by (auto simp: word_def startswith_def split: if_splits)
  moreover from this have "s \<noteq> []" using assms(2) by auto
  ultimately show ?thesis using assms(2) by simp
qed

lemma first_some_mem: "first_some xs = Some x \<Longrightarrow> Some x \<in> set xs"
proof (induction xs)
  case (Cons y xs)
  then show ?case by (cases y) (auto simp: first_some_def)
qed (simp add: first_some_def)

lemma scan_atom_shorter:
  assumes "scan_atom s = Inr (v, u)"
  shows "length u < length s"
proof -
  let ?ws = "[word ''null'' PNone s, word ''true'' (PBool True) s, word ''false'' (PBool False) s,
       word ''NaN'' (PFloat NaN) s, word ''Infinity'' (PFloat PInf) s, word ''-Infinity'' (PFloat NInf) s]"
  consider "Some (v, u) \<in> set ?ws" | "scan_number s = Inr (v, u)"
    using assms first_some_mem [of ?ws "(v, u)"] unfolding scan_atom_def
    by (cases "first_some ?ws") auto
  then show ?thesis
  proof cases
    case 1
    then consider "word ''null'' PNone s = Some (v, u)" | "word ''true'' (PBool True) s = Some (v, u)"
      | "word ''false'' (PBool False) s = Some (v, u)" | "word ''NaN'' (PFloat NaN) s = Some (v, u)"
      | "word ''Infinity'' (PFloat PInf) s = Some (v, u)" | "word ''-Infinity'' (PFloat NInf) s = Some (v, u)"
      by auto
    then show ?thesis by cases (erule word_shorter, simp)+
  qed (rule scan_number_shorter)
qed


lemma case_list_split_Inr:
  "(case xs of [] \<Rightarrow> Inl e | c # u \<Rightarrow> f c u) = Inr y \<longleftrightarrow> (\<exists>c u. xs = c # u \<and> f c u = Inr y)"
  by (cases xs) auto

lemma skip_ws_le: "length (skip_ws s) \<le> length s"
  by (simp add: skip_ws_def length_dropWhile_le)

lemma skip_ws_Cons_less: "skip_ws s = c # u \<Longrightarrow> length u < length s"
  using skip_ws_le [of s] by simp

lemma skip_ws_tl_less: "skip_ws s \<noteq> [] \<Longrightarrow> length (tl (skip_ws s)) < length s"
  using skip_ws_le [of s] by (cases "skip_ws s") auto

text \<open>One unfolding of each scanner, by cases.\<close>

lemma pval_cases:
  assumes "pval (Suc n) s = Inr (v, u)"
  obtains (Str) r t where "s = CHR 0x22 # r" "scan_str r = Inr (t, u)" "v = PStr t"
  | (EmptyList) r where "s = CHR ''['' # r" "skip_ws r \<noteq> []" "u = tl (skip_ws r)" "v = PList []"
  | (List) r vs where "s = CHR ''['' # r" "parr n (skip_ws r) = Inr (vs, u)" "v = PList vs"
  | (EmptyDict) r where "s = CHR ''{'' # r" "skip_ws r \<noteq> []" "u = tl (skip_ws r)" "v = PDict []"
  | (Dict) r kvs where "s = CHR ''{'' # r" "pobj n (skip_ws r) = Inr (kvs, u)" "v = PDict (dict_of kvs)"
  | (Atom) "scan_atom s = Inr (v, u)"
proof (cases s)
  case (Cons c r)
  note p = assms [unfolded Cons pval.simps list.case]
  show ?thesis
  proof (cases "c = CHR 0x22")
    case True
    with p show ?thesis by (auto simp: rbind_Inr_iff Cons intro: Str)
  next
    case q: False
    show ?thesis
    proof (cases "c = CHR ''[''")
      case True
      with p show ?thesis by (auto simp: rbind_Inr_iff Cons intro: EmptyList List split: if_splits)
    next
      case b: False
      show ?thesis
      proof (cases "c = CHR ''{''")
        case True
        with p show ?thesis by (auto simp: rbind_Inr_iff Cons intro: EmptyDict Dict split: if_splits)
      next
        case False
        with p q b Atom Cons show ?thesis by simp
      qed
    qed
  qed
qed (use assms in simp)

lemma parr_cases:
  assumes "parr (Suc n) s = Inr (vs, u)"
  obtains (Last) v r where "pval n s = Inr (v, r)" "skip_ws r = CHR '']'' # u" "vs = [v]"
  | (More) v r r' ws where "pval n s = Inr (v, r)" "skip_ws r = CHR '','' # r'"
      "parr n (skip_ws r') = Inr (ws, u)" "vs = v # ws"
  using assms by (auto simp: rbind_Inr_iff case_list_split_Inr split: if_splits)

lemma pobj_cases:
  assumes "pobj (Suc n) s = Inr (kvs, u)"
  obtains (Last) r k r1 r2 v r3 where "s = CHR 0x22 # r" "scan_str r = Inr (k, r1)"
      "skip_ws r1 = CHR '':'' # r2" "pval n (skip_ws r2) = Inr (v, r3)" "skip_ws r3 = CHR ''}'' # u" "kvs = [(k, v)]"
  | (More) r k r1 r2 v r3 r4 ws where "s = CHR 0x22 # r" "scan_str r = Inr (k, r1)"
      "skip_ws r1 = CHR '':'' # r2" "pval n (skip_ws r2) = Inr (v, r3)" "skip_ws r3 = CHR '','' # r4"
      "pobj n (skip_ws r4) = Inr (ws, u)" "kvs = (k, v) # ws"
proof -
  from assms obtain r k r1 r2 v r3 c r4 where s: "s = CHR 0x22 # r" "scan_str r = Inr (k, r1)"
      "skip_ws r1 = CHR '':'' # r2" "pval n (skip_ws r2) = Inr (v, r3)" "skip_ws r3 = c # r4"
    and e: "(if c = CHR ''}'' then Inr ([(k, v)], r4)
             else if c = CHR '','' then rbind (pobj n (skip_ws r4)) (\<lambda>(kvs, w). Inr ((k, v) # kvs, w))
             else Inl json_error) = Inr (kvs, u)"
    by (cases s) (auto simp: rbind_Inr_iff case_list_split_Inr simp del: pval.simps split: if_splits)
  show ?thesis
    using e s Last [OF s(1-4)] More [OF s(1-4)] by (auto simp: rbind_Inr_iff split: if_splits)
qed

lemma scan_shorter:
  "pval n s = Inr (v, u) \<Longrightarrow> length u < length s"
  "parr n s = Inr (vs, u) \<Longrightarrow> length u < length s"
  "pobj n s = Inr (kvs, u) \<Longrightarrow> length u < length s"
proof (induction n arbitrary: s v vs kvs u)
  case (Suc n)
  note less = skip_ws_le skip_ws_Cons_less skip_ws_tl_less
  {
    case 1
    then show ?case
    proof (cases rule: pval_cases)
      case Str then show ?thesis using scan_str_shorter by fastforce
    next
      case (EmptyList r) then show ?thesis using skip_ws_tl_less [of r] by simp
    next
      case (List r vs) then show ?thesis using Suc.IH(2) [OF List(2)] skip_ws_le [of r] by simp
    next
      case (EmptyDict r) then show ?thesis using skip_ws_tl_less [of r] by simp
    next
      case (Dict r kvs) then show ?thesis using Suc.IH(3) [OF Dict(2)] skip_ws_le [of r] by simp
    qed (rule scan_atom_shorter)
  next
    case 2
    then show ?case
    proof (cases rule: parr_cases)
      case (Last v r)
      then show ?thesis using Suc.IH(1) [OF Last(1)] skip_ws_Cons_less [OF Last(2)] by simp
    next
      case (More v r r' ws)
      then show ?thesis
        using Suc.IH(1) [OF More(1)] skip_ws_Cons_less [OF More(2)] Suc.IH(2) [OF More(3)] skip_ws_le [of r'] by simp
    qed
  next
    case 3
    then show ?case
    proof (cases rule: pobj_cases)
      case (Last r k r1 r2 v r3)
      then show ?thesis
        using scan_str_shorter [OF Last(2)] skip_ws_Cons_less [OF Last(3)] Suc.IH(1) [OF Last(4)]
          skip_ws_le [of r2] skip_ws_Cons_less [OF Last(5)] by simp
    next
      case (More r k r1 r2 v r3 r4 ws)
      then show ?thesis
        using scan_str_shorter [OF More(2)] skip_ws_Cons_less [OF More(3)] Suc.IH(1) [OF More(4)]
          skip_ws_le [of r2] skip_ws_Cons_less [OF More(5)] skip_ws_le [of r4] Suc.IH(3) [OF More(6)] by simp
    qed
  }
qed simp_all

lemma json_error_fuel [simp]: "json_error \<noteq> no_fuel"
  by (simp add: json_error_def no_fuel_def)

lemma scan_str_error: "scan_str s = Inl e \<Longrightarrow> e = json_error"
proof (induction s arbitrary: e rule: scan_str.induct)
  case (1 s)
  from "1.prems" show ?case
    by (subst (asm) scan_str.simps)
      (auto simp: rbind_Inl_iff split: list.splits if_splits option.splits dest: "1.IH")
qed

lemma scan_atom_error: "scan_atom s = Inl e \<Longrightarrow> e = json_error"
  by (auto simp: scan_atom_def scan_number_def Let_def split: option.splits prod.splits if_splits)

lemma scan_no_fuel [simp]: "scan_str s \<noteq> Inl no_fuel" "scan_atom s \<noteq> Inl no_fuel"
  using scan_str_error scan_atom_error json_error_fuel by metis+

lemma case_list_Inl:
  "(case xs of [] \<Rightarrow> Inl json_error | c # u \<Rightarrow> f c u) = Inl no_fuel \<longleftrightarrow> (\<exists>c u. xs = c # u \<and> f c u = Inl no_fuel)"
  by (cases xs) auto

lemma pval_no_fuel:
  assumes "pval (Suc n) s = Inl no_fuel"
  obtains c r where "s = c # r" "parr n (skip_ws r) = Inl no_fuel \<or> pobj n (skip_ws r) = Inl no_fuel"
proof (cases s)
  case (Cons c r)
  from assms [unfolded Cons pval.simps list.case] Cons that show ?thesis
    by (simp add: rbind_Inl_iff split: if_splits)
qed (use assms in simp)

lemma parr_no_fuel:
  assumes "parr (Suc n) s = Inl no_fuel"
  obtains (Item) "pval n s = Inl no_fuel"
  | (Rest) v r r' where "pval n s = Inr (v, r)" "skip_ws r = CHR '','' # r'" "parr n (skip_ws r') = Inl no_fuel"
  using assms by (auto simp: rbind_Inl_iff case_list_Inl simp del: pval.simps split: if_splits)

lemma pobj_no_fuel:
  assumes "pobj (Suc n) s = Inl no_fuel"
  obtains (Item) r k r1 r2 where "s = CHR 0x22 # r" "scan_str r = Inr (k, r1)" "skip_ws r1 = CHR '':'' # r2"
      "pval n (skip_ws r2) = Inl no_fuel"
  | (Rest) r k r1 r2 v r3 r4 where "s = CHR 0x22 # r" "scan_str r = Inr (k, r1)" "skip_ws r1 = CHR '':'' # r2"
      "pval n (skip_ws r2) = Inr (v, r3)" "skip_ws r3 = CHR '','' # r4" "pobj n (skip_ws r4) = Inl no_fuel"
  using assms
  by (auto simp: rbind_Inl_iff case_list_Inl simp del: pval.simps split: if_splits)

text \<open>A scanner never runs out of fuel on what is short enough for it.\<close>

lemma scan_fuel:
  "2 * length s < n \<Longrightarrow> pval n s \<noteq> Inl no_fuel"
  "2 * length s + 1 < n \<Longrightarrow> parr n s \<noteq> Inl no_fuel"
  "2 * length s + 1 < n \<Longrightarrow> pobj n s \<noteq> Inl no_fuel"
proof (induction n arbitrary: s)
  case (Suc n)
  {
    case 1
    show ?case
    proof
      assume "pval (Suc n) s = Inl no_fuel"
      then show False
      proof (cases rule: pval_no_fuel)
        case (1 c r)
        then show False using Suc.IH(2,3) [of "skip_ws r"] skip_ws_le [of r] "1.prems" by fastforce
      qed
    qed
  next
    case 2
    note len = 2
    show ?case
    proof
      assume "parr (Suc n) s = Inl no_fuel"
      then show False
      proof (cases rule: parr_no_fuel)
        case Item
        with Suc.IH(1) [of s] len show False by simp
      next
        case (Rest v r r')
        with scan_shorter(1) [OF Rest(1)] skip_ws_Cons_less [OF Rest(2)] skip_ws_le [of r']
          Suc.IH(2) [of "skip_ws r'"] len
        show False by simp
      qed
    qed
  next
    case 3
    note len = 3
    show ?case
    proof
      assume "pobj (Suc n) s = Inl no_fuel"
      then show False
      proof (cases rule: pobj_no_fuel)
        case (Item r k r1 r2)
        with scan_str_shorter [OF Item(2)] skip_ws_Cons_less [OF Item(3)] skip_ws_le [of r2]
          Suc.IH(1) [of "skip_ws r2"] len
        show False by simp
      next
        case (Rest r k r1 r2 v r3 r4)
        with scan_str_shorter [OF Rest(2)] skip_ws_Cons_less [OF Rest(3)] skip_ws_le [of r2]
          scan_shorter(1) [OF Rest(4)] skip_ws_Cons_less [OF Rest(5)] skip_ws_le [of r4]
          Suc.IH(3) [of "skip_ws r4"] len
        show False by simp
      qed
    qed
  }
qed simp_all

text \<open>The errors of the scanners, by the way they are put together.\<close>

definition json_fails :: "'a result \<Rightarrow> bool" where
  "json_fails r \<longleftrightarrow> (\<forall>e. r = Inl e \<longrightarrow> e = json_error \<or> e = no_fuel)"

lemma json_fails_basic: "json_fails (Inr x)" "json_fails (Inl json_error)" "json_fails (Inl no_fuel)"
  "json_fails (scan_str s)" "json_fails (scan_atom s)"
  by (auto simp: json_fails_def dest: scan_str_error scan_atom_error)

lemma json_fails_rbind: "json_fails r \<Longrightarrow> (\<And>x. json_fails (f x)) \<Longrightarrow> json_fails (rbind r f)"
  by (auto simp: json_fails_def rbind_Inl_iff)

lemma json_fails_if: "json_fails r \<Longrightarrow> json_fails r' \<Longrightarrow> json_fails (if b then r else r')"
  by simp

lemma json_fails_list:
  "json_fails r \<Longrightarrow> (\<And>c u. json_fails (f c u)) \<Longrightarrow> json_fails (case xs of [] \<Rightarrow> r | c # u \<Rightarrow> f c u)"
  by (cases xs) simp_all

lemma json_fails_prod: "(\<And>x y. json_fails (f x y)) \<Longrightarrow> json_fails (case p of (x, y) \<Rightarrow> f x y)"
  by (cases p) simp

lemmas json_fails_intros = json_fails_rbind json_fails_if json_fails_list json_fails_prod json_fails_basic

lemma scan_fails: "json_fails (pval n s) \<and> json_fails (parr n t) \<and> json_fails (pobj n u)"
proof (induction n arbitrary: s t u)
  case 0
  then show ?case by (simp add: json_fails_basic)
next
  case (Suc n)
  then have IH: "\<And>s. json_fails (pval n s)" "\<And>s. json_fails (parr n s)" "\<And>s. json_fails (pobj n s)"
    by blast+
  show ?case unfolding pval.simps parr.simps pobj.simps by (intro conjI json_fails_intros IH)
qed

lemma loads_error: "loads s = Inl e \<Longrightarrow> e = json_error"
proof -
  assume *: "loads s = Inl e"
  have "pval (2 * length s + 2) (skip_ws s) \<noteq> Inl no_fuel"
    using skip_ws_le [of s] by (intro scan_fuel(1)) simp
  moreover have "json_fails (pval (2 * length s + 2) (skip_ws s))" using scan_fails by blast
  ultimately show ?thesis using *
    by (auto simp: loads_def json_fails_def rbind_Inl_iff simp del: pval.simps split: if_splits)
qed

lemma utf8_decode_error: "utf8_decode s = Inl e \<Longrightarrow> e = ValueError ''UnicodeDecodeError''"
  by (induction s arbitrary: e rule: utf8_decode.induct)
    (auto simp: rbind_Inl_iff Let_def split: if_splits)

section \<open>The bytes of a header\<close>

lemma printable_simps [simp]: "printable []"
  "printable (c # s) \<longleftrightarrow> 32 \<le> (of_char c :: nat) \<and> (of_char c :: nat) < 127 \<and> printable s"
  "printable (s @ t) \<longleftrightarrow> printable s \<and> printable t"
  by (auto simp: printable_def)

lemma printable_join: "printable sep \<Longrightarrow> \<forall>s\<in>set ss. printable s \<Longrightarrow> printable (join sep ss)"
  by (induction sep ss rule: join.induct) auto

lemma printable_hex_digit: "n < 16 \<Longrightarrow> printable [hex_digit n]"
  by (simp add: hex_digit_def)

lemma printable_escape: "printable (escape_char c)"
proof -
  have "(of_char c :: nat) div 16 < 16" by (rule less_mult_imp_div_less) simp
  then have "printable [hex_digit (of_char c div 16)]" "printable [hex_digit (of_char c mod 16)]"
    by (simp_all add: printable_hex_digit del: printable_simps)
  then show ?thesis by (auto simp: escape_char_def)
qed

lemma printable_json_string [simp]: "printable (json_string s)"
proof -
  have "printable (concat (map escape_char s))" by (induction s) (simp_all add: printable_escape)
  then show ?thesis by (simp add: json_string_def)
qed

lemma printable_nat_dec [simp]: "printable (nat_dec n)"
  using nat_dec_digits [of _ n] by (fastforce simp: printable_def is_digit_def Let_def)

lemma printable_int_dec [simp]: "printable (int_dec i)"
  by (simp add: int_dec_def)

lemma printable_dumps: "jsonable frepr v \<Longrightarrow> printable (dumps tight frepr v)"
proof (induction frepr v rule: jsonable.induct)
  case (1 frepr x)
  then show ?case by (cases x) (auto simp: json_float_def float_text_def)
next
  case (2 frepr vs)
  then show ?case by (auto simp: list_all_iff intro!: printable_join)
next
  case (3 frepr d)
  have "printable (dumps tight frepr v)" if "(k, v) \<in> set d" for k v
    using 3 that by (auto simp: list_all_iff)
  then show ?case by (auto intro!: printable_join)
qed simp_all

lemma utf8_decode_printable: "printable s \<Longrightarrow> utf8_decode s = Inr s"
  by (induction s rule: utf8_decode.induct) simp_all

section \<open>The codec as an interface\<close>

locale json_codec =
  fixes enc :: "pyval \<Rightarrow> string" and dec :: "string \<Rightarrow> pyval result" and ok :: "pyval \<Rightarrow> bool"
  assumes dec_enc: "ok v \<Longrightarrow> dec (enc v) = Inr v"
begin

lemma rbind_dec_enc: "ok v \<Longrightarrow> rbind (dec (enc v)) f = f v"
  by (simp add: dec_enc)

lemma enc_inj: "ok v \<Longrightarrow> ok w \<Longrightarrow> enc v = enc w \<Longrightarrow> v = w"
  by (metis dec_enc sum.inject(2))

end

interpretation line: json_codec "dumps tight frepr" loads "jsonable frepr" for tight frepr
  by unfold_locales (rule loads_dumps)

interpretation hdr: json_codec "encode_header frepr" decode_header "jsonable frepr" for frepr
  by unfold_locales
    (simp add: encode_header_def decode_header_def printable_dumps utf8_decode_printable loads_dumps)

lemma jsonable_asdict [simp]:
  "jsonable frepr (command_asdict c)" "jsonable frepr (status_asdict st)"
  "list_all (jsonable frepr) (sc_detections h) \<Longrightarrow> jsonable frepr (scene_asdict h)"
  "jsonable frepr (PDict (tc_args tc)) \<Longrightarrow> jsonable frepr (call_asdict tc)"
  by (simp_all add: command_asdict_def status_asdict_def scene_asdict_def call_asdict_def)

section \<open>Properties\<close>

text \<open>
  C30: a voice command survives the wire: from the bytes \<open>encode_header\<close> makes of it, whatever
  characters its text has, \<open>decode_header\<close> and the command thread read the command, whatever the
  receiver's clock says.
\<close>

theorem command_wire_roundtrip:
  "rbind (decode_header (encode_header frepr (command_asdict c))) (decode_command frepr' now) = Inr c"
  by (simp add: hdr.rbind_dec_enc decode_command_asdict)

text \<open>
  Reading a header always ends, on any bytes: \<open>decode_header\<close> gives a value or a
  \<open>ValueError\<close> (\<open>JSONDecodeError\<close>, \<open>UnicodeDecodeError\<close>) and nothing else; the scanner's fuel is never
  what stops it.
\<close>

lemma decode_header_total:
  "(\<exists>v. decode_header frame = Inr v) \<or> (\<exists>m. decode_header frame = Inl (ValueError m))"
proof (cases "decode_header frame")
  case (Inl e)
  then have "utf8_decode frame = Inl e \<or> (\<exists>t. loads t = Inl e)"
    by (auto simp: decode_header_def rbind_Inl_iff)
  then have "e = ValueError ''UnicodeDecodeError'' \<or> e = json_error"
    using utf8_decode_error loads_error by blast
  then show ?thesis using Inl by (auto simp: json_error_def)
qed simp

end
