(* ===== verification/Base64.thy ===== *)
theory Base64
  imports PyVal
begin

text \<open>
  \<open>base64.b64encode\<close> and \<open>base64.b64decode\<close> of the standard library, which the recording format
  stores its payloads with: the encoder by groups of three bytes, the decoder as the lenient
  automaton of \<open>binascii.a2b_base64\<close> (characters outside the alphabet are skipped, a complete
  padding ends the input). Bytes are characters, as everywhere in the development.
\<close>

section \<open>The alphabet\<close>

definition b64_char :: "nat \<Rightarrow> char" where
  "b64_char n =
     (if n < 26 then char_of (65 + n) else if n < 52 then char_of (71 + n)
      else if n < 62 then char_of (n - 4) else if n = 62 then CHR ''+'' else CHR ''/'')"

definition b64_val :: "char \<Rightarrow> nat option" where
  "b64_val c = (let n = of_char c in
     if 65 \<le> n \<and> n \<le> 90 then Some (n - 65) else if 97 \<le> n \<and> n \<le> 122 then Some (n - 71)
     else if 48 \<le> n \<and> n \<le> 57 then Some (n + 4) else if n = 43 then Some 62
     else if n = 47 then Some 63 else None)"

section \<open>Encoding\<close>

fun b64encode :: "string \<Rightarrow> string" where
  "b64encode [] = []"
| "b64encode [x] =
     (let a = of_char x in [b64_char (a div 4), b64_char (a mod 4 * 16), CHR ''='', CHR ''=''])"
| "b64encode [x, y] =
     (let a = of_char x; b = of_char y
      in [b64_char (a div 4), b64_char (a mod 4 * 16 + b div 16), b64_char (b mod 16 * 4), CHR ''=''])"
| "b64encode (x # y # z # s) =
     (let a = of_char x; b = of_char y; c = of_char z
      in b64_char (a div 4) # b64_char (a mod 4 * 16 + b div 16)
         # b64_char (b mod 16 * 4 + c div 64) # b64_char (c mod 64) # b64encode s)"

section \<open>Decoding\<close>

text \<open>The position in the group of four, the bits left over and the pads seen are the state.\<close>

fun a2b :: "nat \<Rightarrow> nat \<Rightarrow> nat \<Rightarrow> string \<Rightarrow> string result" where
  "a2b quad left pads [] =
     (if quad = 0 then Inr []
      else Inl (ValueError (if quad = 1 then ''Invalid base64-encoded string'' else ''Incorrect padding'')))"
| "a2b quad left pads (c # cs) =
     (if c = CHR ''='' then
        (if 2 \<le> quad \<and> 4 \<le> quad + pads + 1 then Inr []
         else a2b quad left (if 2 \<le> quad then pads + 1 else pads) cs)
      else
        (case b64_val c of
           None \<Rightarrow> a2b quad left pads cs
         | Some v \<Rightarrow>
             (if quad = 0 then a2b 1 v 0 cs
              else if quad = 1 then rbind (a2b 2 (v mod 16) 0 cs) (\<lambda>t. Inr (char_of (left * 4 + v div 16) # t))
              else if quad = 2 then rbind (a2b 3 (v mod 4) 0 cs) (\<lambda>t. Inr (char_of (left * 16 + v div 4) # t))
              else rbind (a2b 0 0 0 cs) (\<lambda>t. Inr (char_of (left * 64 + v) # t)))))"

definition b64decode :: "pyval \<Rightarrow> string result" where
  "b64decode v = (case v of
     PStr s \<Rightarrow>
       (if list_all (\<lambda>c. (of_char c :: nat) < 128) s then a2b 0 0 0 s
        else Inl (ValueError ''string argument should contain only ASCII characters''))
   | _ \<Rightarrow> Inl (TypeError ''argument should be a bytes-like object or ASCII string''))"

section \<open>Decoding undoes encoding\<close>

lemma of_char_b64_char: "n < 64 \<Longrightarrow> (of_char (b64_char n) :: nat) =
   (if n < 26 then 65 + n else if n < 52 then 71 + n else if n < 62 then n - 4 else if n = 62 then 43 else 47)"
  by (simp add: b64_char_def)

lemma b64_val_char [simp]: "n < 64 \<Longrightarrow> b64_val (b64_char n) = Some n"
  unfolding b64_val_def Let_def of_char_b64_char by auto

lemma b64_char_pad [simp]: "b64_char n \<noteq> CHR ''=''"
  by (auto simp: b64_char_def dest!: arg_cong [of _ _ "of_char :: char \<Rightarrow> nat"])

lemma b64_char_ascii [simp]: "(of_char (b64_char n) :: nat) < 128"
  by (auto simp: b64_char_def)

lemma a2b_char:
  "n < 64 \<Longrightarrow> a2b 0 left pads (b64_char n # cs) = a2b 1 n 0 cs"
  "n < 64 \<Longrightarrow> a2b 1 left pads (b64_char n # cs)
     = rbind (a2b 2 (n mod 16) 0 cs) (\<lambda>t. Inr (char_of (left * 4 + n div 16) # t))"
  "n < 64 \<Longrightarrow> a2b 2 left pads (b64_char n # cs)
     = rbind (a2b 3 (n mod 4) 0 cs) (\<lambda>t. Inr (char_of (left * 16 + n div 4) # t))"
  "n < 64 \<Longrightarrow> a2b 3 left pads (b64_char n # cs)
     = rbind (a2b 0 0 0 cs) (\<lambda>t. Inr (char_of (left * 64 + n) # t))"
  by simp_all

lemma sextets:
  fixes a b c :: nat
  assumes "a < 256" "b < 256" "c < 256"
  shows "a div 4 < 64" "a mod 4 * 16 < 64" "a mod 4 * 16 + b div 16 < 64"
    "b mod 16 * 4 < 64" "b mod 16 * 4 + c div 64 < 64" "c mod 64 < 64"
proof -
  have "a mod 4 < 4" "b mod 16 < 16" "b div 16 < 16" "c div 64 < 4"
    using assms by (simp_all add: less_mult_imp_div_less)
  then show "a mod 4 * 16 < 64" "a mod 4 * 16 + b div 16 < 64" "b mod 16 * 4 < 64" "b mod 16 * 4 + c div 64 < 64"
    by linarith+
qed (use assms in \<open>simp_all add: less_mult_imp_div_less\<close>)

lemma sextet_parts:
  fixes b c :: nat
  assumes "b < 256" "c < 256"
  shows "b div 16 div 16 = 0" "b div 16 mod 16 = b div 16" "c div 64 div 4 = 0" "c div 64 mod 4 = c div 64"
proof -
  have "b div 16 < 16" "c div 64 < 4" using assms by (simp_all add: less_mult_imp_div_less)
  then show "b div 16 div 16 = 0" "b div 16 mod 16 = b div 16" "c div 64 div 4 = 0" "c div 64 mod 4 = c div 64"
    by simp_all
qed

lemma a2b_encode: "a2b 0 left pads (b64encode s) = Inr s"
proof (induction s arbitrary: left pads rule: b64encode.induct)
  case (2 x)
  note p = sextets [OF nat_of_char_less_256 [of x] nat_of_char_less_256 nat_of_char_less_256]
  show ?case unfolding b64encode.simps Let_def a2b_char(1) [OF p(1)] a2b_char(2) [OF p(2)] by simp
next
  case (3 x y)
  note p = sextets [OF nat_of_char_less_256 [of x] nat_of_char_less_256 [of y] nat_of_char_less_256]
  show ?case unfolding b64encode.simps Let_def a2b_char(1) [OF p(1)] a2b_char(2) [OF p(3)] a2b_char(3) [OF p(4)]
    using sextet_parts [OF nat_of_char_less_256 [of y] nat_of_char_less_256] by simp
next
  case (4 x y z s)
  note p = sextets [OF nat_of_char_less_256 [of x] nat_of_char_less_256 [of y] nat_of_char_less_256 [of z]]
  show ?case
    unfolding b64encode.simps Let_def a2b_char(1) [OF p(1)] a2b_char(2) [OF p(3)] a2b_char(3) [OF p(5)]
      a2b_char(4) [OF p(6)]
    using sextet_parts [OF nat_of_char_less_256 [of y] nat_of_char_less_256 [of z]] by (simp add: 4)
qed simp

lemma b64encode_ascii: "list_all (\<lambda>c. (of_char c :: nat) < 128) (b64encode s)"
  by (induction s rule: b64encode.induct) (simp_all add: Let_def)

lemma b64decode_encode: "b64decode (PStr (b64encode s)) = Inr s"
  by (simp add: b64decode_def b64encode_ascii a2b_encode)

end
