(* ===== verification/Store.thy ===== *)
theory Store
  imports Json Base64
begin

text \<open>
  The recording format, \<open>python/services/replay/store.py\<close>: a record as one line of JSON with its
  payload in base64, the writer, and the reader of a whole file, which skips blank lines, comments
  and malformed records. Records are written and read through an interface, \<open>line_format\<close>.
\<close>

section \<open>Records\<close>

text \<open>What \<open>from_line\<close> reads for the channel and the header is not checked, so it may be any value.\<close>

record recording =
  rec_channel :: pyval
  rec_ts_ns :: int
  rec_header :: pyval
  rec_payload :: string

definition to_line :: "(pyfloat \<Rightarrow> string) \<Rightarrow> recording \<Rightarrow> string" where
  "to_line frepr r = dumps True frepr (PDict
     [(''channel'', rec_channel r),
      (''ts_ns'', PInt (rec_ts_ns r)),
      (''header'', rec_header r),
      (''payload'', PStr (b64encode (rec_payload r)))])"

text \<open>\<open>obj[k]\<close>\<close>

definition py_item :: "pyval \<Rightarrow> string \<Rightarrow> pyval result" where
  "py_item v k = (case v of
     PDict d \<Rightarrow> (case map_of d k of Some x \<Rightarrow> Inr x | None \<Rightarrow> Inl (KeyError k))
   | _ \<Rightarrow> Inl (TypeError ''indices must be integers''))"

definition from_line :: "string \<Rightarrow> recording result" where
  "from_line line =
     rbind (loads line) (\<lambda>obj.
     rbind (py_item obj ''channel'') (\<lambda>channel.
     rbind (py_item obj ''ts_ns'') (\<lambda>t.
     rbind (py_int t) (\<lambda>ts_ns.
     rbind (py_item obj ''header'') (\<lambda>header.
     rbind (py_item obj ''payload'') (\<lambda>p.
     rbind (b64decode p) (\<lambda>payload.
       Inr \<lparr>rec_channel = channel, rec_ts_ns = ts_ns, rec_header = header, rec_payload = payload\<rparr>)))))))"

text \<open>\<open>write\<close>: what is appended to the file.\<close>

definition write_record :: "(pyfloat \<Rightarrow> string) \<Rightarrow> recording \<Rightarrow> string" where
  "write_record frepr r = to_line frepr r @ [CHR 0x0A]"

section \<open>Reading a file\<close>

text \<open>\<open>except (json.JSONDecodeError, KeyError, ValueError)\<close>\<close>

definition read_catches :: "py_error \<Rightarrow> bool" where
  "read_catches e = (case e of KeyError _ \<Rightarrow> True | ValueError _ \<Rightarrow> True | _ \<Rightarrow> False)"

text \<open>
  The records the generator yields, and the exception that ends it, if one does.
\<close>

fun read_lines :: "string list \<Rightarrow> recording list \<times> py_error option" where
  "read_lines [] = ([], None)"
| "read_lines (raw # rest) =
     (let line = strip raw
      in if line = [] \<or> startswith line ''#'' then read_lines rest
         else
           (case from_line line of
              Inr r \<Rightarrow> (let (rs, e) = read_lines rest in (r # rs, e))
            | Inl e \<Rightarrow> (if read_catches e then read_lines rest else ([], Some e))))"

definition read_all :: "string \<Rightarrow> recording list \<times> py_error option" where
  "read_all text = read_lines (readlines text)"

text \<open>\<open>list(read_all(path))\<close>\<close>

definition list_read_all :: "string \<Rightarrow> recording list result" where
  "list_read_all text = (case read_all text of (rs, None) \<Rightarrow> Inr rs | (_, Some e) \<Rightarrow> Inl e)"

section \<open>A record survives its line\<close>

definition storable :: "(pyfloat \<Rightarrow> string) \<Rightarrow> recording \<Rightarrow> bool" where
  "storable frepr r \<longleftrightarrow> jsonable frepr (rec_channel r) \<and> jsonable frepr (rec_header r)"

lemma from_line_to_line: "storable frepr r \<Longrightarrow> from_line (to_line frepr r) = Inr r"
  by (simp add: storable_def from_line_def to_line_def line.rbind_dec_enc py_item_def b64decode_encode
    del: dumps.simps)

lemma to_line_printable: "storable frepr r \<Longrightarrow> printable (to_line frepr r)"
  unfolding to_line_def storable_def by (rule printable_dumps) simp

lemma to_line_shape: "\<exists>s. to_line frepr r = CHR ''{'' # s @ [CHR ''}'']"
  by (auto simp: to_line_def)

section \<open>Lines of a file\<close>

text \<open>
  A format of lines: what is printed for a good item is one non-blank line that is no comment, and
  reading it gives the item.
\<close>

locale line_format =
  fixes pr :: "'a \<Rightarrow> string" and rd :: "string \<Rightarrow> 'a result" and good :: "'a \<Rightarrow> bool"
  assumes rd_pr: "good x \<Longrightarrow> rd (pr x) = Inr x"
    and pr_line: "good x \<Longrightarrow> CHR 0x0A \<notin> set (pr x) \<and> CHR 0x0D \<notin> set (pr x)"
    and pr_ends: "good x \<Longrightarrow> pr x \<noteq> [] \<and> \<not> is_space (hd (pr x)) \<and> \<not> is_space (last (pr x)) \<and> hd (pr x) \<noteq> CHR ''#''"
begin

lemma strip_pr: "good x \<Longrightarrow> strip (pr x @ [CHR 0x0A]) = pr x"
proof -
  assume x: "good x"
  have "lstrip (pr x @ [CHR 0x0A]) = pr x @ [CHR 0x0A]"
    using pr_ends [OF x] by (cases "pr x") (simp_all add: lstrip_def)
  moreover have "rstrip (pr x @ [CHR 0x0A]) = rstrip (pr x)"
    by (simp add: rstrip_def is_space_def)
  moreover have "rstrip (pr x) = pr x"
    using pr_ends [OF x] by (cases "pr x" rule: rev_cases) (simp_all add: rstrip_def)
  ultimately show ?thesis by (simp add: strip_def)
qed

lemma no_comment: "good x \<Longrightarrow> \<not> startswith (pr x) ''#''"
  using pr_ends [of x] by (cases "pr x") (auto simp: startswith_def)

lemma printed_lines:
  "\<forall>x\<in>set xs. good x \<Longrightarrow> readlines (concat (map (\<lambda>x. pr x @ [CHR 0x0A]) xs)) = map (\<lambda>x. pr x @ [CHR 0x0A]) xs"
  using readlines_concat [of "map pr xs"] pr_line by (auto simp: comp_def)

end

interpretation rec_line: line_format "to_line frepr" from_line "storable frepr" for frepr
proof
  fix r assume r: "storable frepr r"
  show "from_line (to_line frepr r) = Inr r" by (rule from_line_to_line [OF r])
  show "CHR 0x0A \<notin> set (to_line frepr r) \<and> CHR 0x0D \<notin> set (to_line frepr r)"
    using to_line_printable [OF r] by (force simp: printable_def)
  obtain s where "to_line frepr r = CHR ''{'' # s @ [CHR ''}'']" using to_line_shape by blast
  then show "to_line frepr r \<noteq> [] \<and> \<not> is_space (hd (to_line frepr r))
      \<and> \<not> is_space (last (to_line frepr r)) \<and> hd (to_line frepr r) \<noteq> CHR ''#''"
    by (simp add: is_space_def)
qed

section \<open>Reading a whole file\<close>

definition is_record_line :: "string \<Rightarrow> bool" where
  "is_record_line raw \<longleftrightarrow> strip raw \<noteq> [] \<and> \<not> startswith (strip raw) ''#''"

definition good_line :: "string \<Rightarrow> recording option" where
  "good_line raw = (if is_record_line raw then (case from_line (strip raw) of Inr r \<Rightarrow> Some r | Inl _ \<Rightarrow> None) else None)"

definition fatal_line :: "string \<Rightarrow> py_error option" where
  "fatal_line raw =
     (if is_record_line raw then (case from_line (strip raw) of Inl e \<Rightarrow> if read_catches e then None else Some e | Inr _ \<Rightarrow> None)
      else None)"

lemma read_lines_Cons:
  "read_lines (raw # rest) =
     (case good_line raw of
        Some r \<Rightarrow> (r # fst (read_lines rest), snd (read_lines rest))
      | None \<Rightarrow> (case fatal_line raw of Some e \<Rightarrow> ([], Some e) | None \<Rightarrow> read_lines rest))"
  by (auto simp: good_line_def fatal_line_def is_record_line_def Let_def split: sum.split prod.split)

lemma good_line_not_fatal: "good_line raw = Some r \<Longrightarrow> fatal_line raw = None"
  by (auto simp: good_line_def fatal_line_def split: if_splits sum.splits)

lemma read_lines_quiet:
  "\<forall>raw\<in>set ls. fatal_line raw = None \<Longrightarrow> read_lines ls = (List.map_filter good_line ls, None)"
  by (induction ls) (auto simp del: read_lines.simps(2) simp: read_lines_Cons map_filter_simps split: option.split)

lemma read_lines_fatal: "raw \<in> set ls \<Longrightarrow> fatal_line raw \<noteq> None \<Longrightarrow> \<exists>rs e. read_lines ls = (rs, Some e)"
proof (induction ls)
  case (Cons l ls)
  then show ?case
    by (cases "good_line l"; cases "fatal_line l"; cases "read_lines ls")
      (auto simp del: read_lines.simps(2) simp: read_lines_Cons dest: good_line_not_fatal)
qed simp

lemma loads_Nil: "loads [] = Inl json_error"
  by (simp add: loads_def skip_ws_def)

lemma loads_comment: "startswith s ''#'' \<Longrightarrow> loads s = Inl json_error"
proof -
  assume "startswith s ''#''"
  then obtain t where "s = CHR ''#'' # t" by (cases s) (auto simp: startswith_def)
  then show ?thesis
    by (simp add: loads_def skip_ws_def is_json_ws_def scan_atom_def first_some_def word_def startswith_def
        scan_number_def scan_sign_def scan_int_part_def take_digits_def is_digit_def)
qed

text \<open>Reading the file the writer wrote gives the records, in order.\<close>

lemma recording_read_back:
  assumes "\<forall>r\<in>set rs. storable frepr r"
  shows "list_read_all (concat (map (write_record frepr) rs)) = Inr rs"
proof -
  let ?ls = "map (\<lambda>r. to_line frepr r @ [CHR 0x0A]) rs"
  have "readlines (concat (map (write_record frepr) rs)) = ?ls"
    using rec_line.printed_lines [OF assms] by (simp add: write_record_def [abs_def])
  moreover have good: "good_line (to_line frepr r @ [CHR 0x0A]) = Some r" if "r \<in> set rs" for r
    using that assms rec_line.strip_pr rec_line.no_comment rec_line.rd_pr rec_line.pr_ends
    by (simp add: good_line_def is_record_line_def)
  moreover have "fatal_line (to_line frepr r @ [CHR 0x0A]) = None" if "r \<in> set rs" for r
    using good [OF that] by (rule good_line_not_fatal)
  then have "read_lines ?ls = (List.map_filter good_line ?ls, None)" by (intro read_lines_quiet) auto
  moreover have "List.map_filter good_line ?ls = rs"
    using good by (induction rs) (simp_all add: map_filter_simps)
  ultimately show ?thesis by (simp add: list_read_all_def read_all_def)
qed

section \<open>Properties\<close>

text \<open>
  A line that is malformed JSON or lacks a field costs that line only: if no line raises anything
  but the errors the reader catches, it returns exactly the well-formed records, in file order.
\<close>

theorem malformed_lines_skipped:
  assumes "\<forall>raw\<in>set (readlines text). fatal_line raw = None"
  shows "list_read_all text = Inr (List.map_filter good_line (readlines text))"
  using read_lines_quiet [OF assms] by (simp add: list_read_all_def read_all_def)

text \<open>
  But a line that is JSON and no object, such as a list or a number, raises a \<open>TypeError\<close> the
  reader does not catch: whatever the other lines are, none of the file's records is replayed.
\<close>

theorem non_object_line_ends_replay:
  assumes "raw \<in> set (readlines text)" and "loads (strip raw) = Inr v" and "\<forall>d. v \<noteq> PDict d"
  shows "\<exists>e. list_read_all text = Inl e"
proof -
  have "from_line (strip raw) = Inl (TypeError ''indices must be integers'')"
    using assms(2,3) by (cases v) (simp_all add: from_line_def py_item_def)
  moreover have "is_record_line raw"
    using loads_comment [of "strip raw"] loads_Nil assms(2) by (auto simp: is_record_line_def)
  ultimately have "fatal_line raw \<noteq> None" by (simp add: fatal_line_def read_catches_def)
  then show ?thesis
    using read_lines_fatal [OF assms(1)] by (auto simp: list_read_all_def read_all_def)
qed

section \<open>Examples\<close>

definition half_repr :: "pyfloat \<Rightarrow> string" where
  "half_repr x = ''0.5''"

lemma half_repr_text: "float_text half_repr (Fin (1 / 2))"
proof -
  have "scan_number (''0.5'' @ rest) = Inr (PFloat (Fin (1 / 2)), rest)" if "ends_number rest" for rest
  proof -
    have "takeWhile is_digit rest = []" "dropWhile is_digit rest = rest"
      using that by (cases rest; simp add: ends_number_def)+
    moreover have "scan_exp rest = ([], rest)" using ends_number_scan [OF that] by simp
    moreover have "py_float_of_str ''0.5'' = Some (Fin (1 / 2))" by code_simp
    ultimately show ?thesis
      by (simp add: scan_number_def scan_sign_def scan_int_part_def scan_frac_def take_digits_def is_digit_def)
  qed
  moreover have "is_digit CHR ''0''" by (simp add: is_digit_def)
  ultimately show ?thesis by (auto simp: float_text_def half_repr_def printable_def)
qed

definition demo_record :: recording where
  "demo_record = \<lparr>rec_channel = PStr ''depth'', rec_ts_ns = 17,
     rec_header = PDict [(''seq'', PInt 3), (''scale'', PFloat (Fin (1 / 2)))],
     rec_payload = [CHR 0x00, CHR 0xFF, CHR 0x0A, CHR ''a'']\<rparr>"

lemma recording_example:
  "list_read_all (concat (map (write_record half_repr) [demo_record, demo_record])) = Inr [demo_record, demo_record]"
  by (rule recording_read_back)
    (simp add: storable_def demo_record_def half_repr_text)

definition noisy_text :: string where
  "noisy_text = ''# flight 7'' @ [CHR 0x0A] @ ''{'' @ [CHR 0x0A] @ to_line half_repr demo_record @ [CHR 0x0D, CHR 0x0A] @ ''{}''"

theorem malformed_lines_skipped_witness: "list_read_all noisy_text = Inr [demo_record]"
proof -
  have "\<forall>raw\<in>set (readlines noisy_text). fatal_line raw = None" by code_simp
  moreover have "List.map_filter good_line (readlines noisy_text) = [demo_record]" by code_simp
  ultimately show ?thesis using malformed_lines_skipped [of noisy_text] by simp
qed

theorem non_object_line_ends_replay_witness:
  "\<exists>e. list_read_all (write_record half_repr demo_record @ ''[]'') = Inl e"
proof (rule non_object_line_ends_replay)
  show "''[]'' \<in> set (readlines (write_record half_repr demo_record @ ''[]''))" by code_simp
  show "loads (strip ''[]'') = Inr (PList [])" by code_simp
qed simp

end
