(* ===== verification/Replay.thy ===== *)
theory Replay
  imports Store Config Transport
begin

text \<open>
  The replay harness, \<open>python/services/replay/main.py\<close>: recording the sensor channels into a file
  and playing a file back on them with the original timing. What the clock shows and whether the stop
  signal has come is a list of observations, one for each time the code looks at the stop event; the
  clock is read at the same moment.
\<close>

section \<open>Endpoints\<close>

text \<open>\<open>_rewrite_host\<close>: the port is looked at for a TCP endpoint only.\<close>

definition rewrite_host :: "string \<Rightarrow> string option \<Rightarrow> string result" where
  "rewrite_host endpoint bind_host =
     (case bind_host of
        None \<Rightarrow> Inr endpoint
      | Some h \<Rightarrow>
          (if h = [] then Inr endpoint
           else
             let (scheme, rest) = url_scheme (url_clean endpoint)
             in rbind (url_netloc rest) (\<lambda>_.
                  if scheme \<noteq> ''tcp'' then Inr endpoint
                  else rbind (url_port endpoint) (\<lambda>(_, port). Inr (case port of
                      None \<Rightarrow> endpoint
                    | Some p \<Rightarrow> ''tcp://'' @ h @ '':'' @ nat_dec p)))))"

definition enabled_channels :: "pydict \<Rightarrow> (string \<times> pyval) list result" where
  "enabled_channels cfg =
     (let raw = cfg_get cfg ''sensor.channels'' PNone
      in if \<not> truthy raw then Inr []
         else case raw of
             PDict d \<Rightarrow> Inr (filter (\<lambda>(name, ep). truthy ep) d)
           | _ \<Rightarrow> Inl (AttributeError ''items''))"

definition play_endpoint :: "string option \<Rightarrow> string \<times> pyval \<Rightarrow> (string \<times> string) result" where
  "play_endpoint bind_host = (\<lambda>(name, ep). case ep of
     PStr s \<Rightarrow> rbind (rewrite_host s bind_host) (\<lambda>e. Inr (name, e))
   | _ \<Rightarrow> Inl (AttributeError ''decode''))"

definition open_pub :: "string \<times> string \<Rightarrow> (string \<times> sock) result" where
  "open_pub = (\<lambda>(name, ep). rbind (pub ep 4) (\<lambda>s. Inr (name, s)))"

definition open_sub :: "string \<times> pyval \<Rightarrow> (string \<times> sock) result" where
  "open_sub = (\<lambda>(name, ep). case ep of
     PStr s \<Rightarrow> Inr (name, sub s 8 [] None)
   | _ \<Rightarrow> Inl (TypeError ''expected str''))"

section \<open>Recording\<close>

text \<open>
  One turn of the loop that does not end it: the sockets the poll reports, each with its message and
  the clock when it is stamped. The state is the text of the file and the number of its records.
\<close>

type_synonym arrivals = "(string \<times> string list \<times> int) list"

definition record_message ::
    "(pyfloat \<Rightarrow> string) \<Rightarrow> string \<Rightarrow> string list \<Rightarrow> int \<Rightarrow> string \<times> nat \<Rightarrow> (string \<times> nat) result" where
  "record_message frepr name parts now st =
     (case parts of
        hdr # payload # _ \<Rightarrow>
          (case decode_header hdr of
             Inl e \<Rightarrow> (case e of ValueError _ \<Rightarrow> Inr st | _ \<Rightarrow> Inl e)
           | Inr header \<Rightarrow>
               Inr (fst st @ write_record frepr
                      \<lparr>rec_channel = PStr name, rec_ts_ns = now, rec_header = header, rec_payload = payload\<rparr>,
                    snd st + 1))
      | _ \<Rightarrow> Inr st)"

fun record_turn ::
    "(pyfloat \<Rightarrow> string) \<Rightarrow> string list \<Rightarrow> arrivals \<Rightarrow> string \<times> nat \<Rightarrow> (string \<times> nat) result" where
  "record_turn frepr [] arr st = Inr st"
| "record_turn frepr (name # names) arr st =
     (case map_of arr name of
        None \<Rightarrow> record_turn frepr names arr st
      | Some (parts, now) \<Rightarrow>
          rbind (record_message frepr name parts now st) (record_turn frepr names arr))"

text \<open>\<open>deadline_ns\<close>; zero is no deadline.\<close>

definition record_deadline :: "pyfloat \<Rightarrow> int \<Rightarrow> int result" where
  "record_deadline max_seconds now =
     (if flt_less (Fin 0) max_seconds
      then rbind (int_of_float (flt_mul max_seconds (Fin 1000000000))) (\<lambda>d. Inr (now + d))
      else Inr 0)"

fun record_loop ::
    "(pyfloat \<Rightarrow> string) \<Rightarrow> string list \<Rightarrow> int \<Rightarrow> (bool \<times> int \<times> arrivals) list
     \<Rightarrow> string \<times> nat \<Rightarrow> (string \<times> nat) result" where
  "record_loop frepr names dl [] st = Inr st"
| "record_loop frepr names dl ((stop, now, arr) # turns) st =
     (if stop then Inr st
      else if dl \<noteq> 0 \<and> dl \<le> now then Inr st
      else rbind (record_turn frepr names arr st) (record_loop frepr names dl turns))"

text \<open>
  \<open>_run_record\<close>: without a channel the exit code is 2 and no file is opened; otherwise the contents of
  the file and 0.
\<close>

definition run_record ::
    "(pyfloat \<Rightarrow> string) \<Rightarrow> pydict \<Rightarrow> pyfloat \<Rightarrow> int \<Rightarrow> (bool \<times> int \<times> arrivals) list
     \<Rightarrow> (int \<times> string option) result" where
  "run_record frepr cfg max_seconds start turns =
     rbind (enabled_channels cfg) (\<lambda>channels.
       if channels = [] then Inr (2, None)
       else
         rbind (rmap open_sub channels) (\<lambda>subs.
         rbind (record_deadline max_seconds start) (\<lambda>dl.
         rbind (record_loop frepr (map fst subs) dl turns ([], 0)) (\<lambda>(text, _). Inr (0, Some text)))))"

section \<open>Playing\<close>

type_synonym obs = "bool \<times> int"

text \<open>
  \<open>_sleep_monotonic\<close>: what is left of the observations when it returns, nothing if they run out while
  it still waits.
\<close>

fun sleep_monotonic :: "int \<Rightarrow> obs list \<Rightarrow> obs list option" where
  "sleep_monotonic target [] = None"
| "sleep_monotonic target ((stop, now) # w) =
     (if stop then Some w else if target \<le> now then Some w else sleep_monotonic target w)"

text \<open>A message on the wire: when it was sent, on which channel, its two parts.\<close>

record played =
  pl_at :: int
  pl_channel :: string
  pl_header :: string
  pl_payload :: string

text \<open>\<open>pubs.get(rec.channel)\<close>\<close>

definition pub_of :: "string list \<Rightarrow> pyval \<Rightarrow> string option result" where
  "pub_of names ch = (case ch of
     PStr s \<Rightarrow> Inr (if s \<in> set names then Some s else None)
   | PList _ \<Rightarrow> Inl (TypeError ''unhashable type: list'')
   | PDict _ \<Rightarrow> Inl (TypeError ''unhashable type: dict'')
   | _ \<Rightarrow> Inr None)"

text \<open>\<open>int((rec.ts_ns - t_zero_file) / speed)\<close>\<close>

definition offset_ns :: "pyfloat \<Rightarrow> int \<Rightarrow> int \<Rightarrow> int result" where
  "offset_ns speed t_zero_file ts = rbind (flt_div (Fin (of_int (ts - t_zero_file))) speed) int_of_float"

text \<open>
  One pass over the records. It is over when the records are, or when the stop event is seen; it waits
  when the observations run out.
\<close>

datatype pass_end = Over "obs list" | Waiting | Raised py_error

definition play_one ::
    "(pyfloat \<Rightarrow> string) \<Rightarrow> string list \<Rightarrow> recording \<Rightarrow> int \<Rightarrow> played option result" where
  "play_one frepr names r now =
     rbind (pub_of names (rec_channel r)) (\<lambda>sock. Inr (case sock of
         None \<Rightarrow> None
       | Some name \<Rightarrow> Some \<lparr>pl_at = now, pl_channel = name, pl_header = dumps True frepr (rec_header r),
                          pl_payload = rec_payload r\<rparr>))"

fun play_pass ::
    "(pyfloat \<Rightarrow> string) \<Rightarrow> string list \<Rightarrow> pyfloat \<Rightarrow> int \<Rightarrow> int \<Rightarrow> recording list \<Rightarrow> obs list
     \<Rightarrow> played list \<times> pass_end" where
  "play_pass frepr names speed zf zw [] w = ([], Over w)"
| "play_pass frepr names speed zf zw (r # rs) [] = ([], Waiting)"
| "play_pass frepr names speed zf zw (r # rs) ((stop, _) # w) =
     (if stop then ([], Over w)
      else
        case offset_ns speed zf (rec_ts_ns r) of
          Inl e \<Rightarrow> ([], Raised e)
        | Inr off \<Rightarrow>
            (case sleep_monotonic (zw + off) w of
               None \<Rightarrow> ([], Waiting)
             | Some [] \<Rightarrow> ([], Waiting)
             | Some ((stop', now) # w') \<Rightarrow>
                 (if stop' then ([], Over w')
                  else
                    case play_one frepr names r now of
                      Inl e \<Rightarrow> ([], Raised e)
                    | Inr sent \<Rightarrow>
                        (let (out, e) = play_pass frepr names speed zf zw rs w'
                         in (case sent of None \<Rightarrow> out | Some m \<Rightarrow> m # out, e)))))"

lemma sleep_shorter: "sleep_monotonic t w = Some w' \<Longrightarrow> length w' < length w"
  by (induction t w rule: sleep_monotonic.induct) (auto split: if_splits)

text \<open>How a record is dealt with.\<close>

lemma play_pass_cases:
  assumes "play_pass frepr names speed zf zw (r # rs) ((stop, t) # w) = (out, e)"
  obtains (Stop) "stop" "out = []" "e = Over w"
  | (Raise) err where "out = []" "e = Raised err"
  | (Wait) "out = []" "e = Waiting"
  | (Stop_asleep) off now w' where "\<not> stop" "offset_ns speed zf (rec_ts_ns r) = Inr off"
      "sleep_monotonic (zw + off) w = Some ((True, now) # w')" "out = []" "e = Over w'"
  | (Go) off now w' sent out' where "\<not> stop" "offset_ns speed zf (rec_ts_ns r) = Inr off"
      "sleep_monotonic (zw + off) w = Some ((False, now) # w')" "play_one frepr names r now = Inr sent"
      "play_pass frepr names speed zf zw rs w' = (out', e)"
      "out = (case sent of None \<Rightarrow> out' | Some m \<Rightarrow> m # out')"
proof (cases stop)
  case True
  then show ?thesis using assms Stop by simp
next
  case ns: False
  note p = assms [unfolded play_pass.simps, simplified ns if_False]
  show ?thesis
  proof (cases "offset_ns speed zf (rec_ts_ns r)")
    case (Inl x)
    with p show ?thesis by (intro Raise [of x]) simp_all
  next
    case off: (Inr off)
    show ?thesis
    proof (cases "sleep_monotonic (zw + off) w")
      case None
      with p off Wait show ?thesis by simp
    next
      case (Some w1)
      show ?thesis
      proof (cases w1)
        case Nil
        with p off Some Wait show ?thesis by simp
      next
        case (Cons o1 w')
        obtain stop' now where o1: "o1 = (stop', now)" by fastforce
        show ?thesis
        proof (cases stop')
          case True
          with p off Some Cons o1 Stop_asleep [OF ns off, of now w'] show ?thesis by simp
        next
          case False
          obtain out' e' where rest: "play_pass frepr names speed zf zw rs w' = (out', e')" by fastforce
          show ?thesis
          proof (cases "play_one frepr names r now")
            case (Inl x)
            with p off Some Cons o1 False show ?thesis by (intro Raise [of x]) simp_all
          next
            case (Inr sent)
            with p off Some Cons o1 False rest Go [OF ns off, of now w' sent out'] show ?thesis by simp
          qed
        qed
      qed
    qed
  qed
qed

lemma play_pass_shorter: "play_pass frepr names speed zf zw rs w = (out, Over w') \<Longrightarrow> length w' \<le> length w"
proof (induction rs arbitrary: w out)
  case (Cons r rs)
  then obtain stop t v where w: "w = (stop, t) # v" by (cases w) auto
  from Cons.prems [unfolded w] show ?case
  proof (cases rule: play_pass_cases)
    case (Stop_asleep off now w'')
    then show ?thesis using sleep_shorter [OF Stop_asleep(3)] w by simp
  next
    case (Go off now w'' sent out')
    then show ?thesis using sleep_shorter [OF Go(3)] Cons.IH [OF Go(5)] w by simp
  qed (use w in auto)
qed simp

text \<open>The passes: the first record sets the zero of the file, the clock at the start of a pass that of the wall.\<close>

function play_passes ::
    "(pyfloat \<Rightarrow> string) \<Rightarrow> string list \<Rightarrow> pyfloat \<Rightarrow> bool \<Rightarrow> recording list \<Rightarrow> obs list
     \<Rightarrow> played list \<times> pass_end" where
  "play_passes frepr names speed again rs [] = ([], Waiting)"
| "play_passes frepr names speed again rs ((stop, now) # w) =
     (if stop then ([], Over w)
      else
        case play_pass frepr names (flt_max speed (Fin (1 / 1000000))) (rec_ts_ns (hd rs)) now rs w of
          (out, Over w') \<Rightarrow>
            (if again then let (out', e) = play_passes frepr names speed again rs w' in (out @ out', e)
             else (out, Over w'))
        | (out, e) \<Rightarrow> (out, e))"
  by pat_completeness auto
termination
  by (relation "measure (\<lambda>(_, _, _, _, _, w). length w)") (auto dest!: play_pass_shorter [OF sym])

text \<open>
  \<open>_run_play\<close> on the contents of the file: the messages sent, and the exit code, the exception or
  that the harness still runs.
\<close>

definition run_play ::
    "(pyfloat \<Rightarrow> string) \<Rightarrow> pydict \<Rightarrow> string option \<Rightarrow> pyfloat \<Rightarrow> bool \<Rightarrow> string \<Rightarrow> obs list
     \<Rightarrow> played list \<times> int option result" where
  "run_play frepr cfg bind_host speed again contents w =
     (case rbind (enabled_channels cfg) (rmap (play_endpoint bind_host)) of
        Inl e \<Rightarrow> ([], Inl e)
      | Inr [] \<Rightarrow> ([], Inr (Some 2))
      | Inr endpoints \<Rightarrow>
          (case rbind (rmap open_pub endpoints) (\<lambda>pubs. rbind (list_read_all contents) (\<lambda>rs. Inr (pubs, rs))) of
             Inl e \<Rightarrow> ([], Inl e)
           | Inr (pubs, []) \<Rightarrow> ([], Inr (Some 0))
           | Inr (pubs, rs) \<Rightarrow>
               (case play_passes frepr (map fst pubs) speed again rs w of
                  (out, Over _) \<Rightarrow> (out, Inr (Some 0))
                | (out, Waiting) \<Rightarrow> (out, Inr None)
                | (out, Raised e) \<Rightarrow> (out, Inl e))))"

lemma sleep_suffix: "sleep_monotonic t w = Some w' \<Longrightarrow> \<exists>v. w = v @ w'"
  by (induction t w rule: sleep_monotonic.induct) (auto split: if_splits intro: exI [of _ "_ # _"])

section \<open>What is recorded\<close>

text \<open>The records of the messages that are well formed, by channel and turn: no text, no count.\<close>

definition message_record :: "string \<Rightarrow> string list \<Rightarrow> int \<Rightarrow> recording option" where
  "message_record name parts now =
     (case parts of
        hdr # payload # _ \<Rightarrow>
          (case decode_header hdr of
             Inl _ \<Rightarrow> None
           | Inr header \<Rightarrow> Some \<lparr>rec_channel = PStr name, rec_ts_ns = now, rec_header = header, rec_payload = payload\<rparr>)
      | _ \<Rightarrow> None)"

definition turn_records :: "string list \<Rightarrow> arrivals \<Rightarrow> recording list" where
  "turn_records names arr =
     List.map_filter (\<lambda>name. case map_of arr name of
         None \<Rightarrow> None | Some (parts, now) \<Rightarrow> message_record name parts now) names"

fun loop_records :: "string list \<Rightarrow> int \<Rightarrow> (bool \<times> int \<times> arrivals) list \<Rightarrow> recording list" where
  "loop_records names dl [] = []"
| "loop_records names dl ((stop, now, arr) # turns) =
     (if stop \<or> (dl \<noteq> 0 \<and> dl \<le> now) then [] else turn_records names arr @ loop_records names dl turns)"

text \<open>The state of the recorder after some records.\<close>

definition recorded :: "(pyfloat \<Rightarrow> string) \<Rightarrow> recording list \<Rightarrow> string \<times> nat" where
  "recorded frepr rs = (concat (map (write_record frepr) rs), length rs)"

lemma record_message_recorded:
  "record_message frepr name parts now (recorded frepr rs)
     = Inr (recorded frepr (rs @ (case message_record name parts now of None \<Rightarrow> [] | Some r \<Rightarrow> [r])))"
proof (cases "\<exists>hdr payload rest. parts = hdr # payload # rest")
  case True
  then obtain hdr payload rest where parts: "parts = hdr # payload # rest" by blast
  show ?thesis
  proof (cases "decode_header hdr")
    case (Inl e)
    then obtain m where "e = ValueError m" using decode_header_total [of hdr] by auto
    with Inl parts show ?thesis by (simp add: record_message_def message_record_def)
  next
    case (Inr v)
    with parts show ?thesis by (simp add: record_message_def message_record_def recorded_def)
  qed
next
  case False
  then show ?thesis
    by (auto simp: record_message_def message_record_def split: list.split)
qed

lemma record_turn_recorded:
  "record_turn frepr names arr (recorded frepr rs) = Inr (recorded frepr (rs @ turn_records names arr))"
proof (induction names arbitrary: rs)
  case Nil
  then show ?case by (simp add: turn_records_def map_filter_simps)
next
  case (Cons name names)
  then show ?case
    by (auto simp: turn_records_def map_filter_simps record_message_recorded split: option.split)
qed

lemma record_loop_recorded:
  "record_loop frepr names dl turns (recorded frepr rs) = Inr (recorded frepr (rs @ loop_records names dl turns))"
  by (induction turns arbitrary: rs) (auto simp: record_turn_recorded)

text \<open>The headers that are printed and read back.\<close>

definition headers_ok :: "(pyfloat \<Rightarrow> string) \<Rightarrow> arrivals \<Rightarrow> bool" where
  "headers_ok frepr arr \<longleftrightarrow> (\<forall>(name, parts, t)\<in>set arr. \<forall>hdr\<in>set parts. \<forall>h. decode_header hdr = Inr h \<longrightarrow> jsonable frepr h)"

lemma message_record_SomeE:
  assumes "message_record name parts now = Some r"
  obtains hdr payload rest header where "parts = hdr # payload # rest" "decode_header hdr = Inr header"
    "r = \<lparr>rec_channel = PStr name, rec_ts_ns = now, rec_header = header, rec_payload = payload\<rparr>"
proof -
  from assms obtain hdr payload rest where parts: "parts = hdr # payload # rest"
    by (auto simp: message_record_def split: list.splits)
  with assms obtain header where "decode_header hdr = Inr header"
    by (cases "decode_header hdr") (auto simp: message_record_def)
  with assms parts that show ?thesis by (simp add: message_record_def)
qed

lemma turn_records_storable:
  assumes "headers_ok frepr arr" and "r \<in> set (turn_records names arr)"
  shows "storable frepr r"
proof -
  from assms(2) obtain name parts now where arr: "map_of arr name = Some (parts, now)"
    and r: "message_record name parts now = Some r"
    by (auto simp: turn_records_def map_filter_def split: option.splits)
  from r show ?thesis
  proof (cases rule: message_record_SomeE)
    case (1 hdr payload rest header)
    then show ?thesis
      using assms(1) map_of_SomeD [OF arr] by (fastforce simp: headers_ok_def storable_def)
  qed
qed

lemma loop_records_storable:
  "\<forall>(stop, now, arr)\<in>set turns. headers_ok frepr arr \<Longrightarrow> r \<in> set (loop_records names dl turns) \<Longrightarrow> storable frepr r"
  by (induction turns) (auto split: if_splits intro: turn_records_storable)

section \<open>What is played\<close>

text \<open>A message as its record asks for it: when it is due, on which channel, its parts.\<close>

definition due_message ::
    "(pyfloat \<Rightarrow> string) \<Rightarrow> string list \<Rightarrow> pyfloat \<Rightarrow> int \<Rightarrow> int \<Rightarrow> recording \<Rightarrow> played option" where
  "due_message frepr names speed zf zw r =
     (case (offset_ns speed zf (rec_ts_ns r), play_one frepr names r 0) of
        (Inr off, Inr (Some m)) \<Rightarrow> Some (m\<lparr>pl_at := zw + off\<rparr>)
      | _ \<Rightarrow> None)"

definition delivered :: "played \<Rightarrow> played \<Rightarrow> bool" where
  "delivered due m \<longleftrightarrow> pl_at due \<le> pl_at m \<and> m\<lparr>pl_at := pl_at due\<rparr> = due"

text \<open>The clock does not go back and the stop event stays set.\<close>

definition paced :: "obs list \<Rightarrow> bool" where
  "paced w \<longleftrightarrow> sorted_wrt (\<lambda>(s, t) (s', t'). t \<le> t' \<and> (s \<longrightarrow> s')) w"

lemma play_one_at:
  "play_one frepr names r now = Inr sent \<Longrightarrow>
     play_one frepr names r 0 = Inr (map_option (\<lambda>m. m\<lparr>pl_at := 0\<rparr>) sent) \<and> (\<forall>m. sent = Some m \<longrightarrow> pl_at m = now)"
  by (cases "pub_of names (rec_channel r)") (auto simp: play_one_def split: option.splits)

text \<open>If the sleep is left with the stop event clear, the clock has reached its target.\<close>

lemma sleep_paced:
  "sleep_monotonic target w = Some ((False, now) # w') \<Longrightarrow> paced w \<Longrightarrow> target \<le> now \<and> paced w'"
proof (induction target w rule: sleep_monotonic.induct)
  case (2 target stop t w)
  show ?case
  proof (cases "stop \<or> target \<le> t")
    case True
    with "2.prems" show ?thesis by (auto simp: paced_def split: if_splits)
  next
    case False
    with 2 show ?thesis by (simp add: paced_def)
  qed
qed simp

lemma play_pass_delivers:
  assumes "play_pass frepr names speed zf zw rs w = (out, e)" and "paced w"
  shows "\<exists>n. list_all2 delivered (List.map_filter (due_message frepr names speed zf zw) (take n rs)) out
    \<and> (\<forall>w'. e = Over w' \<longrightarrow> (\<exists>ob\<in>set w. fst ob) \<or> n \<ge> length rs)"
  using assms
proof (induction rs arbitrary: w out)
  case Nil
  then show ?case by (auto simp: map_filter_simps)
next
  case (Cons r rs)
  show ?case
  proof (cases w)
    case Nil
    with Cons.prems show ?thesis by (intro exI [of _ 0]) (simp add: map_filter_simps)
  next
    case w: (Cons ob v)
    obtain stop t where ob: "ob = (stop, t)" by fastforce
    from Cons.prems(1) [unfolded w ob] show ?thesis
    proof (cases rule: play_pass_cases)
      case Stop
      then show ?thesis using w ob by (intro exI [of _ 0]) (auto simp: map_filter_simps)
    next
      case (Stop_asleep off now w')
      then have "(True, now) \<in> set v" using sleep_suffix [OF Stop_asleep(3)] by auto
      then show ?thesis using Stop_asleep w by (intro exI [of _ 0]) (force simp: map_filter_simps)
    next
      case (Go off now w' sent out')
      have "paced v" using Cons.prems(2) by (simp add: w paced_def)
      then have due: "zw + off \<le> now" "paced w'" using sleep_paced [OF Go(3)] by auto
      from Cons.IH [OF Go(5) due(2)] obtain n where
        n: "list_all2 delivered (List.map_filter (due_message frepr names speed zf zw) (take n rs)) out'"
        "\<forall>w'a. e = Over w'a \<longrightarrow> (\<exists>ob\<in>set w'. fst ob) \<or> n \<ge> length rs" by blast
      have "set w' \<subseteq> set w" using sleep_suffix [OF Go(3)] w by auto
      moreover have "list_all2 delivered (List.map_filter (due_message frepr names speed zf zw) (take (Suc n) (r # rs))) out"
      proof (cases sent)
        case None
        then show ?thesis using Go n play_one_at [OF Go(4)] by (simp add: map_filter_simps due_message_def)
      next
        case (Some m)
        then show ?thesis using Go n play_one_at [OF Go(4)] due(1)
          by (simp add: map_filter_simps due_message_def delivered_def)
      qed
      ultimately show ?thesis using n(2) by (intro exI [of _ "Suc n"]) auto
    qed (auto intro!: exI [of _ 0] simp: map_filter_simps)
  qed
qed

text \<open>Observations from a time on, and how many of them a record takes.\<close>

definition late :: "int \<Rightarrow> obs list \<Rightarrow> nat" where
  "late T w = length (filter (\<lambda>(s, t). T \<le> t) w)"

lemma late_simps [simp]: "late T [] = 0" "late T ((s, t) # w) = (if T \<le> t then Suc (late T w) else late T w)"
  by (simp_all add: late_def)

lemma sleep_late:
  "\<forall>ob\<in>set w. \<not> fst ob \<Longrightarrow> target \<le> T \<Longrightarrow> 0 < late T w
     \<Longrightarrow> \<exists>w'. sleep_monotonic target w = Some w' \<and> late T w \<le> Suc (late T w') \<and> (\<forall>ob\<in>set w'. \<not> fst ob)"
proof (induction target w rule: sleep_monotonic.induct)
  case (2 target stop t w)
  then show ?case by (cases "target \<le> t") auto
qed simp

definition playable :: "string list \<Rightarrow> pyfloat \<Rightarrow> int \<Rightarrow> int \<Rightarrow> int \<Rightarrow> recording \<Rightarrow> bool" where
  "playable names speed zf zw T r \<longleftrightarrow>
     (\<exists>off. offset_ns speed zf (rec_ts_ns r) = Inr off \<and> zw + off \<le> T) \<and> (\<exists>s. rec_channel r = PStr s)"

lemma play_pass_completes:
  assumes "\<forall>ob\<in>set w. \<not> fst ob" and "\<forall>r\<in>set rs. playable names speed zf zw T r" and "3 * length rs \<le> late T w"
  shows "\<exists>out w'. play_pass frepr names speed zf zw rs w = (out, Over w')
    \<and> length out = length (filter (\<lambda>r. \<exists>s\<in>set names. rec_channel r = PStr s) rs)"
  using assms
proof (induction rs arbitrary: w)
  case (Cons r rs)
  obtain off ch where r: "offset_ns speed zf (rec_ts_ns r) = Inr off" "zw + off \<le> T" "rec_channel r = PStr ch"
    using Cons.prems(2) by (auto simp: playable_def)
  from Cons.prems(3) obtain stop t v where w: "w = (stop, t) # v" by (cases w) auto
  with Cons.prems have v: "\<not> stop" "\<forall>ob\<in>set v. \<not> fst ob" "2 + 3 * length rs \<le> late T v"
    by (auto split: if_splits)
  then obtain v1 where v1: "sleep_monotonic (zw + off) v = Some v1" "late T v \<le> Suc (late T v1)" "\<forall>ob\<in>set v1. \<not> fst ob"
    using sleep_late [OF v(2) r(2)] by fastforce
  with v(3) obtain stop' now w' where c: "v1 = (stop', now) # w'" by (cases v1) auto
  with v1 v(3) have w': "\<not> stop'" "\<forall>ob\<in>set w'. \<not> fst ob" "3 * length rs \<le> late T w'"
    by (auto split: if_splits)
  from Cons.IH [OF w'(2) _ w'(3)] Cons.prems(2) obtain out u where
    "play_pass frepr names speed zf zw rs w' = (out, Over u)"
    "length out = length (filter (\<lambda>r. \<exists>s\<in>set names. rec_channel r = PStr s) rs)" by auto
  with v(1) v1(1) w'(1) r c show ?case by (simp add: w play_one_def pub_of_def)
qed simp

section \<open>Properties\<close>

text \<open>
  C27: a recording survives the file: with channels configured, whatever messages come in, malformed
  ones included, \<open>_run_record\<close> never fails on a message, and reading its file back gives exactly the
  records of the well-formed messages (channel, stamp, header, payload), turn by turn and channel by
  channel, up to the stop event or the deadline.
\<close>

theorem recorded_messages_read_back:
  assumes "enabled_channels cfg = Inr channels" and "channels \<noteq> []" and "\<forall>(name, ep)\<in>set channels. is_str ep"
    and "record_deadline max_seconds start = Inr dl"
    and "\<forall>(stop, now, arr)\<in>set turns. headers_ok frepr arr"
  shows "\<exists>text. run_record frepr cfg max_seconds start turns = Inr (0, Some text)
    \<and> list_read_all text = Inr (loop_records (map fst channels) dl turns)"
proof -
  let ?rs = "loop_records (map fst channels) dl turns"
  obtain subs where subs: "rmap open_sub channels = Inr subs" "map fst subs = map fst channels"
  proof
    let ?open = "\<lambda>(n, ep). (n, sub (case ep of PStr s \<Rightarrow> s) 8 [] None)"
    show "rmap open_sub channels = Inr (map ?open channels)"
      using assms(3) by (intro rmap_total) (auto simp: open_sub_def is_str_def split: pyval.splits)
    show "map fst (map ?open channels) = map fst channels" by auto
  qed
  have "record_loop frepr (map fst channels) dl turns ([], 0) = Inr (recorded frepr ?rs)"
    using record_loop_recorded [of frepr "map fst channels" dl turns "[]"] by (simp add: recorded_def)
  then have "run_record frepr cfg max_seconds start turns = Inr (0, Some (fst (recorded frepr ?rs)))"
    using assms(1,2,4) subs by (simp add: run_record_def recorded_def)
  moreover have "list_read_all (fst (recorded frepr ?rs)) = Inr ?rs"
    using recording_read_back loop_records_storable [OF assms(5)] by (simp add: recorded_def)
  ultimately show ?thesis by blast
qed

text \<open>
  C28: a replay sends what was recorded, in order and never early: over a clock that does not go back
  and a stop event that stays set, the messages of a pass are those of a prefix of the records on the
  enabled channels, each with its channel, header and payload, none before the time its stamp and the
  speed give; and a pass that ends without the stop event has sent them all.
\<close>

theorem replay_in_order_never_early:
  assumes "paced ((False, start) # w)"
    and "play_passes frepr names speed False rs ((False, start) # w) = (out, e)"
  shows "\<exists>n. list_all2 delivered
      (List.map_filter (due_message frepr names (flt_max speed (Fin (1 / 1000000))) (rec_ts_ns (hd rs)) start) (take n rs)) out
    \<and> (\<forall>w'. e = Over w' \<longrightarrow> (\<exists>ob\<in>set w. fst ob) \<or> length rs \<le> n)"
proof -
  have "play_pass frepr names (flt_max speed (Fin (1 / 1000000))) (rec_ts_ns (hd rs)) start rs w = (out, e)"
    using assms(2) by (auto split: prod.splits pass_end.splits)
  moreover have "paced w" using assms(1) by (simp add: paced_def)
  ultimately show ?thesis by (rule play_pass_delivers)
qed

text \<open>
  C29: a replay comes to its end: if the stop event stays clear, every record's channel is a string,
  and the clock is looked at three times per record after the last due time, the pass is over and has
  sent one message for every record of an enabled channel.
\<close>

theorem replay_completes:
  assumes "\<forall>ob\<in>set w. \<not> fst ob"
    and "\<forall>r\<in>set rs. playable names (flt_max speed (Fin (1 / 1000000))) (rec_ts_ns (hd rs)) start T r"
    and "3 * length rs \<le> late T w"
  shows "\<exists>out w'. play_passes frepr names speed False rs ((False, start) # w) = (out, Over w')
    \<and> length out = length (filter (\<lambda>r. \<exists>s\<in>set names. rec_channel r = PStr s) rs)"
proof -
  obtain out w' where "play_pass frepr names (flt_max speed (Fin (1 / 1000000))) (rec_ts_ns (hd rs)) start rs w = (out, Over w')"
    "length out = length (filter (\<lambda>r. \<exists>s\<in>set names. rec_channel r = PStr s) rs)"
    using play_pass_completes [OF assms] by blast
  then show ?thesis by simp
qed

section \<open>Examples\<close>

definition demo_cfg :: pydict where
  "demo_cfg = [(''sensor'', PDict [(''channels'', PDict
     [(''rgb'', PStr ''ipc://rgb''), (''depth'', PStr ''ipc://depth''), (''imu'', PNone)])])]"

definition demo_turns :: "(bool \<times> int \<times> arrivals) list" where
  "demo_turns =
     [(False, 10, [(''depth'', [''{}'', [CHR 0xFF]], 11), (''rgb'', [''{'', []], 12)]),
      (False, 20, [(''rgb'', [''[1]'', ''x''], 21)]),
      (True, 30, [(''rgb'', [''[2]'', ''x''], 31)])]"

theorem recorded_messages_read_back_witness:
  "\<exists>text. run_record half_repr demo_cfg (Fin 0) 5 demo_turns = Inr (0, Some text)
    \<and> list_read_all text = Inr
        [\<lparr>rec_channel = PStr ''depth'', rec_ts_ns = 11, rec_header = PDict [], rec_payload = [CHR 0xFF]\<rparr>,
         \<lparr>rec_channel = PStr ''rgb'', rec_ts_ns = 21, rec_header = PList [PInt 1], rec_payload = ''x''\<rparr>]"
proof -
  have hdrs: "decode_header ''{}'' = Inr (PDict [])" "decode_header ''{'' = Inl json_error"
    "decode_header ''[1]'' = Inr (PList [PInt 1])" "decode_header ''[2]'' = Inr (PList [PInt 2])"
    "decode_header [CHR 0xFF] = Inl (ValueError ''UnicodeDecodeError'')"
    "decode_header [] = Inl json_error" "decode_header ''x'' = Inl json_error"
    by code_simp+
  have "enabled_channels demo_cfg = Inr [(''rgb'', PStr ''ipc://rgb''), (''depth'', PStr ''ipc://depth'')]"
    by code_simp
  moreover have "record_deadline (Fin 0) 5 = Inr 0" by (simp add: record_deadline_def)
  moreover have "\<forall>(stop, now, arr)\<in>set demo_turns. headers_ok half_repr arr"
    by (simp add: demo_turns_def headers_ok_def hdrs)
  ultimately have "\<exists>text. run_record half_repr demo_cfg (Fin 0) 5 demo_turns = Inr (0, Some text)
    \<and> list_read_all text = Inr (loop_records [''rgb'', ''depth''] 0 demo_turns)"
    using recorded_messages_read_back [of demo_cfg "[(''rgb'', PStr ''ipc://rgb''), (''depth'', PStr ''ipc://depth'')]"
      "Fin 0" 5 0 demo_turns half_repr] by (simp add: is_str_def)
  moreover have "loop_records [''rgb'', ''depth''] 0 demo_turns =
        [\<lparr>rec_channel = PStr ''depth'', rec_ts_ns = 11, rec_header = PDict [], rec_payload = [CHR 0xFF]\<rparr>,
         \<lparr>rec_channel = PStr ''rgb'', rec_ts_ns = 21, rec_header = PList [PInt 1], rec_payload = ''x''\<rparr>]"
    by (simp add: demo_turns_def turn_records_def map_filter_simps message_record_def hdrs json_error_def)
  ultimately show ?thesis by simp
qed

definition demo_records :: "recording list" where
  "demo_records = [demo_record, demo_record\<lparr>rec_ts_ns := 37, rec_channel := PStr ''imu''\<rparr>, demo_record\<lparr>rec_ts_ns := 57\<rparr>]"

definition demo_obs :: "obs list" where
  "demo_obs = [(False, 100), (False, 101), (False, 102), (False, 103), (False, 110), (False, 119), (False, 121),
     (False, 122), (False, 123), (False, 124), (False, 125), (False, 126), (False, 127), (False, 128), (False, 129)]"

lemma demo_offsets:
  "offset_ns (Fin 2) 17 17 = Inr 0" "offset_ns (Fin 2) 17 37 = Inr 10" "offset_ns (Fin 2) 17 57 = Inr 20"
  by (simp_all add: offset_ns_def trunc_def)

lemma demo_speed: "flt_max (Fin 2) (Fin (1 / 1000000)) = Fin 2"
  by (simp add: flt_max_def)

definition demo_out :: "played list" where
  "demo_out =
    [\<lparr>pl_at = 102, pl_channel = ''depth'', pl_header = dumps True half_repr (rec_header demo_record), pl_payload = rec_payload demo_record\<rparr>,
      \<lparr>pl_at = 123, pl_channel = ''depth'', pl_header = dumps True half_repr (rec_header demo_record), pl_payload = rec_payload demo_record\<rparr>]"

lemma demo_play:
  "play_passes half_repr [''depth''] (Fin 2) False demo_records ((False, 100) # demo_obs) =
    (demo_out,
     Over [(False, 124), (False, 125), (False, 126), (False, 127), (False, 128), (False, 129)])"
  by (simp add: demo_records_def demo_record_def demo_obs_def demo_out_def demo_speed demo_offsets play_one_def pub_of_def)

theorem replay_in_order_never_early_witness:
  "\<exists>n. list_all2 delivered
      (List.map_filter (due_message half_repr [''depth''] (flt_max (Fin 2) (Fin (1 / 1000000))) (rec_ts_ns (hd demo_records)) 100)
        (take n demo_records))
      demo_out
    \<and> 3 \<le> n"
proof -
  have "paced ((False, 100) # demo_obs)" by (simp add: paced_def demo_obs_def)
  moreover have "\<not> (\<exists>ob\<in>set demo_obs. fst ob)" by (simp add: demo_obs_def)
  moreover have "length demo_records = 3" by (simp add: demo_records_def)
  ultimately show ?thesis using replay_in_order_never_early [OF _ demo_play] by auto
qed

theorem replay_completes_witness:
  "\<exists>out w'. play_passes half_repr [''depth''] (Fin 2) False demo_records ((False, 100) # demo_obs) = (out, Over w')
    \<and> length out = 2"
proof -
  have "\<forall>ob\<in>set demo_obs. \<not> fst ob" by (simp add: demo_obs_def)
  moreover have "\<forall>r\<in>set demo_records. playable [''depth''] (flt_max (Fin 2) (Fin (1 / 1000000))) (rec_ts_ns (hd demo_records)) 100 121 r"
    by (simp add: demo_records_def demo_record_def playable_def demo_speed demo_offsets)
  moreover have "3 * length demo_records \<le> late 121 demo_obs" by (simp add: demo_records_def demo_obs_def)
  moreover have "length (filter (\<lambda>r. \<exists>s\<in>set [''depth'']. rec_channel r = PStr s) demo_records) = 2"
    by (simp add: demo_records_def demo_record_def)
  ultimately show ?thesis using replay_completes [of demo_obs demo_records "[''depth'']" "Fin 2" 100 121 half_repr] by simp
qed

end
