(* ===== verification/Logs.thy ===== *)
theory Logs
  imports PyVal
begin

text \<open>
  The logging set-up every service calls, \<open>python/lexaire/logs.py\<close>, over the registry of the
  \<open>logging\<close> module: loggers by name with their handlers, level and propagation, and the way a record
  goes up from its logger to the root. A handler is its identity, the service of its format, and
  whether it carries the mark of this library.
\<close>

section \<open>The registry\<close>

record handler =
  h_id :: nat
  h_service :: string
  h_owned :: bool

record logger =
  lg_handlers :: "handler list"
  lg_level :: nat
  lg_propagate :: bool

record log_state =
  ls_loggers :: "(string \<times> logger) list"
  ls_root :: logger
  ls_next :: nat

text \<open>\<open>getLogger(name)\<close> and an update of it; the root has the names \<open>""\<close> and \<open>"root"\<close>.\<close>

definition is_root :: "string \<Rightarrow> bool" where
  "is_root name = (name = [] \<or> name = ''root'')"

definition fresh_logger :: logger where
  "fresh_logger = \<lparr>lg_handlers = [], lg_level = 0, lg_propagate = True\<rparr>"

definition get_logger :: "log_state \<Rightarrow> string \<Rightarrow> logger" where
  "get_logger st name =
     (if is_root name then ls_root st
      else case map_of (ls_loggers st) name of Some lg \<Rightarrow> lg | None \<Rightarrow> fresh_logger)"

definition set_logger :: "string \<Rightarrow> logger \<Rightarrow> log_state \<Rightarrow> log_state" where
  "set_logger name lg st =
     (if is_root name then st\<lparr>ls_root := lg\<rparr>
      else st\<lparr>ls_loggers := AList.update name lg (ls_loggers st)\<rparr>)"

text \<open>The level a name stands for, in any case; \<open>setLevel\<close> raises on any other.\<close>

definition level_of :: "string \<Rightarrow> nat result" where
  "level_of level =
     (case map_of [(''critical'', 50), (''fatal'', 50), (''error'', 40), (''warn'', 30), (''warning'', 30),
                   (''info'', 20), (''debug'', 10), (''notset'', 0)] (map lower_c level) of
        Some n \<Rightarrow> Inr n
      | None \<Rightarrow> Inl (ValueError (''Unknown level: '' @ py_repr level)))"

section \<open>\<open>configure\<close>\<close>

text \<open>The state after the call, and the exception if it ends in one.\<close>

definition configure :: "string \<Rightarrow> string \<Rightarrow> log_state \<Rightarrow> log_state \<times> py_error option" where
  "configure service level st0 =
     (let h = \<lparr>h_id = ls_next st0, h_service = service, h_owned = True\<rparr>;
          st = st0\<lparr>ls_next := ls_next st0 + 1\<rparr>;
          st = set_logger service ((get_logger st service)\<lparr>lg_handlers := [h]\<rparr>) st
      in case level_of level of
           Inl e \<Rightarrow> (st, Some e)
         | Inr n \<Rightarrow>
             let st = set_logger service ((get_logger st service)\<lparr>lg_level := n, lg_propagate := False\<rparr>) st;
                 root = ls_root st
             in (st\<lparr>ls_root := root\<lparr>lg_handlers := filter (\<lambda>h. \<not> h_owned h) (lg_handlers root) @ [h],
                                    lg_level := n\<rparr>\<rparr>, None))"

section \<open>Where a record goes\<close>

text \<open>The names from a logger up to the root: \<open>a.b.c\<close>, \<open>a.b\<close>, \<open>a\<close>.\<close>

definition ancestors :: "string \<Rightarrow> string list" where
  "ancestors name =
     (let parts = split_on (CHR ''.'') name
      in rev (map (\<lambda>k. join ''.'' (take (Suc k) parts)) [0..<length parts]))"

fun climb :: "log_state \<Rightarrow> string list \<Rightarrow> handler list" where
  "climb st [] = lg_handlers (ls_root st)"
| "climb st (name # up) =
     (case map_of (ls_loggers st) name of
        None \<Rightarrow> climb st up
      | Some lg \<Rightarrow> lg_handlers lg @ (if lg_propagate lg then climb st up else []))"

definition emitted :: "log_state \<Rightarrow> string \<Rightarrow> handler list" where
  "emitted st name = (if is_root name then lg_handlers (ls_root st) else climb st (ancestors name))"

section \<open>Lemmas\<close>

definition foreign :: "log_state \<Rightarrow> handler list" where
  "foreign st = filter (\<lambda>h. \<not> h_owned h) (lg_handlers (ls_root st))"

lemma join_split_on: "join [c] (split_on c s) = s"
proof (induction s)
  case (Cons x xs)
  show ?case
  proof (cases "x = c")
    case True
    with Cons show ?thesis by (cases "split_on c xs") simp_all
  next
    case False
    obtain y ys where "split_on c xs = y # ys" by (cases "split_on c xs") auto
    with Cons False show ?thesis by (cases ys) simp_all
  qed
qed simp

lemma hd_ancestors: "\<exists>up. ancestors name = name # up"
proof -
  let ?p = "split_on (CHR ''.'') name"
  obtain n where n: "length ?p = Suc n" by (cases ?p) auto
  then have "take (Suc n) ?p = ?p" by simp
  then show ?thesis using n by (simp add: ancestors_def join_split_on)
qed

lemma climb_unknown: "\<forall>n\<in>set names. map_of (ls_loggers st) n = None \<Longrightarrow> climb st names = lg_handlers (ls_root st)"
  by (induction names) simp_all

lemma configure_result:
  assumes "configure service level st = (st', None)" and "\<not> is_root service"
  shows "lg_handlers (ls_root st') = foreign st @ [\<lparr>h_id = ls_next st, h_service = service, h_owned = True\<rparr>]
    \<and> map_of (ls_loggers st') service = Some \<lparr>lg_handlers = [\<lparr>h_id = ls_next st, h_service = service, h_owned = True\<rparr>],
         lg_level = projr (level_of level), lg_propagate = False\<rparr>"
proof (cases "level_of level")
  case (Inl e)
  with assms show ?thesis by (simp add: configure_def Let_def)
next
  case (Inr n)
  with assms show ?thesis
    by (auto simp: configure_def Let_def set_logger_def get_logger_def foreign_def update_conv')
qed

section \<open>Properties\<close>

text \<open>
  Whatever was set up before, by an earlier \<open>configure\<close> of any service or by others: after
  \<open>configure\<close> a record of the service goes to its new handler once and nowhere else, one of a module
  without a logger of its own goes to the handlers others put on the root, in their order, and to the
  new handler once; so calling it again never doubles a line, and no foreign handler is lost.
\<close>

theorem configure_emits_once:
  assumes "configure service level st = (st', None)" and "\<not> is_root service"
  shows "\<exists>h. h_owned h \<and> h_service h = service \<and> emitted st' service = [h]
    \<and> foreign st' = foreign st
    \<and> (\<forall>name. \<not> is_root name \<longrightarrow> (\<forall>n\<in>set (ancestors name). map_of (ls_loggers st') n = None)
          \<longrightarrow> emitted st' name = foreign st @ [h])"
proof -
  let ?h = "\<lparr>h_id = ls_next st, h_service = service, h_owned = True\<rparr>"
  note r = configure_result [OF assms]
  obtain up where "ancestors service = service # up" using hd_ancestors by blast
  with r assms(2) have "emitted st' service = [?h]" by (simp add: emitted_def)
  moreover have "foreign st' = foreign st" using r by (simp add: foreign_def)
  moreover have "emitted st' name = foreign st @ [?h]"
    if "\<not> is_root name" "\<forall>n\<in>set (ancestors name). map_of (ls_loggers st') n = None" for name
    using that r by (simp add: emitted_def climb_unknown)
  ultimately show ?thesis by (intro exI [of _ ?h]) simp
qed

definition stale_logs :: log_state where
  "stale_logs = fst (configure ''stt'' ''debug''
     \<lparr>ls_loggers = [], ls_root = \<lparr>lg_handlers = [\<lparr>h_id = 0, h_service = ''pytest'', h_owned = False\<rparr>],
        lg_level = 30, lg_propagate = True\<rparr>, ls_next = 1\<rparr>)"

theorem configure_emits_once_witness:
  "emitted (fst (configure ''orchestrator'' ''Info'' stale_logs)) ''lexaire.subscriber'' =
     [\<lparr>h_id = 0, h_service = ''pytest'', h_owned = False\<rparr>, \<lparr>h_id = 2, h_service = ''orchestrator'', h_owned = True\<rparr>]"
proof -
  let ?st = "fst (configure ''orchestrator'' ''Info'' stale_logs)"
  have c: "configure ''orchestrator'' ''Info'' stale_logs = (?st, None)" by code_simp
  have "\<forall>n\<in>set (ancestors ''lexaire.subscriber''). map_of (ls_loggers ?st) n = None" by code_simp
  moreover have "\<not> is_root ''lexaire.subscriber''" "\<not> is_root ''orchestrator''" by (simp_all add: is_root_def)
  ultimately obtain h where "emitted ?st ''lexaire.subscriber'' = foreign stale_logs @ [h]"
    "emitted ?st ''orchestrator'' = [h]"
    using configure_emits_once [OF c] by blast
  moreover have "emitted ?st ''orchestrator'' = [\<lparr>h_id = 2, h_service = ''orchestrator'', h_owned = True\<rparr>]" by code_simp
  moreover have "foreign stale_logs = [\<lparr>h_id = 0, h_service = ''pytest'', h_owned = False\<rparr>]" by code_simp
  ultimately show ?thesis by simp
qed

end
