(* ===== verification/Replay_Cli.thy ===== *)
theory Replay_Cli
  imports Replay Logs
begin

text \<open>
  \<open>cli\<close> of \<open>python/services/replay/main.py\<close> after the argument parser: the configuration is loaded, the
  logging set up, and the mode run. The file is its contents; which of its observations a mode looks at
  are its schedule.
\<close>

datatype replay_args =
    RecordArgs pyfloat
  | PlayArgs pyfloat bool "string option"

datatype replay_run =
    Failed py_error
  | Recorded "(int \<times> string option) result"
  | Played "played list \<times> int option result"

text \<open>
  \<open>logs.configure(service, cfg.get("logging.level", "INFO"))\<close>: on a level that is no string, \<open>upper\<close> raises
  at the point where an unknown level does.
\<close>

definition service_log :: "string \<Rightarrow> pydict \<Rightarrow> log_state \<Rightarrow> log_state \<times> py_error option" where
  "service_log service cfg st =
     (case cfg_get cfg ''logging.level'' (PStr ''INFO'') of
        PStr level \<Rightarrow> configure service level st
      | _ \<Rightarrow> (fst (configure service [] st), Some (AttributeError ''upper'')))"

definition replay_cli ::
    "(pyfloat \<Rightarrow> string) \<Rightarrow> pydict result \<Rightarrow> replay_args \<Rightarrow> int \<Rightarrow> (bool \<times> int \<times> arrivals) list
     \<Rightarrow> string \<Rightarrow> obs list \<Rightarrow> log_state \<Rightarrow> log_state \<times> replay_run" where
  "replay_cli frepr loaded args start turns contents w st =
     (case loaded of
        Inl e \<Rightarrow> (st, Failed e)
      | Inr cfg \<Rightarrow>
          (case service_log ''replay'' cfg st of
             (st', Some e) \<Rightarrow> (st', Failed e)
           | (st', None) \<Rightarrow>
               (st', case args of
                  RecordArgs max_seconds \<Rightarrow> Recorded (run_record frepr cfg max_seconds start turns)
                | PlayArgs speed again host \<Rightarrow> Played (run_play frepr cfg host speed again contents w))))"

text \<open>A level nobody knows ends the harness before a file is opened or a socket bound.\<close>

lemma unknown_level_fails:
  assumes "cfg_get cfg ''logging.level'' (PStr ''INFO'') = PStr level" and "level_of level = Inl e"
  shows "\<exists>st'. replay_cli frepr (Inr cfg) args start turns contents w st = (st', Failed e)"
  using assms by (simp add: replay_cli_def service_log_def configure_def Let_def)

end
