(* ===== verification/Orch_Main.thy ===== *)
theory Orch_Main
  imports Orch_Props Orch_Examples
begin

text \<open>
  The life of the orchestrator process: \<open>start\<close>, \<open>run\<close> and \<open>stop\<close> of
  \<open>python/services/orchestrator/main.py\<close> as \<open>cli\<close> puts them together, and the proof that the stop
  signal ends it. The threads that \<open>start\<close> spawns are the events of the schedule; joining them, closing
  the sockets and shutting the executor down leave no trace in the state.
\<close>

section \<open>Start and stop\<close>

definition orch_start :: "orch \<Rightarrow> orch" where
  "orch_start ob = publish_status ''idle'' ''startup'' ob"

definition orch_stop :: "orch \<Rightarrow> orch" where
  "orch_stop ob = reset_req_socket (ob\<lparr>stop_event := True, preempt_event := True\<rparr>)"

text \<open>
  \<open>cli\<close> after the constructor: \<open>None\<close> is a service that runs for ever; an exception of \<open>run\<close> leaves
  \<open>cli\<close> after \<open>stop\<close>.
\<close>

definition orch_main :: "'w world_ops \<Rightarrow> 'w sys \<Rightarrow> 'w sys result option" where
  "orch_main ops s =
     Option.bind (run ops (upd orch_start s)) (\<lambda>r. Some (rbind r (\<lambda>t. Inr (upd orch_stop t))))"

section \<open>A stop signal that is due\<close>

definition stop_due :: "'w sys \<Rightarrow> bool" where
  "stop_due s \<longleftrightarrow> stop_event (orch_of s) \<or> EvStop \<in> set (concat (schedule s))"

definition stop_waits :: "'w sys \<Rightarrow> 'w sys \<Rightarrow> bool" where
  "stop_waits s t \<longleftrightarrow> length (schedule t) \<le> length (schedule s) \<and> (stop_due s \<longrightarrow> stop_due t)"

lemma stop_steps: "EvStop \<in> set evs \<Longrightarrow> stop_event (thread_steps frepr ob evs)"
proof (induction evs arbitrary: ob)
  case (Cons e evs)
  have "thread_steps frepr ob (e # evs) = thread_steps frepr (thread_step frepr ob e) evs"
    by (simp add: thread_steps_def)
  with Cons show ?case by (auto simp: thread_steps_flags)
qed simp

lemma yield_stop_waits: "stop_waits s (yield ops s)"
  by (auto simp: stop_waits_def stop_due_def yield_def thread_steps_flags stop_steps split: list.splits)

lemma stop_waitsI:
  "schedule t = schedule s \<Longrightarrow> stop_event (orch_of t) = stop_event (orch_of s) \<Longrightarrow> stop_waits s t"
  by (simp add: stop_waits_def stop_due_def)

interpretation stw: main_effect stop_waits
proof unfold_locales
  fix s t u :: "'a sys"
  show "stop_waits s t \<Longrightarrow> stop_waits t u \<Longrightarrow> stop_waits s u" by (auto simp: stop_waits_def)
qed (auto simp: add_history_def dispatch_fields(6,8) intro: stop_waitsI yield_stop_waits)

lemma due_waits: "stop_due s \<Longrightarrow> stop_waits s t \<Longrightarrow> stop_due t"
  by (simp add: stop_waits_def)

text \<open>With the signal due, nothing waits for ever.\<close>

lemma await_due: "stop_due s \<Longrightarrow> await_future ops p s \<noteq> None"
proof (cases p)
  case None
  assume "stop_due s"
  then have "flagged s \<or> (\<exists>e\<in>set (concat (schedule s)). wake_event e)"
    by (auto simp: stop_due_def flagged_def wake_event_def)
  from poll_never_wakes [OF this, of ops] None show ?thesis by (auto simp: await_future_def)
qed (simp add: await_future_def)

lemma mission_iter_due:
  assumes "stop_due s"
  shows "mission_iter ops cmd n v s \<noteq> None"
  using HOL.refl [of "mission_iter ops cmd n v s"]
proof (cases rule: mission_iter_cases)
  case (hung ctx p ans w)
  have "stop_due (thinking ops cmd n v s)" by (rule due_waits [OF assms stw.thinking])
  then have "stop_due ((thinking ops cmd n v s)\<lparr>world := w\<rparr>)" by (rule due_waits [OF _ stw.outside])
  from await_due [OF this, of ops p] hung(5) show ?thesis by simp
qed auto

lemma mission_loop_due: "stop_due s \<Longrightarrow> mission_loop ops cmd n v s \<noteq> None"
proof (induction ops cmd n v s rule: mission_loop.induct)
  case (1 ops cmd n v s)
  from mission_iter_due [OF "1.prems"] obtain r where r: "mission_iter ops cmd n v s = Some r" by blast
  have "stop_due s'" if "r = Again v' s'" for v' s'
    using due_waits [OF "1.prems"] stw.iteration r that by blast
  with "1.IH" [OF _ r] show ?case
    by (cases r) (auto simp: r mission_loop.simps [of ops cmd n v s])
qed

lemma start_command_due: "stop_due s \<Longrightarrow> stop_due (upd (start_command cmd) s)"
  by (simp add: stop_due_def start_command_def upd_def)

lemma on_command_due: "stop_due s \<Longrightarrow> on_command ops cmd s \<noteq> None"
proof -
  assume "stop_due s"
  then have "stop_due (upd (start_command cmd) (yield ops s))"
    using due_waits yield_stop_waits start_command_due by blast
  then have *: "(mission_loop ops cmd n v (upd (start_command cmd) (yield ops s)) = None) = False" for n v
    using mission_loop_due by blast
  then show ?thesis
    by (auto simp: on_command_def Let_def * split: sum.split option.split)
qed

lemma on_command_waits:
  assumes "on_command ops cmd s = Some (Inr t)" and "stop_due s"
  shows "stop_due t \<and> length (schedule t) \<le> length (schedule s)"
proof -
  let ?u = "upd (start_command cmd) (yield ops s)"
  have "stop_due ?u" using assms(2) due_waits yield_stop_waits start_command_due by blast
  moreover have "length (schedule ?u) \<le> length (schedule s)"
    using yield_stop_waits [of s ops] by (simp add: stop_waits_def upd_def)
  ultimately show ?thesis using stw.command [OF assms(1)] by (auto simp: stop_waits_def)
qed

text \<open>A turn of the decision loop takes at least one group of events from the schedule.\<close>

lemma run_turn_due:
  assumes "stop_due s" and "\<not> stop_event (orch_of s)"
  shows "\<exists>r. run_turn ops s = Some r
    \<and> (\<forall>t. r = Inr t \<longrightarrow> stop_due t \<and> length (schedule t) < length (schedule s))"
proof -
  let ?y = "yield ops s"
  have y: "stop_due ?y" using assms(1) due_waits yield_stop_waits by blast
  have less: "length (schedule ?y) < length (schedule s)"
    using assms by (auto simp: stop_due_def yield_def split: list.splits)
  show ?thesis
  proof (cases "get_nowait (command_q (orch_of ?y))")
    case None
    then show ?thesis using y less by (simp add: run_turn_def Let_def)
  next
    case (Some cq)
    obtain cmd q where cq: "cq = (cmd, q)" by fastforce
    let ?z = "upd (\<lambda>ob. ob\<lparr>command_q := q\<rparr>) ?y"
    have z: "stop_due ?z" "schedule ?z = schedule ?y" using y by (simp_all add: stop_due_def upd_def)
    from on_command_due [OF z(1)] obtain r where "on_command ops cmd ?z = Some r" by blast
    with Some cq on_command_waits [OF _ z(1)] less z(2) show ?thesis
      by (fastforce simp: run_turn_def Let_def)
  qed
qed

lemma run_due:
  "stop_due s \<Longrightarrow> \<exists>r. run ops s = Some r \<and> (\<forall>t. r = Inr t \<longrightarrow> stop_event (orch_of t))"
proof (induction "length (schedule s)" arbitrary: s rule: less_induct)
  case less
  show ?case
  proof (cases "stop_event (orch_of s)")
    case True
    then show ?thesis by (simp add: run.simps [of ops s])
  next
    case False
    from run_turn_due [OF less.prems False, of ops] obtain r where r: "run_turn ops s = Some r"
      "\<forall>t. r = Inr t \<longrightarrow> stop_due t \<and> length (schedule t) < length (schedule s)" by blast
    show ?thesis
    proof (cases r)
      case (Inl e)
      with r False show ?thesis by (simp add: run.simps [of ops s])
    next
      case (Inr t)
      with r less.hyps [of t] False show ?thesis by (auto simp: run.simps [of ops s])
    qed
  qed
qed

section \<open>Properties\<close>


declare run.simps [code]

text \<open>A command whose VLM call never returns, then the stop signal.\<close>

definition hung_then_stopped :: "script sys" where
  "hung_then_stopped = demo
     [[EvCommand (Inr (command_asdict (say ''take off'')))], [], [], [EvStop]]
     ([(None, Inr \<lparr>thought = [], tool_calls = []\<rparr>)], [])"


end
