(* ===== verification/Vlm_Gemini.thy ===== *)
theory Vlm_Gemini
  imports Json Orch_Mission
begin

text \<open>
  The Gemini backend, \<open>python/services/orchestrator/vlm_gemini.py\<close>, and the tool schemas it sends,
  \<open>tools.py\<close>: the prompt that is built from a context, the reading of the model's answer, and the
  construction from the configuration. The \<open>google.genai\<close> client and Pillow are parameters: an answer
  of the client is data, or the exception it raises. A character of the prompt beyond Latin-1 (the dash
  and the arrow of the fixed text) stands as its UTF-8 bytes.
\<close>

section \<open>Tool schemas\<close>

definition em_dash :: string where "em_dash = [CHR 0xE2, CHR 0x80, CHR 0x94]"
definition right_arrow :: string where "right_arrow = [CHR 0xE2, CHR 0x86, CHR 0x92]"

text \<open>A schema is a dict with these three keys; the parameters are JSON data.\<close>

record tool_schema =
  ts_name :: string
  ts_description :: string
  ts_parameters :: pydict

definition tool_schema :: "string \<Rightarrow> string \<Rightarrow> pydict \<Rightarrow> tool_schema" where
  "tool_schema name descr params = \<lparr>ts_name = name, ts_description = descr, ts_parameters = params\<rparr>"

definition number_arg :: "string \<times> string \<Rightarrow> string \<times> pyval" where
  "number_arg = (\<lambda>(k, descr). (k, PDict [(''type'', PStr ''number''), (''description'', PStr descr)]))"

definition object_schema :: "(string \<times> string) list \<Rightarrow> string list \<Rightarrow> pydict" where
  "object_schema props req =
     [(''type'', PStr ''object''), (''properties'', PDict (map number_arg props)),
      (''required'', PList (map PStr req))]"

definition yaw_arg :: "string \<times> string" where
  "yaw_arg = (''yaw_deg'', ''Absolute heading in degrees (0=North, CW positive). '' @ ''Omit to hold current heading.'')"

definition tool_schemas :: "tool_schema list" where
  "tool_schemas =
     [tool_schema ''arm'' ''Arm the vehicle (requires the pilot's spoken arm confirmation).''
        (object_schema [] []),
      tool_schema ''disarm'' ''Disarm the vehicle. Only on the ground.'' (object_schema [] []),
      tool_schema ''takeoff'' ''Take off to the given altitude (meters above home).''
        (object_schema
           [(''altitude_m'', ''Target altitude AGL in meters. Must be <= safety.max_altitude_m.'')]
           [''altitude_m'']),
      tool_schema ''land'' ''Land in place at the current position.'' (object_schema [] []),
      tool_schema ''return_to_launch'' ''Return to the home position and land.'' (object_schema [] []),
      tool_schema ''hold'' (''Switch to HOLD '' @ em_dash @ '' hover at the current position.'')
        (object_schema [] []),
      tool_schema ''goto_ned''
        (''Fly to a position in the local NED (north-east-down) frame relative to home. '' @
         ''Negative `d` means above home (d = -height_m).'')
        (object_schema
           [(''n'', ''North offset, meters.''), (''e'', ''East offset, meters.''),
            (''d'', ''Down offset, meters (negative = above).''), yaw_arg]
           [''n'', ''e'', ''d'']),
      tool_schema ''set_velocity_ned''
        (''Command a NED velocity setpoint (m/s) for smooth motion. '' @
         ''At least one of vx/vy/vz must be set '' @ em_dash @ '' the bridge rejects '' @
         ''a no-arg call to avoid silently stopping an active '' @
         ''autonomous mode. {vx:0, vy:0, vz:0} is a legitimate hover.'')
        (object_schema
           [(''vx'', ''North velocity (m/s).''), (''vy'', ''East velocity (m/s).''),
            (''vz'', ''Down velocity (m/s); negative = ascend.''), yaw_arg]
           []
         @ [(''anyOf'', PList (map (\<lambda>k. PDict [(''required'', PList [PStr k])]) [''vx'', ''vy'', ''vz'']))]),
      tool_schema ''abort''
        (''Safe stop: trigger an immediate controlled landing. Use this when the pilot '' @
         ''says 'abort'/'stop' or you detect an unsafe situation that needs the vehicle '' @
         ''on the ground now. This is the right tool for almost all emergencies.'')
        (object_schema [] []),
      tool_schema ''kill''
        (''Emergency motor-off: cuts power to the motors instantly. The drone falls. '' @
         ''Use ONLY when a controlled landing is unsafe (e.g. the drone is about to '' @
         ''strike a person and you must drop it now). For everything else, use `abort`.'')
        (object_schema [] [])]"

definition tool_names :: "string list" where
  "tool_names = map ts_name tool_schemas"

section \<open>The prompt\<close>

text \<open>\<open>d.get(k)\<close> on a value; and the items a \<open>for\<close> loop over a value goes through.\<close>

definition get_or_none :: "pyval \<Rightarrow> string \<Rightarrow> pyval result" where
  "get_or_none v k = hdr_get v k PNone"

definition py_iter :: "pyval \<Rightarrow> pyval list result" where
  "py_iter v = (case v of
     PList vs \<Rightarrow> Inr vs
   | PStr s \<Rightarrow> Inr (map (\<lambda>c. PStr [c]) s)
   | PDict d \<Rightarrow> Inr (map (\<lambda>(k, _). PStr k) d)
   | _ \<Rightarrow> Inl (TypeError ''object is not iterable''))"

definition compact_detection :: "pyval \<Rightarrow> pyval result" where
  "compact_detection d =
     rbind (get_or_none d ''label'') (\<lambda>label.
     rbind (get_or_none d ''bbox_xywh'') (\<lambda>bbox.
     rbind (get_or_none d ''depth_m'') (\<lambda>depth.
     rbind (get_or_none d ''xyz_cam_m'') (\<lambda>xyz.
       Inr (PDict [(''label'', label), (''bbox'', bbox), (''depth_m'', depth), (''xyz_cam_m'', xyz)])))))"

definition scene_compact :: "pydict \<Rightarrow> pyval list result" where
  "scene_compact scene =
     (let dets = (case map_of scene ''detections'' of Some v \<Rightarrow> v | None \<Rightarrow> PList [])
      in if truthy dets then rbind (py_iter dets) (rmap compact_detection) else Inr [])"

text \<open>\<open>history[::step]\<close> with \<open>step = max(1, len(history) // 5)\<close> above five samples.\<close>

definition downsample :: "'a list \<Rightarrow> 'a list" where
  "downsample samples =
     (if 5 < length samples then every_nth (max 1 (length samples div 5)) samples else samples)"

definition trend_keys :: "string list" where
  "trend_keys = [''rel_alt_m'', ''ground_speed_mps'', ''battery_pct'', ''flight_mode'', ''armed'']"

definition trend_sample :: "pyval \<Rightarrow> pyval result" where
  "trend_sample h =
     rbind (rmap (\<lambda>k. rbind (get_or_none h k) (\<lambda>v. Inr (k, v))) trend_keys)
       (\<lambda>kvs. Inr (PDict (filter (\<lambda>(k, v). v \<noteq> PNone) kvs)))"

definition telemetry_now :: "pydict \<Rightarrow> pyval" where
  "telemetry_now telem =
     PDict (map (\<lambda>k. (k, case map_of telem k of Some v \<Rightarrow> v | None \<Rightarrow> PNone))
       [''connected'', ''armed'', ''flight_mode'', ''rel_alt_m'', ''yaw_deg'', ''ground_speed_mps'', ''battery_pct''])"

text \<open>\<open>dataclasses.asdict\<close> of a mission.\<close>

definition step_asdict :: "step \<Rightarrow> pyval" where
  "step_asdict s = PDict
     [(''tool'', PStr (st_tool s)), (''args'', PDict (st_args s)), (''ok'', PBool (st_ok s)),
      (''error'', st_error s), (''ts_ns'', PInt (st_ts_ns s))]"

definition mission_asdict :: "mission \<Rightarrow> pyval" where
  "mission_asdict m = PDict
     [(''goal_text'', PStr (goal_text m)), (''started_ts_ns'', PInt (started_ts_ns m)),
      (''current_step'', PInt (int (current_step m))),
      (''step_history'', PList (map step_asdict (step_history m)))]"

definition prompt_head :: string where
  "prompt_head =
     ''You are the pilot. Use the tools to satisfy the pilot's spoken command '' @
     ''while respecting the safety envelope (the flight bridge enforces it '' @
     ''below you; ignore it at your peril).''"

definition prompt_tail :: string where
  "prompt_tail =
     ''If the command is ambiguous or unsafe, call `hold`. If the pilot says anything that '' @
     ''sounds like an emergency stop, call `abort`. Otherwise, reason about the RGB frame '' @
     ''plus the scene list and emit the tool calls needed to satisfy the command. '' @
     ''When a mission is active, prefer one tool call per turn '' @ em_dash @ '' you'll be re-prompted '' @
     ''after each call so you can react to the result before the next step.''"

definition build_prompt :: "(pyfloat \<Rightarrow> string) \<Rightarrow> vlm_context \<Rightarrow> string result" where
  "build_prompt frepr ctx =
     (let json = dumps False frepr in
      rbind (scene_compact (vx_scene ctx)) (\<lambda>scene.
      rbind (rmap trend_sample (downsample (vx_telemetry_history ctx))) (\<lambda>trend.
        Inr (join [CHR 0x0A]
          ([prompt_head, [],
            ''Pilot command: '' @ py_repr (vx_user_command ctx), [],
            ''Scene (local detector): '' @ json (PList scene), [],
            ''Telemetry now: '' @ json (telemetry_now (vx_telemetry ctx))]
           @ (if trend \<noteq> [] then [''Telemetry trend (oldest'' @ right_arrow @ ''newest): '' @ json (PList trend)] else [])
           @ (case vx_mission ctx of Some m \<Rightarrow> [''Active mission: '' @ json (mission_asdict m)] | None \<Rightarrow> [])
           @ [[], ''Safety envelope: '' @ json (PDict (map (\<lambda>(k, x). (k, PFloat x)) (vx_safety ctx))),
              [], prompt_tail])))))"

definition system_prompt :: string where
  "system_prompt =
     ''You are the in-flight pilot of a quadcopter. Input to you: an RGB frame from the '' @
     ''drone's forward camera, a structured list of detections with camera-frame 3D '' @
     ''coordinates, the current telemetry, and the pilot's latest spoken command. '' @
     ''Output: function calls that satisfy the command. Prefer smaller, incremental '' @
     ''maneuvers over single large jumps. Never emit a command you aren't certain of '' @ em_dash @ '' '' @
     ''`hold` is always a safe default.''"

section \<open>The model's answer\<close>

text \<open>
  What the client returns: candidates, each with a content or none, each content with parts or none; a
  part is a function call or a text. An exception has a class and a message.
\<close>

record gem_call =
  gc_name :: pyval
  gc_args :: pyval

record gem_part =
  gp_call :: "gem_call option"
  gp_text :: "string option"

type_synonym gem_content = "gem_part list option"
type_synonym gem_response = "gem_content option list option"

record py_exception =
  ex_class :: string
  ex_message :: string

definition error_class :: "py_error \<Rightarrow> string" where
  "error_class e = (case e of
     KeyError _ \<Rightarrow> ''KeyError'' | ValueError _ \<Rightarrow> ''ValueError'' | TypeError _ \<Rightarrow> ''TypeError''
   | AttributeError _ \<Rightarrow> ''AttributeError'' | OverflowError _ \<Rightarrow> ''OverflowError''
   | ZeroDivisionError _ \<Rightarrow> ''ZeroDivisionError'' | RuntimeError _ \<Rightarrow> ''RuntimeError''
   | FileNotFoundError _ \<Rightarrow> ''FileNotFoundError'')"

text \<open>
  The loop over the parts of the first candidate: the calls and the texts. \<open>ids\<close> gives the request ids
  of the calls.
\<close>

definition call_of :: "(pyfloat \<Rightarrow> string) \<Rightarrow> string \<Rightarrow> gem_call \<Rightarrow> tool_call result" where
  "call_of frepr rid fn =
     rbind (if gc_args fn \<noteq> PNone then py_dict (gc_args fn) else Inr []) (\<lambda>args.
       Inr \<lparr>tc_request_id = rid, tc_name = str_val frepr (gc_name fn), tc_args = args\<rparr>)"

fun read_parts ::
    "(pyfloat \<Rightarrow> string) \<Rightarrow> (nat \<Rightarrow> string) \<Rightarrow> nat \<Rightarrow> gem_part list \<Rightarrow> (tool_call list \<times> string list) result" where
  "read_parts frepr ids n [] = Inr ([], [])"
| "read_parts frepr ids n (p # ps) =
     (case gp_call p of
        Some fn \<Rightarrow>
          rbind (call_of frepr (ids n) fn) (\<lambda>c.
          rbind (read_parts frepr ids (Suc n) ps) (\<lambda>(calls, texts). Inr (c # calls, texts)))
      | None \<Rightarrow>
          rbind (read_parts frepr ids n ps) (\<lambda>(calls, texts).
            Inr (calls, case gp_text p of
              None \<Rightarrow> texts | Some t \<Rightarrow> (if t = [] then texts else t # texts))))"

definition first_parts :: "gem_response \<Rightarrow> gem_part list" where
  "first_parts resp = (case resp of
     Some (Some (Some ps) # _) \<Rightarrow> ps
   | _ \<Rightarrow> [])"

definition read_response ::
    "(pyfloat \<Rightarrow> string) \<Rightarrow> (nat \<Rightarrow> string) \<Rightarrow> py_exception + gem_response \<Rightarrow> vlm_decision" where
  "read_response frepr ids answer =
     (case (case answer of
              Inl e \<Rightarrow> Inl (ex_class e)
            | Inr resp \<Rightarrow> (case read_parts frepr ids 0 (first_parts resp) of
                  Inl e \<Rightarrow> Inl (error_class e) | Inr r \<Rightarrow> Inr r)) of
        Inl cls \<Rightarrow> \<lparr>thought = ''vlm_error: '' @ cls, tool_calls = []\<rparr>
      | Inr (calls, texts) \<Rightarrow>
          (let t = strip (join '' '' texts)
           in \<lparr>thought = (if t = [] then ''(no text)'' else t), tool_calls = calls\<rparr>))"

text \<open>
  \<open>decide\<close>: what is sent is the image, if there is one (Pillow's encoding of the RGB pixels), and the
  prompt; building them may raise.
\<close>

definition gemini_decide ::
    "(rgb_image \<Rightarrow> 'i result) \<Rightarrow> (pyfloat \<Rightarrow> string) \<Rightarrow> (nat \<Rightarrow> string)
     \<Rightarrow> ('i option \<times> string \<Rightarrow> py_exception + gem_response) \<Rightarrow> vlm_context \<Rightarrow> vlm_decision result" where
  "gemini_decide encode frepr ids generate ctx =
     rbind (case vx_rgb ctx of
              None \<Rightarrow> Inr None
            | Some img \<Rightarrow> rbind (encode (map (map swap_channels) img)) (\<lambda>i. Inr (Some i))) (\<lambda>img.
     rbind (build_prompt frepr ctx) (\<lambda>prompt.
       Inr (read_response frepr ids (generate (img, prompt)))))"

section \<open>Construction\<close>

record gemini =
  gm_model :: pyval
  gm_temperature :: pyfloat
  gm_system :: string
  gm_tools :: "tool_schema list"

text \<open>The constructor: \<open>installed\<close> says whether \<open>google.genai\<close> can be imported.\<close>

definition gemini_init :: "bool \<Rightarrow> pyval \<Rightarrow> string \<Rightarrow> pyfloat \<Rightarrow> gemini result" where
  "gemini_init installed model api_key temp =
     (if \<not> installed then Inl (RuntimeError ''google-genai not installed.'')
      else if api_key = [] then Inl (RuntimeError ''GEMINI_API_KEY is unset'')
      else Inr \<lparr>gm_model = model, gm_temperature = temp, gm_system = system_prompt, gm_tools = tool_schemas\<rparr>)"

definition build_gemini :: "bool \<Rightarrow> (string \<Rightarrow> string option) \<Rightarrow> pydict \<Rightarrow> gemini result" where
  "build_gemini installed env cfg =
     rbind (case cfg_get cfg ''perception.vlm.api_key_env'' (PStr ''GEMINI_API_KEY'') of
              PStr var \<Rightarrow> Inr (case env var of Some k \<Rightarrow> k | None \<Rightarrow> [])
            | _ \<Rightarrow> Inl (TypeError ''str expected'')) (\<lambda>api_key.
     rbind (py_float (cfg_get cfg ''perception.vlm.temperature'' (PFloat (Fin (1 / 5))))) (\<lambda>temp.
       gemini_init installed (cfg_get cfg ''perception.vlm.model'' (PStr ''gemini-2.5-flash'')) api_key temp))"

section \<open>Lemmas\<close>

lemma less_ceil_div:
  fixes k n i :: nat
  assumes "0 < k" and "i < (n + k - 1) div k"
  shows "i * k < n"
proof -
  have "Suc i * k \<le> (n + k - 1) div k * k" using assms(2) by (intro mult_le_mono1) simp
  also have "\<dots> \<le> n + k - 1" by (rule div_times_less_eq_dividend)
  finally show ?thesis using assms(1) by simp
qed

text \<open>A slice with a step, by its indices.\<close>

lemma every_nth_indices:
  "0 < k \<Longrightarrow> every_nth k xs = map (\<lambda>i. xs ! (i * k)) [0..<(length xs + k - 1) div k]"
proof (induction k xs rule: every_nth.induct)
  case (2 k x xs)
  let ?d = "drop (k - 1) xs" and ?m = "(length (drop (k - 1) xs) + k - 1) div k"
  have "length (every_nth k (x # xs)) = Suc (length (every_nth k ?d))" by simp
  then have len: "(length (x # xs) + k - 1) div k = Suc ?m"
    using "2.prems" by (simp only: length_every_nth)
  have nth: "?d ! (i * k) = (x # xs) ! (Suc i * k)" if "i < ?m" for i
  proof -
    have "i * k + (k - 1) < length xs"
    proof -
      have "i * k < length ?d"
        using that "2.prems" by (intro less_ceil_div) simp_all
      then show ?thesis by simp
    qed
    moreover have "Suc i * k = Suc (i * k + (k - 1))" using "2.prems" by simp
    ultimately show ?thesis by (simp add: add.commute)
  qed
  have "map (\<lambda>i. (x # xs) ! (i * k)) [0..<Suc ?m] = x # map (\<lambda>i. (x # xs) ! (Suc i * k)) [0..<?m]"
    by (simp add: upt_conv_Cons map_Suc_upt [symmetric] del: upt_Suc)
  also have "map (\<lambda>i. (x # xs) ! (Suc i * k)) [0..<?m] = map (\<lambda>i. ?d ! (i * k)) [0..<?m]"
    using nth by (intro map_cong) simp_all
  also have "\<dots> = every_nth k ?d" using 2 by simp
  finally show ?case unfolding len by simp
qed simp

text \<open>How many samples a step of a fifth of the length leaves.\<close>

lemma fifths:
  fixes n :: nat
  assumes "5 < n"
  shows "5 \<le> (n + n div 5 - 1) div (n div 5)" and "(n + n div 5 - 1) div (n div 5) \<le> 9"
proof -
  let ?q = "n div 5"
  have q: "0 < ?q" "5 * ?q \<le> n" "n < 5 * ?q + 5" using assms by auto
  have "5 * ?q \<le> n + ?q - 1" using q(1,2) by linarith
  then show "5 \<le> (n + ?q - 1) div ?q" using q(1) by (simp add: less_eq_div_iff_mult_less_eq)
  have "n + ?q - 1 < 10 * ?q" using q by linarith
  then have "(n + ?q - 1) div ?q < 10" using q(1) by (simp add: div_less_iff_less_mult)
  then show "(n + ?q - 1) div ?q \<le> 9" by simp
qed

lemma downsample_indices:
  assumes "5 < length h"
  shows "downsample h = map (\<lambda>i. h ! (i * (length h div 5))) [0..<(length h + length h div 5 - 1) div (length h div 5)]"
proof -
  have "max 1 (length h div 5) = length h div 5" using assms by auto
  moreover have "0 < length h div 5" using assms by auto
  ultimately show ?thesis
    using assms every_nth_indices [of "length h div 5" h] by (simp add: downsample_def)
qed

text \<open>One tool call for each function call of the answer, in its order.\<close>

definition answers :: "(pyfloat \<Rightarrow> string) \<Rightarrow> gem_call \<Rightarrow> tool_call \<Rightarrow> bool" where
  "answers frepr fn c \<longleftrightarrow> tc_name c = str_val frepr (gc_name fn)
     \<and> (if gc_args fn = PNone then tc_args c = [] else py_dict (gc_args fn) = Inr (tc_args c))"

lemma call_of_answers: "call_of frepr rid fn = Inr c \<Longrightarrow> answers frepr fn c \<and> tc_request_id c = rid"
  by (auto simp: call_of_def answers_def rbind_Inr_iff split: if_splits)

lemma read_parts_answers:
  "read_parts frepr ids n ps = Inr (calls, texts) \<Longrightarrow>
     list_all2 (answers frepr) (List.map_filter gp_call ps) calls
     \<and> map tc_request_id calls = map ids [n..<n + length calls]"
proof (induction ps arbitrary: n calls texts)
  case (Cons p ps)
  show ?case
  proof (cases "gp_call p")
    case None
    with Cons.prems obtain texts' where "read_parts frepr ids n ps = Inr (calls, texts')"
      by (auto simp: rbind_Inr_iff)
    from Cons.IH [OF this] None show ?thesis by (simp add: map_filter_simps)
  next
    case (Some fn)
    with Cons.prems obtain c calls' texts' where c: "call_of frepr (ids n) fn = Inr c" "calls = c # calls'"
      and "read_parts frepr ids (Suc n) ps = Inr (calls', texts')"
      by (auto simp: rbind_Inr_iff)
    from Cons.IH [OF this(3)] call_of_answers [OF c(1)] Some c(2) show ?thesis
      by (simp add: map_filter_simps upt_conv_Cons del: upt_Suc)
  qed
qed (simp add: map_filter_simps)

section \<open>Properties\<close>

text \<open>
  The telemetry trend of the prompt is a bounded sample of the history in its order, oldest first:
  up to five samples all of them, above that every k-th for a fifth of their number, which leaves
  between five and nine; the newest sample is left out unless k divides its index.
\<close>

theorem trend_is_bounded_sample:
  "(length h \<le> 5 \<longrightarrow> downsample h = h)
   \<and> (5 < length h \<longrightarrow> 5 \<le> length (downsample h) \<and> length (downsample h) \<le> 9
      \<and> (\<forall>i<length (downsample h). downsample h ! i = h ! (i * (length h div 5))))"
  using fifths [of "length h"] downsample_indices [of h] by (simp add: downsample_def)

text \<open>
  C33: a decision is all or nothing. Either it has one tool call for each function call of the answer's
  first candidate, in order, with its name and arguments and a request id of its own, and none of
  another candidate; or it has no call and its thought is \<open>vlm_error:\<close> and the class of an exception,
  whose message (which may hold the API key) is nowhere in it.
\<close>

theorem decision_all_or_nothing:
  assumes "gemini_decide encode frepr ids generate ctx = Inr d"
  shows "\<exists>img prompt. build_prompt frepr ctx = Inr prompt \<and>
    ((\<exists>resp. generate (img, prompt) = Inr resp
        \<and> list_all2 (answers frepr) (List.map_filter gp_call (first_parts resp)) (tool_calls d)
        \<and> map tc_request_id (tool_calls d) = map ids [0..<length (tool_calls d)])
     \<or> (\<exists>cls. d = \<lparr>thought = ''vlm_error: '' @ cls, tool_calls = []\<rparr>
        \<and> (cls \<in> range error_class \<or> (\<exists>e. generate (img, prompt) = Inl e \<and> cls = ex_class e))))"
proof -
  from assms obtain img prompt where p: "build_prompt frepr ctx = Inr prompt"
    and d: "d = read_response frepr ids (generate (img, prompt))"
    by (auto simp: gemini_decide_def rbind_Inr_iff)
  show ?thesis
  proof (cases "generate (img, prompt)")
    case (Inl e)
    then show ?thesis using p d by (intro exI [of _ img] exI [of _ prompt]) (simp add: read_response_def)
  next
    case (Inr resp)
    show ?thesis
    proof (cases "read_parts frepr ids 0 (first_parts resp)")
      case (Inl e)
      then show ?thesis using p d Inr by (intro exI [of _ img] exI [of _ prompt]) (auto simp: read_response_def)
    next
      case r: (Inr r)
      obtain calls texts where "r = (calls, texts)" by fastforce
      with read_parts_answers [of frepr ids 0 "first_parts resp" calls texts] r p d Inr show ?thesis
        by (intro exI [of _ img] exI [of _ prompt]) (simp add: read_response_def Let_def)
    qed
  qed
qed

section \<open>Examples\<close>

theorem trend_is_bounded_sample_witness:
  "length (downsample [0..<9]) = 9 \<and> downsample [0..<10] ! 4 = 8 \<and> downsample [1, 2, 3::nat] = [1, 2, 3]"
proof -
  have "length (downsample [0..<9]) = 9" by code_simp
  moreover have "\<forall>i<length (downsample [0..<10]). downsample [0..<10] ! i = [0..<10] ! (i * 2)"
    using trend_is_bounded_sample [of "[0..<10]"] by simp
  moreover have "length (downsample [0..<10]) = 5" by code_simp
  ultimately show ?thesis using trend_is_bounded_sample [of "[1, 2, 3::nat]"] by simp
qed

definition demo_ctx :: vlm_context where
  "demo_ctx = \<lparr>vx_user_command = ''take off'', vx_telemetry = [], vx_scene = [], vx_rgb = None,
     vx_safety = [(''max_altitude_m'', Fin (1 / 2))], vx_telemetry_history = [], vx_mission = None\<rparr>"

definition demo_answer :: gem_response where
  "demo_answer = Some
     [Some (Some [\<lparr>gp_call = None, gp_text = Some ''climbing''\<rparr>,
        \<lparr>gp_call = Some \<lparr>gc_name = PStr ''takeoff'', gc_args = PDict [(''altitude_m'', PInt 2)]\<rparr>, gp_text = None\<rparr>]),
      Some (Some [\<lparr>gp_call = Some \<lparr>gc_name = PStr ''kill'', gc_args = PNone\<rparr>, gp_text = None\<rparr>])]"

theorem decision_all_or_nothing_witness:
  "\<exists>d prompt. gemini_decide (\<lambda>i. Inr i) (\<lambda>_. ''0.5'') (\<lambda>n. nat_dec n) (\<lambda>_. Inr demo_answer) demo_ctx = Inr d
    \<and> build_prompt (\<lambda>_. ''0.5'') demo_ctx = Inr prompt
    \<and> d = \<lparr>thought = ''climbing'',
        tool_calls = [\<lparr>tc_request_id = ''0'', tc_name = ''takeoff'', tc_args = [(''altitude_m'', PInt 2)]\<rparr>]\<rparr>"
proof -
  let ?d = "\<lparr>thought = ''climbing'',
        tool_calls = [\<lparr>tc_request_id = ''0'', tc_name = ''takeoff'', tc_args = [(''altitude_m'', PInt 2)]\<rparr>]\<rparr>"
  have d: "gemini_decide (\<lambda>i. Inr i) (\<lambda>_. ''0.5'') (\<lambda>n. nat_dec n) (\<lambda>_. Inr demo_answer) demo_ctx = Inr ?d"
    by code_simp
  from decision_all_or_nothing [OF d] show ?thesis using d by blast
qed

end
