(* ===== verification/Bridge.thy ===== *)
theory Bridge
  imports Messages
begin

text \<open>
  The flight bridge as far as a tool call goes: the safety gate of \<open>include/lexaire/safety.hpp\<close>, the
  handlers of \<open>src/flight_bridge/handlers.cpp\<close>, and one turn of the request loop of
  \<open>src/flight_bridge/main.cpp\<close> with the reply it sends and the latches it commits. MAVSDK and the
  vehicle are parameters; the commands given to them are recorded. JSON values are those of the
  orchestrator's side; that \<open>value()\<close> throws on a value of another type and on a value that is no
  object is nlohmann's documented behaviour. The conversion of a double to a float is not modelled.
\<close>

section \<open>Safety\<close>

record safety_env =
  max_altitude_m :: pyfloat
  geofence_radius_m :: pyfloat
  max_velocity_mps :: pyfloat
  require_spoken_arm :: bool

record safety_state =
  aborted :: bool
  armed_with_voice :: bool

definition json_contains :: "pyval \<Rightarrow> string \<Rightarrow> bool" where
  "json_contains j k = (case j of PDict d \<Rightarrow> map_of d k \<noteq> None | _ \<Rightarrow> False)"

text \<open>\<open>j.value(k, false)\<close> and \<open>j.value(k, "")\<close>\<close>

definition json_value_bool :: "pyval \<Rightarrow> string \<Rightarrow> bool result" where
  "json_value_bool j k = (case j of
     PDict d \<Rightarrow> (case map_of d k of None \<Rightarrow> Inr False | Some (PBool b) \<Rightarrow> Inr b
        | Some _ \<Rightarrow> Inl (TypeError ''type must be boolean''))
   | _ \<Rightarrow> Inl (TypeError ''cannot use value()''))"

definition json_value_string :: "pyval \<Rightarrow> string \<Rightarrow> string result" where
  "json_value_string j k = (case j of
     PDict d \<Rightarrow> (case map_of d k of None \<Rightarrow> Inr [] | Some (PStr s) \<Rightarrow> Inr s
        | Some _ \<Rightarrow> Inl (TypeError ''type must be string''))
   | _ \<Rightarrow> Inl (TypeError ''cannot use value()''))"

text \<open>A number of a JSON text is finite; \<open>json_number\<close> is \<open>is_number\<close> and \<open>get<double>\<close>.\<close>

definition json_number :: "pyval \<Rightarrow> real option" where
  "json_number v = (case v of PInt i \<Rightarrow> Some (of_int i) | PFloat (Fin r) \<Rightarrow> Some r | _ \<Rightarrow> None)"

definition json_item :: "pyval \<Rightarrow> string \<Rightarrow> pyval" where
  "json_item j k = (case j of PDict d \<Rightarrow> (case map_of d k of Some v \<Rightarrow> v | None \<Rightarrow> PNone) | _ \<Rightarrow> PNone)"

definition as_d :: "pyval \<Rightarrow> string \<Rightarrow> real option" where
  "as_d args k = (if \<not> json_contains args k then Some 0 else json_number (json_item args k))"

text \<open>
  \<open>check_tool\<close>: the reason of a denial, or none. The three checks of arguments are the branches of the
  tools that move the vehicle.
\<close>

definition check_takeoff :: "pyval \<Rightarrow> safety_env \<Rightarrow> string option" where
  "check_takeoff args env =
     (case as_d args ''altitude_m'' of
        None \<Rightarrow> Some ''wrong_type:altitude_m''
      | Some alt \<Rightarrow>
          (if alt \<le> 0 then Some ''altitude_non_positive''
           else if flt_less (max_altitude_m env) (Fin alt) then Some ''altitude_exceeds_max''
           else None))"

definition check_down :: "pyval \<Rightarrow> safety_env \<Rightarrow> string option" where
  "check_down args env =
     (if \<not> json_contains args ''d'' then None
      else case as_d args ''d'' of
          None \<Rightarrow> Some ''wrong_type:d''
        | Some d \<Rightarrow>
            (if 0 < d then Some ''altitude_below_home''
             else if flt_less (max_altitude_m env) (Fin (- d)) then Some ''altitude_exceeds_max''
             else None))"

definition check_goto :: "pyval \<Rightarrow> safety_env \<Rightarrow> string option" where
  "check_goto args env =
     (case check_down args env of
        Some why \<Rightarrow> Some why
      | None \<Rightarrow>
          (case (as_d args ''n'', as_d args ''e'') of
             (None, _) \<Rightarrow> Some ''wrong_type:n''
           | (Some n, None) \<Rightarrow> Some ''wrong_type:e''
           | (Some n, Some e) \<Rightarrow>
               (if flt_less (geofence_radius_m env) (Fin (sqrt (n * n + e * e))) then Some ''geofence_breach''
                else None)))"

definition check_velocity :: "pyval \<Rightarrow> safety_env \<Rightarrow> string option" where
  "check_velocity args env =
     (case (as_d args ''vx'', as_d args ''vy'', as_d args ''vz'') of
        (None, _, _) \<Rightarrow> Some ''wrong_type:vx''
      | (Some x, None, _) \<Rightarrow> Some ''wrong_type:vy''
      | (Some x, Some y, None) \<Rightarrow> Some ''wrong_type:vz''
      | (Some x, Some y, Some z) \<Rightarrow>
          (if flt_less (max_velocity_mps env) (Fin (sqrt (x * x + y * y + z * z))) then Some ''velocity_exceeds_max''
           else None))"

definition check_tool :: "string \<Rightarrow> pyval \<Rightarrow> safety_env \<Rightarrow> safety_state \<Rightarrow> string option result" where
  "check_tool name args env st =
     (if aborted st \<and> name \<notin> {''abort'', ''kill'', ''land'', ''disarm''} then Inr (Some ''abort_active'')
      else
        rbind (if name = ''arm'' \<and> require_spoken_arm env \<and> \<not> armed_with_voice st
               then json_value_bool args ''voice_confirmed'' else Inr True) (\<lambda>voice.
          if \<not> voice then Inr (Some ''spoken_arm_required'')
          else if name = ''takeoff'' \<and> require_spoken_arm env \<and> \<not> armed_with_voice st
            then Inr (Some ''spoken_arm_required'')
          else Inr (if name = ''takeoff'' then check_takeoff args env
                    else if name = ''goto_ned'' then check_goto args env
                    else if name = ''set_velocity_ned'' then check_velocity args env
                    else None)))"

section \<open>The vehicle\<close>

datatype action_result =
    ActSuccess | ActNoSystem | ActConnectionError | ActBusy | ActCommandDenied
  | ActDeniedLandedStateUnknown | ActDeniedNotLanded | ActTimeout | ActVtolUnknown | ActNoVtol
  | ActParameterError | ActUnsupported | ActOther

datatype offboard_result =
    OffSuccess | OffNoSystem | OffConnectionError | OffBusy | OffCommandDenied | OffTimeout
  | OffNoSetpoint | OffOther

datatype param_result =
    ParSuccess | ParTimeout | ParConnectionError | ParWrongType | ParNameTooLong | ParNoSystem
  | ParValueTooLong | ParOther

fun action_result_to_string :: "action_result \<Rightarrow> string" where
  "action_result_to_string ActSuccess = ''success''"
| "action_result_to_string ActNoSystem = ''no_system''"
| "action_result_to_string ActConnectionError = ''connection_error''"
| "action_result_to_string ActBusy = ''busy''"
| "action_result_to_string ActCommandDenied = ''command_denied''"
| "action_result_to_string ActDeniedLandedStateUnknown = ''command_denied_landed_state_unknown''"
| "action_result_to_string ActDeniedNotLanded = ''command_denied_not_landed''"
| "action_result_to_string ActTimeout = ''timeout''"
| "action_result_to_string ActVtolUnknown = ''vtol_unknown''"
| "action_result_to_string ActNoVtol = ''no_vtol''"
| "action_result_to_string ActParameterError = ''parameter_error''"
| "action_result_to_string ActUnsupported = ''unsupported''"
| "action_result_to_string ActOther = ''unknown''"

fun offboard_result_to_string :: "offboard_result \<Rightarrow> string" where
  "offboard_result_to_string OffSuccess = ''success''"
| "offboard_result_to_string OffNoSystem = ''no_system''"
| "offboard_result_to_string OffConnectionError = ''connection_error''"
| "offboard_result_to_string OffBusy = ''busy''"
| "offboard_result_to_string OffCommandDenied = ''command_denied''"
| "offboard_result_to_string OffTimeout = ''timeout''"
| "offboard_result_to_string OffNoSetpoint = ''no_setpoint''"
| "offboard_result_to_string OffOther = ''unknown''"

fun param_result_to_string :: "param_result \<Rightarrow> string" where
  "param_result_to_string ParSuccess = ''success''"
| "param_result_to_string ParTimeout = ''timeout''"
| "param_result_to_string ParConnectionError = ''connection_error''"
| "param_result_to_string ParWrongType = ''wrong_type''"
| "param_result_to_string ParNameTooLong = ''param_name_too_long''"
| "param_result_to_string ParNoSystem = ''no_system''"
| "param_result_to_string ParValueTooLong = ''param_value_too_long''"
| "param_result_to_string ParOther = ''unknown''"

text \<open>What the handlers ask of MAVSDK, and MAVSDK on a vehicle.\<close>

datatype veh_cmd =
    Arm | Disarm | Land | ReturnToLaunch | Hold | Kill | Takeoff
  | SetTakeoffAltitude real
  | SetPositionNed real real real real
  | SetVelocityNed real real real real
  | OffboardStart
  | SetParamInt string int | SetParamFloat string real

record 'v mavsdk =
  va_action :: "veh_cmd \<Rightarrow> 'v \<Rightarrow> action_result \<times> 'v"
  va_set :: "veh_cmd \<Rightarrow> 'v \<Rightarrow> 'v"
  va_offboard_start :: "'v \<Rightarrow> offboard_result \<times> 'v"
  va_set_param :: "veh_cmd \<Rightarrow> 'v \<Rightarrow> param_result \<times> 'v"
  va_get_int :: "string \<Rightarrow> 'v \<Rightarrow> param_result \<times> int"
  va_get_float :: "string \<Rightarrow> 'v \<Rightarrow> param_result \<times> real"
  va_in_air :: "'v \<Rightarrow> bool"
  va_yaw :: "'v \<Rightarrow> real"
  va_health :: "'v \<Rightarrow> pydict"

text \<open>\<open>FlightCtx\<close>: which plugins are there; the vehicle, the latches, the commands given so far.\<close>

record 'v bridge =
  fc_action :: bool
  fc_offboard :: bool
  fc_param :: bool
  fc_telemetry :: bool
  br_safety :: safety_state
  br_vehicle :: 'v
  br_issued :: "veh_cmd list"

definition do_action :: "'v mavsdk \<Rightarrow> veh_cmd \<Rightarrow> 'v bridge \<Rightarrow> action_result \<times> 'v bridge" where
  "do_action lib c b =
     (let (r, v) = va_action lib c (br_vehicle b)
      in (r, b\<lparr>br_vehicle := v, br_issued := br_issued b @ [c]\<rparr>))"

definition do_set :: "'v mavsdk \<Rightarrow> veh_cmd \<Rightarrow> 'v bridge \<Rightarrow> 'v bridge" where
  "do_set lib c b = b\<lparr>br_vehicle := va_set lib c (br_vehicle b), br_issued := br_issued b @ [c]\<rparr>"

definition do_offboard_start :: "'v mavsdk \<Rightarrow> 'v bridge \<Rightarrow> offboard_result \<times> 'v bridge" where
  "do_offboard_start lib b =
     (let (r, v) = va_offboard_start lib (br_vehicle b)
      in (r, b\<lparr>br_vehicle := v, br_issued := br_issued b @ [OffboardStart]\<rparr>))"

definition do_set_param :: "'v mavsdk \<Rightarrow> veh_cmd \<Rightarrow> 'v bridge \<Rightarrow> param_result \<times> 'v bridge" where
  "do_set_param lib c b =
     (let (r, v) = va_set_param lib c (br_vehicle b)
      in (r, b\<lparr>br_vehicle := v, br_issued := br_issued b @ [c]\<rparr>))"

section \<open>Handlers\<close>

text \<open>A bridge result: success with data, or an error; the call's request id is added by the caller.\<close>

type_synonym outcome = "string + pydict"

definition require_double :: "pyval \<Rightarrow> string \<Rightarrow> string + real" where
  "require_double args k =
     (if \<not> json_contains args k then Inl (''missing:'' @ k)
      else case json_number (json_item args k) of None \<Rightarrow> Inl (''wrong_type:'' @ k) | Some x \<Rightarrow> Inr x)"

definition optional_double :: "pyval \<Rightarrow> string \<Rightarrow> string + real option" where
  "optional_double args k =
     (if \<not> json_contains args k then Inr None
      else case json_number (json_item args k) of None \<Rightarrow> Inl (''wrong_type:'' @ k) | Some x \<Rightarrow> Inr (Some x))"

definition call_action_method :: "'v mavsdk \<Rightarrow> veh_cmd \<Rightarrow> 'v bridge \<Rightarrow> outcome \<times> 'v bridge" where
  "call_action_method lib c b =
     (if \<not> fc_action b then (Inl ''action_not_initialized'', b)
      else let (r, b') = do_action lib c b
           in (if r = ActSuccess then Inr [] else Inl (action_result_to_string r), b'))"

definition handle_takeoff :: "'v mavsdk \<Rightarrow> pyval \<Rightarrow> 'v bridge \<Rightarrow> outcome \<times> 'v bridge" where
  "handle_takeoff lib args b =
     (case require_double args ''altitude_m'' of
        Inl e \<Rightarrow> (Inl e, b)
      | Inr alt \<Rightarrow>
          (if \<not> fc_action b then (Inl ''action_not_initialized'', b)
           else let (r, b') = do_action lib Takeoff (do_set lib (SetTakeoffAltitude alt) b)
                in (if r = ActSuccess then Inr [] else Inl (action_result_to_string r), b')))"

text \<open>The end both setpoint handlers share: the setpoint, then the start of the offboard mode.\<close>

definition start_setpoint :: "'v mavsdk \<Rightarrow> veh_cmd \<Rightarrow> 'v bridge \<Rightarrow> outcome \<times> 'v bridge" where
  "start_setpoint lib c b =
     (let (r, b') = do_offboard_start lib (do_set lib c b)
      in (if r = OffSuccess \<or> r = OffBusy then Inr [] else Inl (offboard_result_to_string r), b'))"

definition setpoint_yaw :: "'v mavsdk \<Rightarrow> real option \<Rightarrow> 'v bridge \<Rightarrow> real" where
  "setpoint_yaw lib yaw b =
     (case yaw of Some y \<Rightarrow> y | None \<Rightarrow> if fc_telemetry b then va_yaw lib (br_vehicle b) else 0)"

definition handle_goto_ned :: "'v mavsdk \<Rightarrow> pyval \<Rightarrow> 'v bridge \<Rightarrow> outcome \<times> 'v bridge" where
  "handle_goto_ned lib args b =
     (case rbind (require_double args ''n'') (\<lambda>n. rbind (require_double args ''e'') (\<lambda>e.
           rbind (require_double args ''d'') (\<lambda>d. rbind (optional_double args ''yaw_deg'') (\<lambda>yaw.
             Inr (n, e, d, yaw))))) of
        Inl why \<Rightarrow> (Inl why, b)
      | Inr (n, e, d, yaw) \<Rightarrow>
          (if \<not> fc_offboard b then (Inl ''offboard_not_initialized'', b)
           else start_setpoint lib (SetPositionNed n e d (setpoint_yaw lib yaw b)) b))"

definition or_zero :: "real option \<Rightarrow> real" where
  "or_zero x = (case x of Some r \<Rightarrow> r | None \<Rightarrow> 0)"

definition handle_set_velocity_ned :: "'v mavsdk \<Rightarrow> pyval \<Rightarrow> 'v bridge \<Rightarrow> outcome \<times> 'v bridge" where
  "handle_set_velocity_ned lib args b =
     (case rbind (optional_double args ''vx'') (\<lambda>vx. rbind (optional_double args ''vy'') (\<lambda>vy.
           rbind (optional_double args ''vz'') (\<lambda>vz.
             if vx = None \<and> vy = None \<and> vz = None then Inl ''missing_velocity_component''
             else rbind (optional_double args ''yaw_deg'') (\<lambda>yaw. Inr (vx, vy, vz, yaw))))) of
        Inl why \<Rightarrow> (Inl why, b)
      | Inr (vx, vy, vz, yaw) \<Rightarrow>
          (if \<not> fc_offboard b then (Inl ''offboard_not_initialized'', b)
           else start_setpoint lib
             (SetVelocityNed (or_zero vx) (or_zero vy) (or_zero vz) (setpoint_yaw lib yaw b)) b))"

text \<open>\<open>handle_abort\<close> and \<open>handle_kill\<close>: the latch is set in the air only.\<close>

definition latch_abort :: "'v mavsdk \<Rightarrow> 'v bridge \<Rightarrow> 'v bridge" where
  "latch_abort lib b =
     (if fc_telemetry b \<and> va_in_air lib (br_vehicle b)
      then b\<lparr>br_safety := (br_safety b)\<lparr>aborted := True\<rparr>\<rparr> else b)"

definition handle_stop :: "'v mavsdk \<Rightarrow> veh_cmd \<Rightarrow> 'v bridge \<Rightarrow> outcome \<times> 'v bridge" where
  "handle_stop lib c b =
     (if \<not> fc_action b then (Inl ''action_not_initialized'', b)
      else call_action_method lib c (latch_abort lib b))"

definition param_outcome :: "string \<Rightarrow> param_result \<Rightarrow> pydict \<Rightarrow> outcome" where
  "param_outcome what r data =
     (if r = ParSuccess then Inr data else Inl (what @ param_result_to_string r))"

definition handle_set_param :: "'v mavsdk \<Rightarrow> pyval \<Rightarrow> 'v bridge \<Rightarrow> outcome result \<times> 'v bridge" where
  "handle_set_param lib args b =
     (case json_value_string args ''name'' of
        Inl e \<Rightarrow> (Inl e, b)
      | Inr name \<Rightarrow>
          (if name = [] then (Inr (Inl ''missing_param_name''), b)
           else if \<not> fc_param b then (Inr (Inl ''param_not_initialized''), b)
           else if json_contains args ''int_value'' then
             (case require_double args ''int_value'' of
                Inl e \<Rightarrow> (Inr (Inl e), b)
              | Inr x \<Rightarrow> (let (r, b') = do_set_param lib (SetParamInt name (trunc x)) b
                          in (Inr (param_outcome ''param_set_failed:'' r []), b')))
           else if json_contains args ''float_value'' then
             (case require_double args ''float_value'' of
                Inl e \<Rightarrow> (Inr (Inl e), b)
              | Inr x \<Rightarrow> (let (r, b') = do_set_param lib (SetParamFloat name x) b
                          in (Inr (param_outcome ''param_set_failed:'' r []), b')))
           else (Inr (Inl ''missing_value''), b)))"

definition handle_get_param :: "'v mavsdk \<Rightarrow> pyval \<Rightarrow> 'v bridge \<Rightarrow> outcome result \<times> 'v bridge" where
  "handle_get_param lib args b =
     (case json_value_string args ''name'' of
        Inl e \<Rightarrow> (Inl e, b)
      | Inr name \<Rightarrow>
          (if name = [] then (Inr (Inl ''missing_param_name''), b)
           else if \<not> fc_param b then (Inr (Inl ''param_not_initialized''), b)
           else
             let (r, i) = va_get_int lib name (br_vehicle b)
             in if r \<noteq> ParWrongType
                then (Inr (param_outcome ''param_get_failed:'' r [(''int_value'', PInt i)]), b)
                else let (r', x) = va_get_float lib name (br_vehicle b)
                     in (Inr (param_outcome ''param_get_failed:'' r' [(''float_value'', PFloat (Fin x))]), b)))"

definition handle_enable_offboard :: "'v mavsdk \<Rightarrow> 'v bridge \<Rightarrow> outcome \<times> 'v bridge" where
  "handle_enable_offboard lib b =
     (if \<not> fc_offboard b then (Inl ''offboard_not_initialized'', b)
      else let (r, b') = do_offboard_start lib (do_set lib (SetVelocityNed 0 0 0 0) b)
           in (if r \<noteq> OffSuccess \<and> r \<noteq> OffBusy
               then Inl (''offboard_start_failed:'' @ offboard_result_to_string r) else Inr [], b'))"

definition handle_get_health :: "'v mavsdk \<Rightarrow> 'v bridge \<Rightarrow> outcome \<times> 'v bridge" where
  "handle_get_health lib b =
     (if \<not> fc_telemetry b then (Inl ''telemetry_not_initialized'', b)
      else (Inr (va_health lib (br_vehicle b)), b))"

text \<open>\<open>dispatch\<close>: the table of the handlers.\<close>

definition bridge_tools :: "string list" where
  "bridge_tools =
     [''arm'', ''disarm'', ''takeoff'', ''land'', ''return_to_launch'', ''hold'', ''goto_ned'',
      ''set_velocity_ned'', ''abort'', ''kill'', ''set_param'', ''get_param'', ''get_health'', ''enable_offboard'']"

definition dispatch :: "'v mavsdk \<Rightarrow> string \<Rightarrow> pyval \<Rightarrow> 'v bridge \<Rightarrow> outcome result \<times> 'v bridge" where
  "dispatch lib name args b =
     (let pure = (\<lambda>(r, b'). (Inr r, b')) in
      if name = ''arm'' then pure (call_action_method lib Arm b)
      else if name = ''disarm'' then pure (call_action_method lib Disarm b)
      else if name = ''takeoff'' then pure (handle_takeoff lib args b)
      else if name = ''land'' then pure (call_action_method lib Land b)
      else if name = ''return_to_launch'' then pure (call_action_method lib ReturnToLaunch b)
      else if name = ''hold'' then pure (call_action_method lib Hold b)
      else if name = ''goto_ned'' then pure (handle_goto_ned lib args b)
      else if name = ''set_velocity_ned'' then pure (handle_set_velocity_ned lib args b)
      else if name = ''abort'' then pure (handle_stop lib Land b)
      else if name = ''kill'' then pure (handle_stop lib Kill b)
      else if name = ''set_param'' then handle_set_param lib args b
      else if name = ''get_param'' then handle_get_param lib args b
      else if name = ''get_health'' then pure (handle_get_health lib b)
      else if name = ''enable_offboard'' then pure (handle_enable_offboard lib b)
      else (Inr (Inl (''unknown_tool: '' @ name)), b))"

section \<open>A turn of the request loop\<close>

definition bridge_reply :: "string \<Rightarrow> outcome \<Rightarrow> pyval" where
  "bridge_reply rid out = PDict
     [(''request_id'', PStr rid), (''ok'', PBool (\<not> isl out)),
      (''error'', case out of Inl e \<Rightarrow> if e = [] then PNone else PStr e | Inr _ \<Rightarrow> PNone),
      (''data'', case out of Inl _ \<Rightarrow> PNone | Inr d \<Rightarrow> if d = [] then PNone else PDict d)]"

text \<open>The latches after a call that succeeded; reading the confirmation may throw.\<close>

definition commit_latches :: "string \<Rightarrow> pyval \<Rightarrow> 'v bridge \<Rightarrow> 'v bridge result" where
  "commit_latches name args b =
     rbind (if name = ''arm'' then json_value_bool args ''voice_confirmed'' else Inr False) (\<lambda>voice.
       Inr (b\<lparr>br_safety := (if name = ''disarm'' then \<lparr>aborted = False, armed_with_voice = False\<rparr>
               else if voice then (br_safety b)\<lparr>armed_with_voice := True\<rparr> else br_safety b)\<rparr>))"

definition handle_call ::
    "'v mavsdk \<Rightarrow> safety_env \<Rightarrow> string \<Rightarrow> pyval \<Rightarrow> 'v bridge \<Rightarrow> outcome result \<times> 'v bridge" where
  "handle_call lib env name args b =
     (case check_tool name args env (br_safety b) of
        Inl e \<Rightarrow> (Inl e, b)
      | Inr (Some why) \<Rightarrow> (Inr (Inl (''safety_denied: '' @ why)), b)
      | Inr None \<Rightarrow>
          (case dispatch lib name args b of
             (Inr (Inr data), b') \<Rightarrow>
               (case commit_latches name args b' of
                  Inl e \<Rightarrow> (Inl e, b')
                | Inr b'' \<Rightarrow> (Inr (Inr data), b''))
           | (r, b') \<Rightarrow> (r, b')))"

definition error_text :: "py_error \<Rightarrow> string" where
  "error_text e = (case e of TypeError m \<Rightarrow> m | ValueError m \<Rightarrow> m | KeyError m \<Rightarrow> m | _ \<Rightarrow> [])"

text \<open>A request: what parsing it gave, answered in any case.\<close>

definition handle_request ::
    "'v mavsdk \<Rightarrow> safety_env \<Rightarrow> pyval result \<Rightarrow> 'v bridge \<Rightarrow> pyval \<times> 'v bridge" where
  "handle_request lib env req b =
     (case rbind req (\<lambda>j. rbind (json_value_string j ''request_id'') (\<lambda>rid.
           rbind (json_value_string j ''name'') (\<lambda>name.
             Inr (rid, name, if json_contains j ''args'' then json_item j ''args'' else PDict [])))) of
        Inl e \<Rightarrow> (bridge_reply [] (Inl (''bad_request: '' @ error_text e)), b)
      | Inr (rid, name, args) \<Rightarrow>
          (case handle_call lib env name args b of
             (Inl e, b') \<Rightarrow> (bridge_reply [] (Inl (''bad_request: '' @ error_text e)), b')
           | (Inr out, b') \<Rightarrow> (bridge_reply rid out, b')))"

text \<open>What happens to the bridge: a request, or the vehicle's report that it is armed or not.\<close>

datatype bridge_event = Request "pyval result" | ArmedReport bool

definition bridge_step :: "'v mavsdk \<Rightarrow> safety_env \<Rightarrow> 'v bridge \<Rightarrow> bridge_event \<Rightarrow> 'v bridge" where
  "bridge_step lib env b ev = (case ev of
     Request req \<Rightarrow> snd (handle_request lib env req b)
   | ArmedReport armed \<Rightarrow>
       (if armed then b else b\<lparr>br_safety := \<lparr>aborted = False, armed_with_voice = False\<rparr>\<rparr>))"

definition bridge_run :: "'v mavsdk \<Rightarrow> safety_env \<Rightarrow> 'v bridge \<Rightarrow> bridge_event list \<Rightarrow> 'v bridge" where
  "bridge_run lib env b evs = foldl (bridge_step lib env) b evs"

end
