(* ===== verification/Bridge_Props.thy ===== *)
theory Bridge_Props
  imports Bridge Orch_Examples Orch_Props Vlm_Gemini
begin

text \<open>
  What the flight bridge lets through to the vehicle, for every request, reply and order of events, and
  the arm gate from the pilot's words to the vehicle: the requests of the orchestrator's model are fed to
  the bridge's.
\<close>

section \<open>What a call asks of the vehicle\<close>

fun asked :: "string \<Rightarrow> pyval \<Rightarrow> veh_cmd \<Rightarrow> bool" where
  "asked name args Arm = (name = ''arm'')"
| "asked name args Takeoff = (name = ''takeoff'')"
| "asked name args (SetTakeoffAltitude a) = (name = ''takeoff'' \<and> as_d args ''altitude_m'' = Some a)"
| "asked name args (SetPositionNed n e d y) =
     (name = ''goto_ned'' \<and> as_d args ''n'' = Some n \<and> as_d args ''e'' = Some e
        \<and> json_contains args ''d'' \<and> as_d args ''d'' = Some d)"
| "asked name args (SetVelocityNed x y z w) =
     (name = ''set_velocity_ned'' \<and> as_d args ''vx'' = Some x \<and> as_d args ''vy'' = Some y \<and> as_d args ''vz'' = Some z
        \<or> name = ''enable_offboard'' \<and> x = 0 \<and> y = 0 \<and> z = 0)"
| "asked name args _ = True"

text \<open>Commands are only added, and the voice latch is left alone.\<close>

definition issues :: "(veh_cmd \<Rightarrow> bool) \<Rightarrow> 'v bridge \<Rightarrow> 'v bridge \<Rightarrow> bool" where
  "issues P b b' \<longleftrightarrow> (\<exists>cs. br_issued b' = br_issued b @ cs \<and> (\<forall>c\<in>set cs. P c))
     \<and> armed_with_voice (br_safety b') = armed_with_voice (br_safety b)"

lemma issues_refl [simp]: "issues P b b"
  by (simp add: issues_def)

lemma issues_trans: "issues P b c \<Longrightarrow> issues P c d \<Longrightarrow> issues P b d"
proof -
  assume bc: "issues P b c" and cd: "issues P c d"
  then obtain x y where "br_issued c = br_issued b @ x" "\<forall>c\<in>set x. P c"
    "br_issued d = br_issued c @ y" "\<forall>c\<in>set y. P c" by (auto simp: issues_def)
  then show ?thesis using bc cd by (auto simp: issues_def intro!: exI [of _ "x @ y"])
qed

lemma do_issues:
  "P c \<Longrightarrow> issues P b (snd (do_action lib c b))" "P c \<Longrightarrow> issues P b (do_set lib c b)"
  "P OffboardStart \<Longrightarrow> issues P b (snd (do_offboard_start lib b))" "P c \<Longrightarrow> issues P b (snd (do_set_param lib c b))"
  by (auto simp: issues_def do_action_def do_set_def do_offboard_start_def do_set_param_def split: prod.split)

lemma double_as_d:
  "require_double args k = Inr x \<Longrightarrow> json_contains args k \<and> as_d args k = Some x"
  "optional_double args k = Inr ox \<Longrightarrow> as_d args k = Some (or_zero ox)"
  by (auto simp: require_double_def optional_double_def as_d_def or_zero_def split: if_splits option.splits
      dest: sym)

lemma call_action_issues: "P c \<Longrightarrow> issues P b (snd (call_action_method lib c b))"
  using do_issues(1) [of P c b lib] by (auto simp: call_action_method_def split: prod.splits)

lemma takeoff_issues:
  assumes "P Takeoff" and "\<And>a. as_d args ''altitude_m'' = Some a \<Longrightarrow> P (SetTakeoffAltitude a)"
  shows "issues P b (snd (handle_takeoff lib args b))"
proof (cases "require_double args ''altitude_m''")
  case (Inr a)
  let ?b = "do_set lib (SetTakeoffAltitude a) b"
  have "issues P b ?b" using assms(2) double_as_d(1) [OF Inr] by (intro do_issues(2)) simp
  from issues_trans [OF this do_issues(1) [where P = P and c = Takeoff and b = ?b and lib = lib, OF assms(1)]] Inr show ?thesis
    by (auto simp: handle_takeoff_def split: prod.splits)
qed (simp add: handle_takeoff_def)

lemma start_setpoint_issues:
  assumes "P c" and "P OffboardStart"
  shows "issues P b (snd (start_setpoint lib c b))"
  using issues_trans [OF do_issues(2) [where P = P, OF assms(1)] do_issues(3) [where P = P, OF assms(2)], of b lib lib]
  by (auto simp: start_setpoint_def split: prod.splits)

lemma goto_issues:
  assumes "P OffboardStart"
    and "\<And>n e d y. json_contains args ''d'' \<Longrightarrow> as_d args ''n'' = Some n \<Longrightarrow> as_d args ''e'' = Some e
      \<Longrightarrow> as_d args ''d'' = Some d \<Longrightarrow> P (SetPositionNed n e d y)"
  shows "issues P b (snd (handle_goto_ned lib args b))"
proof (cases "rbind (require_double args ''n'') (\<lambda>n. rbind (require_double args ''e'') (\<lambda>e.
    rbind (require_double args ''d'') (\<lambda>d. rbind (optional_double args ''yaw_deg'') (\<lambda>yaw. Inr (n, e, d, yaw)))))")
  case (Inr r)
  obtain n e d yaw where r: "r = (n, e, d, yaw)" by (cases r)
  with Inr have "require_double args ''n'' = Inr n" "require_double args ''e'' = Inr e" "require_double args ''d'' = Inr d"
    by (auto simp: rbind_Inr_iff)
  then have "P (SetPositionNed n e d y)" for y using assms(2) double_as_d(1) by blast
  then have "issues P b (snd (start_setpoint lib (SetPositionNed n e d y) b))" for y
    using assms(1) by (intro start_setpoint_issues)
  then show ?thesis using Inr r by (simp add: handle_goto_ned_def)
qed (simp add: handle_goto_ned_def)

lemma velocity_issues:
  assumes "P OffboardStart"
    and "\<And>x y z w. as_d args ''vx'' = Some x \<Longrightarrow> as_d args ''vy'' = Some y
      \<Longrightarrow> as_d args ''vz'' = Some z \<Longrightarrow> P (SetVelocityNed x y z w)"
  shows "issues P b (snd (handle_set_velocity_ned lib args b))"
proof (cases "rbind (optional_double args ''vx'') (\<lambda>vx. rbind (optional_double args ''vy'') (\<lambda>vy.
           rbind (optional_double args ''vz'') (\<lambda>vz.
             if vx = None \<and> vy = None \<and> vz = None then Inl ''missing_velocity_component''
             else rbind (optional_double args ''yaw_deg'') (\<lambda>yaw. Inr (vx, vy, vz, yaw)))))")
  case (Inr r)
  obtain vx vy vz yaw where r: "r = (vx, vy, vz, yaw)" by (cases r)
  with Inr have "optional_double args ''vx'' = Inr vx" "optional_double args ''vy'' = Inr vy" "optional_double args ''vz'' = Inr vz"
    by (auto simp: rbind_Inr_iff split: if_splits)
  then have "P (SetVelocityNed (or_zero vx) (or_zero vy) (or_zero vz) w)" for w
    using assms(2) double_as_d(2) by blast
  then have "issues P b (snd (start_setpoint lib (SetVelocityNed (or_zero vx) (or_zero vy) (or_zero vz) w) b))" for w
    using assms(1) by (intro start_setpoint_issues)
  then show ?thesis using Inr r by (simp add: handle_set_velocity_ned_def)
qed (simp add: handle_set_velocity_ned_def)

lemma stop_issues: "P c \<Longrightarrow> issues P b (snd (handle_stop lib c b))"
proof -
  assume "P c"
  have "issues P b (latch_abort lib b)" by (simp add: issues_def latch_abort_def)
  from issues_trans [OF this call_action_issues [of P c "latch_abort lib b" lib, OF \<open>P c\<close>]]
  show ?thesis by (simp add: handle_stop_def)
qed

lemma param_issues:
  assumes "\<And>n i. P (SetParamInt n i)" and "\<And>n x. P (SetParamFloat n x)"
  shows "issues P b (snd (handle_set_param lib args b))"
proof -
  have "issues P b b'" if "do_set_param lib (SetParamInt n i) b = (r, b')" for n i r b'
    using do_issues(4) [where P = P, OF assms(1), of b lib n i] that by simp
  moreover have "issues P b b'" if "do_set_param lib (SetParamFloat n x) b = (r, b')" for n x r b'
    using do_issues(4) [where P = P, OF assms(2), of b lib n x] that by simp
  ultimately show ?thesis
    by (auto simp: handle_set_param_def Let_def split: sum.split prod.split)
qed

lemma get_param_same: "snd (handle_get_param lib args b) = b"
  by (auto simp: handle_get_param_def Let_def split: sum.split prod.split)

lemma enable_issues:
  assumes "P (SetVelocityNed 0 0 0 0)" and "P OffboardStart"
  shows "issues P b (snd (handle_enable_offboard lib b))"
proof -
  let ?b = "do_set lib (SetVelocityNed 0 0 0 0) b"
  from issues_trans [OF do_issues(2) [where P = P, OF assms(1)] do_issues(3) [where P = P, OF assms(2)]]
  have "issues P b (snd (do_offboard_start lib ?b))" .
  then show ?thesis by (auto simp: handle_enable_offboard_def Let_def split: prod.split)
qed

lemmas handler_issues = call_action_issues takeoff_issues goto_issues velocity_issues stop_issues param_issues enable_issues

lemma if_issues:
  "(c \<Longrightarrow> issues P b (snd x)) \<Longrightarrow> (\<not> c \<Longrightarrow> issues P b (snd y)) \<Longrightarrow> issues P b (snd (if c then x else y))"
  by simp

lemma snd_pure: "snd (case p of (r, b') \<Rightarrow> (Inr r, b')) = snd p"
  by (cases p) simp

lemma dispatch_issues: "issues (asked name args) b (snd (dispatch lib name args b))"
  unfolding dispatch_def Let_def
  by (intro if_issues; (unfold snd_pure)?; (rule handler_issues)?; simp add: get_param_same handle_get_health_def)

section \<open>What the gate lets through\<close>

text \<open>A command within an altitude, a radius and a speed.\<close>

fun in_envelope :: "real \<Rightarrow> real \<Rightarrow> real \<Rightarrow> veh_cmd \<Rightarrow> bool" where
  "in_envelope A R V (SetTakeoffAltitude a) = (0 < a \<and> a \<le> A)"
| "in_envelope A R V (SetPositionNed n e d y) = (0 \<le> - d \<and> - d \<le> A \<and> sqrt (n * n + e * e) \<le> R)"
| "in_envelope A R V (SetVelocityNed x y z w) = (sqrt (x * x + y * y + z * z) \<le> V)"
| "in_envelope A R V _ = True"

definition envelope :: "safety_env \<Rightarrow> real \<Rightarrow> real \<Rightarrow> real \<Rightarrow> bool" where
  "envelope env A R V \<longleftrightarrow> max_altitude_m env = Fin A \<and> geofence_radius_m env = Fin R
     \<and> max_velocity_mps env = Fin V \<and> 0 \<le> V"

lemma checks_pass:
  "check_takeoff args env = None \<Longrightarrow> as_d args ''altitude_m'' = Some a \<Longrightarrow> envelope env A R V \<Longrightarrow> 0 < a \<and> a \<le> A"
  "check_goto args env = None \<Longrightarrow> json_contains args ''d'' \<Longrightarrow> as_d args ''n'' = Some n \<Longrightarrow> as_d args ''e'' = Some e
     \<Longrightarrow> as_d args ''d'' = Some d \<Longrightarrow> envelope env A R V \<Longrightarrow> in_envelope A R V (SetPositionNed n e d y)"
  "check_velocity args env = None \<Longrightarrow> as_d args ''vx'' = Some x \<Longrightarrow> as_d args ''vy'' = Some y
     \<Longrightarrow> as_d args ''vz'' = Some z \<Longrightarrow> envelope env A R V \<Longrightarrow> in_envelope A R V (SetVelocityNed x y z w)"
  by (simp_all add: check_takeoff_def check_goto_def check_down_def check_velocity_def envelope_def
      split: if_splits option.splits)

lemma check_tool_passes:
  assumes "check_tool name args env st = Inr None"
  shows "name = ''takeoff'' \<Longrightarrow> check_takeoff args env = None" "name = ''goto_ned'' \<Longrightarrow> check_goto args env = None"
    "name = ''set_velocity_ned'' \<Longrightarrow> check_velocity args env = None"
    "name = ''arm'' \<Longrightarrow> require_spoken_arm env \<Longrightarrow> \<not> armed_with_voice st \<Longrightarrow> json_value_bool args ''voice_confirmed'' = Inr True"
    "name = ''takeoff'' \<Longrightarrow> require_spoken_arm env \<Longrightarrow> armed_with_voice st"
  using assms by (auto simp: check_tool_def rbind_Inr_iff split: if_splits)

lemma asked_in_envelope:
  assumes "check_tool name args env st = Inr None" and "asked name args c" and "envelope env A R V"
  shows "in_envelope A R V c"
proof (cases c)
  case (SetTakeoffAltitude a)
  then show ?thesis using assms(2) checks_pass(1) [OF check_tool_passes(1) [OF assms(1)] _ assms(3)] by simp
next
  case (SetPositionNed n e d y)
  then show ?thesis using assms(2) checks_pass(2) [OF check_tool_passes(2) [OF assms(1)] _ _ _ _ assms(3)] by auto
next
  case (SetVelocityNed x y z w)
  then show ?thesis
    using assms(2,3) checks_pass(3) [OF check_tool_passes(3) [OF assms(1)] _ _ _ assms(3)] by (auto simp: envelope_def)
qed simp_all

lemma commit_latches_issued: "commit_latches name args b = Inr b' \<Longrightarrow> br_issued b' = br_issued b"
  by (auto simp: commit_latches_def rbind_Inr_iff)

lemma commit_latches_clear:
  "commit_latches name args b = Inr b' \<Longrightarrow> name \<noteq> ''arm'' \<Longrightarrow> \<not> armed_with_voice (br_safety b)
     \<Longrightarrow> \<not> armed_with_voice (br_safety b')"
  by (auto simp: commit_latches_def rbind_Inr_iff split: if_splits)

text \<open>A call, by cases: it is not let through, or it is dispatched and may commit its latches.\<close>

lemma handle_call_cases:
  obtains (Denied) "snd (handle_call lib env name args b) = b"
  | (Passed) b1 where "check_tool name args env (br_safety b) = Inr None" "issues (asked name args) b b1"
      "snd (handle_call lib env name args b) = b1 \<or> commit_latches name args b1 = Inr (snd (handle_call lib env name args b))"
proof (cases "check_tool name args env (br_safety b) = Inr None")
  case True
  obtain r b1 where d: "dispatch lib name args b = (r, b1)" by fastforce
  have "issues (asked name args) b b1" using dispatch_issues [of name args b lib] d by simp
  moreover have "snd (handle_call lib env name args b) = b1
      \<or> commit_latches name args b1 = Inr (snd (handle_call lib env name args b))"
    using True d by (auto simp: handle_call_def split: sum.split)
  ultimately show ?thesis using Passed True by blast
next
  case False
  then have "snd (handle_call lib env name args b) = b"
    by (auto simp: handle_call_def split: sum.split option.split)
  then show ?thesis by (rule Denied)
qed

lemma handle_request_cases:
  obtains (Bad) "snd (handle_request lib env req b) = b"
  | (Call) j name where "req = Inr j" "json_value_string j ''name'' = Inr name"
      "snd (handle_request lib env req b) =
         snd (handle_call lib env name (if json_contains j ''args'' then json_item j ''args'' else PDict []) b)"
proof (cases "rbind req (\<lambda>j. rbind (json_value_string j ''request_id'') (\<lambda>rid.
           rbind (json_value_string j ''name'') (\<lambda>name.
             Inr (rid, name, if json_contains j ''args'' then json_item j ''args'' else PDict []))))")
  case (Inl e)
  then show ?thesis by (intro Bad) (simp add: handle_request_def)
next
  case (Inr r)
  obtain rid name args where r: "r = (rid, name, args)" by (cases r)
  with Inr obtain j where j: "req = Inr j" "json_value_string j ''name'' = Inr name"
    "args = (if json_contains j ''args'' then json_item j ''args'' else PDict [])"
    by (auto simp: rbind_Inr_iff)
  have "snd (handle_request lib env req b) = snd (handle_call lib env name args b)"
    unfolding handle_request_def Inr r by (auto split: prod.split sum.split)
  with j show ?thesis using Call by blast
qed

text \<open>So the commands of a step are in the envelope.\<close>

definition issued_only :: "(veh_cmd \<Rightarrow> bool) \<Rightarrow> 'v bridge \<Rightarrow> 'v bridge \<Rightarrow> bool" where
  "issued_only P b b' \<longleftrightarrow> (\<exists>cs. br_issued b' = br_issued b @ cs \<and> (\<forall>c\<in>set cs. P c))"

lemma issued_only_refl: "br_issued b' = br_issued b \<Longrightarrow> issued_only P b b'"
  by (simp add: issued_only_def)

lemma issued_only_trans: "issued_only P b c \<Longrightarrow> issued_only P c d \<Longrightarrow> issued_only P b d"
  by (force simp: issued_only_def)

lemma handle_call_issued:
  assumes "\<And>c. check_tool name args env (br_safety b) = Inr None \<Longrightarrow> asked name args c \<Longrightarrow> P c"
  shows "issued_only P b (snd (handle_call lib env name args b))"
proof (cases rule: handle_call_cases [of lib env name args b])
  case Denied
  then show ?thesis by (simp add: issued_only_refl)
next
  case (Passed b1)
  then have "issued_only P b b1" using assms by (force simp: issues_def issued_only_def)
  from Passed(3) have "br_issued (snd (handle_call lib env name args b)) = br_issued b1"
    using commit_latches_issued by blast
  with \<open>issued_only P b b1\<close> show ?thesis by (simp add: issued_only_def)
qed

lemma bridge_run_Cons: "bridge_run lib env b (ev # evs) = bridge_run lib env (bridge_step lib env b ev) evs"
  by (simp add: bridge_run_def)

lemma bridge_run_Nil [simp]: "bridge_run lib env b [] = b"
  by (simp add: bridge_run_def)

abbreviation call_args :: "pyval \<Rightarrow> pyval" where
  "call_args j \<equiv> (if json_contains j ''args'' then json_item j ''args'' else PDict [])"

text \<open>
  What a gate can promise: while the latches are in \<open>I\<close> and the requests in \<open>ok\<close>, what it lets through asks
  for commands in \<open>P\<close> only, and the latches stay in \<open>I\<close>. Then so does the bridge, for every run.
\<close>

locale gate_contract =
  fixes lib :: "'v mavsdk" and env :: safety_env
    and P :: "veh_cmd \<Rightarrow> bool" and I :: "safety_state \<Rightarrow> bool" and ok :: "pyval \<Rightarrow> bool"
  assumes admits: "I st \<Longrightarrow> ok j \<Longrightarrow> json_value_string j ''name'' = Inr name
      \<Longrightarrow> check_tool name (call_args j) env st = Inr None \<Longrightarrow> asked name (call_args j) c \<Longrightarrow> P c"
    and keeps: "I (br_safety b) \<Longrightarrow> \<forall>j. ev = Request (Inr j) \<longrightarrow> ok j \<Longrightarrow> I (br_safety (bridge_step lib env b ev))"
begin

lemma step:
  assumes "I (br_safety b)" and "\<forall>j. ev = Request (Inr j) \<longrightarrow> ok j"
  shows "issued_only P b (bridge_step lib env b ev)"
proof (cases ev)
  case (Request req)
  show ?thesis
  proof (cases rule: handle_request_cases [of lib env req b])
    case Bad
    with Request show ?thesis by (simp add: bridge_step_def issued_only_refl)
  next
    case (Call j name)
    have "ok j" using assms(2) Request Call(1) by simp
    then have "issued_only P b (snd (handle_call lib env name (call_args j) b))"
      using admits [OF assms(1) _ Call(2)] by (intro handle_call_issued) blast
    with Call(3) Request show ?thesis by (simp add: bridge_step_def)
  qed
qed (simp add: bridge_step_def issued_only_refl)

lemma run:
  "I (br_safety b) \<Longrightarrow> \<forall>j. Request (Inr j) \<in> set evs \<longrightarrow> ok j \<Longrightarrow> issued_only P b (bridge_run lib env b evs)"
proof (induction evs arbitrary: b)
  case (Cons ev evs)
  have now: "\<forall>j. ev = Request (Inr j) \<longrightarrow> ok j" using Cons.prems(2) by simp
  from issued_only_trans [OF step [OF Cons.prems(1) now] Cons.IH [OF keeps [OF Cons.prems(1) now]]] Cons.prems(2)
  show ?case by (simp add: bridge_run_Cons)
qed (simp add: issued_only_refl)

end

interpretation env_gate: gate_contract lib env "\<lambda>c. envelope env A R V \<longrightarrow> in_envelope A R V c" "\<lambda>_. True" "\<lambda>_. True"
  for lib :: "'v mavsdk" and env A R V
  by unfold_locales (use asked_in_envelope in blast)+

section \<open>No arm without the word\<close>

text \<open>A request that is not an arm, or an arm that is not confirmed.\<close>

definition unconfirmed :: "pyval \<Rightarrow> bool" where
  "unconfirmed j \<longleftrightarrow> arms_carry False [j]"

fun grounded :: "veh_cmd \<Rightarrow> bool" where
  "grounded Arm = False"
| "grounded Takeoff = False"
| "grounded (SetTakeoffAltitude _) = False"
| "grounded _ = True"

lemma unconfirmed_args:
  assumes "unconfirmed j" and "json_value_string j ''name'' = Inr ''arm''"
  shows "json_value_bool (if json_contains j ''args'' then json_item j ''args'' else PDict []) ''voice_confirmed'' = Inr False"
proof -
  from assms(2) obtain d where d: "j = PDict d" "map_of d ''name'' = Some (PStr ''arm'')"
    by (auto simp: json_value_string_def split: pyval.splits option.splits)
  with assms(1) have "request_arg ''voice_confirmed'' j = Some (PBool False)"
    by (simp add: unconfirmed_def arms_carry_def is_arm_request_def request_name_def)
  then show ?thesis using d
    by (auto simp: request_arg_def json_value_bool_def json_contains_def json_item_def split: option.splits pyval.splits)
qed

lemma unconfirmed_latch:
  assumes "require_spoken_arm env" and "\<not> armed_with_voice (br_safety b)"
    and "\<forall>j. ev = Request (Inr j) \<longrightarrow> unconfirmed j"
  shows "\<not> armed_with_voice (br_safety (bridge_step lib env b ev))"
proof (cases ev)
  case (Request req)
  show ?thesis
  proof (cases rule: handle_request_cases [of lib env req b])
    case Bad
    with Request assms(2) show ?thesis by (simp add: bridge_step_def)
  next
    case (Call j name)
    have "\<not> armed_with_voice (br_safety (snd (handle_call lib env name (call_args j) b)))"
    proof (cases rule: handle_call_cases [of lib env name "call_args j" b])
      case Denied
      with assms(2) show ?thesis by simp
    next
      case (Passed b1)
      have "name \<noteq> ''arm''"
        using check_tool_passes(4) [OF Passed(1)] unconfirmed_args [of j] assms Request Call by auto
      moreover have "\<not> armed_with_voice (br_safety b1)" using Passed(2) assms(2) by (simp add: issues_def)
      ultimately show ?thesis using Passed(3) commit_latches_clear by metis
    qed
    then show ?thesis using Call(3) Request by (simp add: bridge_step_def)
  qed
qed (use assms(2) in \<open>simp add: bridge_step_def\<close>)

interpretation arm_gate: gate_contract lib env "\<lambda>c. require_spoken_arm env \<longrightarrow> grounded c"
    "\<lambda>st. require_spoken_arm env \<longrightarrow> \<not> armed_with_voice st" unconfirmed
  for lib :: "'v mavsdk" and env
proof unfold_locales
  fix st j name c
  assume I: "require_spoken_arm env \<longrightarrow> \<not> armed_with_voice st" and j: "unconfirmed j" "json_value_string j ''name'' = Inr name"
    and ok: "check_tool name (call_args j) env st = Inr None" and c: "asked name (call_args j) c"
  show "require_spoken_arm env \<longrightarrow> grounded c"
  proof
    assume "require_spoken_arm env"
    with I j have "name \<noteq> ''arm''" "name \<noteq> ''takeoff''"
      using check_tool_passes(4,5) [OF ok] unconfirmed_args [of j] by auto
    with c show "grounded c" by (cases c) auto
  qed
qed (use unconfirmed_latch in blast)

section \<open>Limits that are no numbers\<close>

text \<open>A limit of the configuration that is NaN (\<open>.nan\<close> in the file) denies nothing.\<close>

lemma nan_limit_never_denies:
  assumes "max_altitude_m env = NaN" and "as_d args ''altitude_m'' = Some alt" and "0 < alt"
  shows "check_takeoff args env = None"
  using assms by (simp add: check_takeoff_def)

section \<open>An abort\<close>

text \<open>The abort request at the bridge.\<close>

lemma abort_step:
  assumes "fc_action b"
  shows "br_issued (bridge_step lib env b (Request (Inr (call_asdict
           \<lparr>tc_request_id = rid, tc_name = ''abort'', tc_args = []\<rparr>)))) = br_issued b @ [Land]
    \<and> (aborted (br_safety (bridge_step lib env b (Request (Inr (call_asdict
           \<lparr>tc_request_id = rid, tc_name = ''abort'', tc_args = []\<rparr>)))))
       \<longleftrightarrow> aborted (br_safety b) \<or> fc_telemetry b \<and> va_in_air lib (br_vehicle b))"
proof -
  have gate: "check_tool ''abort'' (PDict []) env (br_safety b) = Inr None" by (simp add: check_tool_def)
  obtain r v where "va_action lib Land (br_vehicle b) = (r, v)" by fastforce
  with assms show ?thesis
    by (cases "r = ActSuccess"; cases "fc_telemetry b \<and> va_in_air lib (br_vehicle b)")
      (auto simp: bridge_step_def handle_request_def call_asdict_def json_value_string_def json_contains_def
        json_item_def handle_call_def gate dispatch_def Let_def handle_stop_def call_action_method_def
        latch_abort_def do_action_def commit_latches_def)
qed

section \<open>A concrete bridge\<close>

text \<open>A vehicle that accepts everything, on the ground, with all plugins; a gate of 10 m, 50 m, 3 m/s.\<close>

definition demo_lib :: "unit mavsdk" where
  "demo_lib =
     \<lparr>va_action = (\<lambda>_ v. (ActSuccess, v)), va_set = (\<lambda>_ v. v), va_offboard_start = (\<lambda>v. (OffSuccess, v)),
      va_set_param = (\<lambda>_ v. (ParSuccess, v)), va_get_int = (\<lambda>_ _. (ParSuccess, 0)),
      va_get_float = (\<lambda>_ _. (ParSuccess, 0)), va_in_air = (\<lambda>_. False), va_yaw = (\<lambda>_. 0), va_health = (\<lambda>_. [])\<rparr>"

definition demo_env :: safety_env where
  "demo_env = \<lparr>max_altitude_m = Fin 10, geofence_radius_m = Fin 50, max_velocity_mps = Fin 3, require_spoken_arm = True\<rparr>"

definition demo_bridge :: "unit bridge" where
  "demo_bridge = \<lparr>fc_action = True, fc_offboard = True, fc_param = True, fc_telemetry = True,
     br_safety = \<lparr>aborted = False, armed_with_voice = False\<rparr>, br_vehicle = (), br_issued = []\<rparr>"

text \<open>A spoken arm, a takeoff to 5 m, a goto 100 m up, a velocity of 2 m/s, and a text that is no JSON.\<close>

definition demo_request :: "string \<Rightarrow> pydict \<Rightarrow> bridge_event" where
  "demo_request name args =
     Request (Inr (PDict [(''request_id'', PStr ''id''), (''name'', PStr name), (''args'', PDict args)]))"

definition demo_flight :: "bridge_event list" where
  "demo_flight =
     [demo_request ''arm'' [(''voice_confirmed'', PBool True)], demo_request ''takeoff'' [(''altitude_m'', PInt 5)],
      demo_request ''goto_ned'' [(''n'', PInt 1), (''e'', PInt 1), (''d'', PInt (- 100))],
      demo_request ''set_velocity_ned'' [(''vx'', PInt 2)], Request (Inl (ValueError ''parse error'')), ArmedReport False]"

text \<open>\<open>take off\<close>, answered by an \<open>arm\<close> and a \<open>takeoff\<close> call.\<close>

abbreviation take_off_start :: "script sys" where
  "take_off_start \<equiv> demo [] ([batch [''arm'', ''takeoff'']], [])"

lemmas demo_calls = handle_call_def check_tool_def check_takeoff_def check_goto_def check_down_def check_velocity_def
  as_d_def json_contains_def json_item_def json_number_def json_value_bool_def json_value_string_def dispatch_def
  call_action_method_def handle_takeoff_def handle_set_velocity_ned_def start_setpoint_def require_double_def
  optional_double_def or_zero_def setpoint_yaw_def do_action_def do_set_def do_offboard_start_def commit_latches_def
  demo_lib_def demo_env_def demo_bridge_def Let_def

section \<open>Properties\<close>

text \<open>The arguments a schema requires are among those it describes.\<close>

definition schema_closed :: "pydict \<Rightarrow> bool" where
  "schema_closed sch =
     (case (map_of sch ''properties'', map_of sch ''required'') of
        (Some (PDict props), Some (PList req)) \<Rightarrow>
          list_all (\<lambda>k. case k of PStr p \<Rightarrow> map_of props p \<noteq> None | _ \<Rightarrow> False) req
      | _ \<Rightarrow> False)"



text \<open>
  C1: the arm gate from the pilot to the vehicle. If a command without the word arm has been handled,
  and the bridge, whose voice latch is clear, gets any of the requests sent for it, in any order, any
  number of times, with whatever else fails to parse, between whatever reports of the vehicle, then it
  neither arms the vehicle nor takes off, whatever the VLM asked for.
\<close>

theorem unspoken_command_stays_grounded:
  assumes "on_command ops cmd s0 = Some (Inr t)" and "\<not> re_word_search ''arm'' (vc_text cmd)"
    and "require_spoken_arm env" and "\<not> armed_with_voice (br_safety b)"
    and "\<forall>j. Request (Inr j) \<in> set evs \<longrightarrow> j \<in> set (drop (length (req_sent (orch_of s0))) (req_sent (orch_of t)))"
  shows "\<exists>new. br_issued (bridge_run lib env b evs) = br_issued b @ new \<and> (\<forall>c\<in>set new. grounded c)"
proof -
  have "authorised_step (upd (start_command cmd) (yield ops s0)) t" by (rule auth.command [OF assms(1)])
  then obtain new where "req_sent (orch_of t) = req_sent (orch_of s0) @ new" "arms_carry False new"
    using assms(2) by (auto simp: authorised_step_def start_command_def)
  with assms(5) have "\<forall>j. Request (Inr j) \<in> set evs \<longrightarrow> unconfirmed j"
    by (auto simp: unconfirmed_def arms_carry_def list_all_iff)
  with arm_gate.run [where b = b and evs = evs and lib = lib and env = env] assms(3,4) show ?thesis by (auto simp: issued_only_def)
qed

theorem unspoken_command_stays_grounded_witness:
  "\<exists>new. br_issued (bridge_run demo_lib demo_env demo_bridge
       (map (\<lambda>j. Request (Inr j)) (req_sent (orch_of (after_command (say ''take off'') take_off_start)))))
     = br_issued demo_bridge @ new \<and> list_all grounded new"
proof -
  have "on_command scripted (say ''take off'') take_off_start
      = Some (Inr (after_command (say ''take off'') take_off_start))"
    by (rule after_command) code_simp
  moreover have "\<not> re_word_search ''arm'' (vc_text (say ''take off''))" by code_simp
  moreover have "req_sent (orch_of take_off_start) = []" by code_simp
  ultimately show ?thesis
    using unspoken_command_stays_grounded [of scripted "say ''take off''" take_off_start _ demo_env demo_bridge
        "map (\<lambda>j. Request (Inr j)) (req_sent (orch_of (after_command (say ''take off'') take_off_start)))" demo_lib]
    by (auto simp: list_all_iff demo_env_def demo_bridge_def)
qed

text \<open>
  An abort gets to the vehicle. Once the pilot has given an abort command, the request that is sent
  makes the bridge order the vehicle to land, whatever its latches, its limits and its other plugins,
  and in the air the abort latch is set afterwards, so that nothing but landing, killing, aborting or
  disarming gets past the gate.
\<close>

theorem abort_lands_vehicle:
  assumes "is_abort_command (orch_of s) cmd" and "\<forall>w. fst (w_connect ops w) = None" and "fc_action b"
  shows "\<exists>t r b'. on_command ops cmd s = Some (Inr t) \<and> req_sent (orch_of t) = req_sent (orch_of s) @ [r]
    \<and> b' = bridge_step lib env b (Request (Inr r)) \<and> br_issued b' = br_issued b @ [Land]
    \<and> (aborted (br_safety b') \<longleftrightarrow> aborted (br_safety b) \<or> fc_telemetry b \<and> va_in_air lib (br_vehicle b))"
proof -
  let ?s = "upd (start_command cmd) (yield ops s)"
  obtain rid where sent: "req_sent (orch_of (handle_abort ops cmd ?s)) = req_sent (orch_of s)
      @ [call_asdict \<lparr>tc_request_id = rid, tc_name = ''abort'', tc_args = []\<rparr>]"
    using handle_abort_call [of ?s ops cmd] assms(2) by auto
  with on_command_abort [OF assms(1)] abort_step [OF assms(3)] show ?thesis by blast
qed

theorem abort_lands_vehicle_witness:
  "\<exists>t r. on_command scripted (say ''please Abort now'') take_off_start = Some (Inr t)
    \<and> req_sent (orch_of t) = req_sent (orch_of take_off_start) @ [r]
    \<and> br_issued (bridge_step demo_lib demo_env demo_bridge (Request (Inr r))) = [Land]"
proof -
  have "is_abort_command (orch_of take_off_start) (say ''please Abort now'')" by code_simp
  moreover have "\<forall>w. fst (w_connect scripted w) = None" by (simp add: scripted_def)
  moreover have "fc_action demo_bridge" "br_issued demo_bridge = []" by (simp_all add: demo_bridge_def)
  ultimately show ?thesis
    using abort_lands_vehicle [of take_off_start "say ''please Abort now''" scripted demo_bridge demo_lib demo_env]
    by fastforce
qed

text \<open>
  The schemas and the bridge are in step: every tool the VLM is offered is one the bridge has a
  handler for, the four it is not offered are the operator's, the tools that end a mission are offered,
  no name is there twice, and every argument a schema requires is one it describes.
\<close>

theorem schemas_match_bridge:
  "distinct tool_names \<and> distinct bridge_tools
   \<and> set bridge_tools = set tool_names \<union> {''set_param'', ''get_param'', ''get_health'', ''enable_offboard''}
   \<and> set terminal_tools \<subseteq> set tool_names
   \<and> list_all (\<lambda>t. schema_closed (ts_parameters t)) tool_schemas"
  by (simp add: tool_names_def tool_schemas_def tool_schema_def yaw_arg_def bridge_tools_def terminal_tools_def object_schema_def number_arg_def
      schema_closed_def insert_commute)

end
