(* ===== verification/Watchdog.thy ===== *)
theory Watchdog
  imports Bridge
begin

text \<open>
  The heartbeat watchdog of \<open>src/flight_bridge/main.cpp\<close>: a thread that looks at the link every 200 ms
  and orders the vehicle back, or to hold, once per loss of the link. What it sees at a poll is an
  observation: the link, the clock when a loss is first noticed, the clock when its age is taken, and the
  voice latch.
\<close>

section \<open>The thread\<close>

record watchdog =
  disconnect_at :: "real option"
  action_fired :: bool

record link_obs =
  lo_connected :: bool
  lo_noticed :: real
  lo_now :: real
  lo_latch :: bool

text \<open>The action of the configuration: any other name ends the bridge with code 5.\<close>

definition hb_action_valid :: "string \<Rightarrow> bool" where
  "hb_action_valid a = (a = ''rtl'' \<or> a = ''hold'')"

definition watch_start :: watchdog where
  "watch_start = \<lparr>disconnect_at = None, action_fired = False\<rparr>"

definition watch_step :: "pyfloat \<Rightarrow> string \<Rightarrow> watchdog \<Rightarrow> link_obs \<Rightarrow> watchdog \<times> veh_cmd option" where
  "watch_step threshold act w0 o1 =
     (if lo_connected o1 then (w0\<lparr>disconnect_at := None, action_fired := False\<rparr>, None)
      else
        let t0 = (case disconnect_at w0 of Some t \<Rightarrow> t | None \<Rightarrow> lo_noticed o1);
            w = w0\<lparr>disconnect_at := Some t0\<rparr>
        in if flt_less (Fin (lo_now o1 - t0)) threshold \<or> action_fired w then (w, None)
           else if \<not> lo_latch o1 then (w\<lparr>action_fired := True\<rparr>, None)
           else (w\<lparr>action_fired := True\<rparr>, Some (if act = ''hold'' then Hold else ReturnToLaunch)))"

text \<open>What each poll orders.\<close>

fun watch_run :: "pyfloat \<Rightarrow> string \<Rightarrow> watchdog \<Rightarrow> link_obs list \<Rightarrow> veh_cmd option list" where
  "watch_run threshold act w [] = []"
| "watch_run threshold act w (o1 # obs) =
     (let (w', c) = watch_step threshold act w o1 in c # watch_run threshold act w' obs)"

section \<open>The specification: losses of the link\<close>

text \<open>The polls since the link was last seen; when that loss was noticed; the polls at which it is old enough.\<close>

definition outage :: "link_obs list \<Rightarrow> link_obs list" where
  "outage obs = rev (takeWhile (\<lambda>o1. \<not> lo_connected o1) (rev obs))"

definition overdue :: "pyfloat \<Rightarrow> real \<Rightarrow> link_obs \<Rightarrow> bool" where
  "overdue threshold t0 o1 = (\<not> flt_less (Fin (lo_now o1 - t0)) threshold)"

definition watch_spec :: "pyfloat \<Rightarrow> string \<Rightarrow> link_obs list \<Rightarrow> link_obs \<Rightarrow> veh_cmd option" where
  "watch_spec threshold act seen o1 =
     (let loss = outage (seen @ [o1])
      in if loss \<noteq> [] \<and> overdue threshold (lo_noticed (hd loss)) o1
            \<and> \<not> list_ex (overdue threshold (lo_noticed (hd loss))) (butlast loss) \<and> lo_latch o1
         then Some (if act = ''hold'' then Hold else ReturnToLaunch) else None)"

lemma outage_snoc: "outage (obs @ [o1]) = (if lo_connected o1 then [] else outage obs @ [o1])"
  by (simp add: outage_def)

section \<open>Lemmas\<close>

text \<open>The state of the thread is the abstraction of what it has seen.\<close>

definition watch_abs :: "pyfloat \<Rightarrow> link_obs list \<Rightarrow> watchdog" where
  "watch_abs threshold obs =
     (case outage obs of
        [] \<Rightarrow> watch_start
      | o1 # _ \<Rightarrow> \<lparr>disconnect_at = Some (lo_noticed o1),
                    action_fired = list_ex (overdue threshold (lo_noticed o1)) (outage obs)\<rparr>)"

lemma watch_step_abs:
  "watch_step threshold act (watch_abs threshold seen) o1
     = (watch_abs threshold (seen @ [o1]), watch_spec threshold act seen o1)"
  by (cases "outage seen")
    (auto simp: watch_step_def watch_abs_def watch_spec_def outage_snoc watch_start_def overdue_def Let_def)

lemma watch_run_spec:
  "watch_run threshold act (watch_abs threshold seen) obs
     = map (\<lambda>i. watch_spec threshold act (seen @ take i obs) (obs ! i)) [0..<length obs]"
proof (induction obs arbitrary: seen)
  case (Cons o1 obs)
  have "map (\<lambda>i. watch_spec threshold act (seen @ take i (o1 # obs)) ((o1 # obs) ! i)) [0..<length (o1 # obs)]
    = watch_spec threshold act seen o1
        # map (\<lambda>i. watch_spec threshold act ((seen @ [o1]) @ take i obs) (obs ! i)) [0..<length obs]"
    by (simp add: upt_conv_Cons map_Suc_upt [symmetric] del: upt_Suc)
  then show ?case using Cons.IH [of "seen @ [o1]"] by (simp add: watch_step_abs)
qed simp

section \<open>Properties\<close>

text \<open>
  C11: the watchdog is what its specification says, at every poll and for every behaviour of the link, the
  clock and the latch: it orders the configured action at the first poll at which a loss of the link is as
  old as the threshold, if the voice latch is set then, and nothing at any other poll of that loss.
\<close>

theorem watchdog_implements_spec:
  "watch_run threshold act watch_start obs
     = map (\<lambda>i. watch_spec threshold act (take i obs) (obs ! i)) [0..<length obs]"
proof -
  have "watch_abs threshold [] = watch_start" by (simp add: watch_abs_def outage_def)
  then show ?thesis using watch_run_spec [of threshold act "[]" obs] by simp
qed

text \<open>Two losses, the threshold at 2 s: each is answered once, and the first one not before it is 2 s old.\<close>

definition two_losses :: "link_obs list" where
  "two_losses = map (\<lambda>(c, t). \<lparr>lo_connected = c, lo_noticed = t, lo_now = t, lo_latch = True\<rparr>)
     [(True, 0), (False, 1), (False, 2), (False, 3), (False, 4), (True, 5), (False, 6), (False, 8), (False, 9)]"

lemma two_losses_answered:
  "watch_run (Fin 2) ''rtl'' watch_start two_losses =
     [None, None, None, Some ReturnToLaunch, None, None, None, Some ReturnToLaunch, None]"
  by (simp add: two_losses_def watch_start_def watch_step_def)

end
