(* ===== verification/Wire_Types.thy ===== *)
theory Wire_Types
  imports Bridge_Props
begin

text \<open>
  The type of a request on the wire. The bridge reads the fields of a request with accessors that throw
  on a value of another type; the requests of the orchestrator have the types they ask for, so that the
  bridge never takes one for malformed.
\<close>

section \<open>Well-typed requests\<close>

text \<open>The three fields can be read with their types, and so can the confirmation of an \<open>arm\<close>.\<close>

definition typed_request :: "pyval \<Rightarrow> bool" where
  "typed_request r =
     (case (json_value_string r ''request_id'', json_value_string r ''name'', json_item r ''args'') of
        (Inr rid, Inr name, PDict args) \<Rightarrow>
          name = ''arm'' \<longrightarrow> \<not> isl (json_value_bool (PDict args) ''voice_confirmed'')
      | _ \<Rightarrow> False)"

lemma typed_requestE:
  assumes "typed_request r"
  obtains rid name args where "json_value_string r ''request_id'' = Inr rid"
    "json_value_string r ''name'' = Inr name" "json_item r ''args'' = PDict args" "json_contains r ''args''"
    "name = ''arm'' \<longrightarrow> \<not> isl (json_value_bool (PDict args) ''voice_confirmed'')"
proof -
  have c: "json_contains r ''args''" if "json_item r ''args'' = PDict args" for args
    using that by (auto simp: json_item_def json_contains_def split: pyval.splits option.splits)
  show ?thesis
    using assms c that unfolding typed_request_def
    by (cases "json_value_string r ''request_id''"; cases "json_value_string r ''name''";
        cases "json_item r ''args''") auto
qed

lemma typed_wire_request: "typed_request (wire_request ob tc)"
  by (simp add: typed_request_def wire_request_def wire_args_def call_asdict_def od.get_put
      json_value_string_def json_item_def json_value_bool_def)

section \<open>Every request is well typed\<close>

definition typed_step :: "'w sys \<Rightarrow> 'w sys \<Rightarrow> bool" where
  "typed_step s t \<longleftrightarrow> (\<exists>new. req_sent (orch_of t) = req_sent (orch_of s) @ new \<and> list_all typed_request new)"

lemma typed_step_same: "req_sent (orch_of t) = req_sent (orch_of s) \<Longrightarrow> typed_step s t"
  by (simp add: typed_step_def)

lemma typed_step_trans: "typed_step s t \<Longrightarrow> typed_step t u \<Longrightarrow> typed_step s u"
  by (force simp: typed_step_def)

lemma dispatch_typed:
  assumes "dispatch_tool_call ops tc s = (res, t)"
  shows "typed_step s t"
  using dispatch_fields(9) [OF assms] typed_wire_request by (auto simp: typed_step_def)

interpretation wt: main_effect typed_step
  by unfold_locales
    (auto simp: add_history_def intro: typed_step_same typed_step_trans dispatch_typed)

section \<open>The bridge on a well-typed request\<close>

text \<open>A handler throws only where it reads the name of a parameter.\<close>

lemma dispatch_no_throw:
  assumes "name \<noteq> ''set_param''" and "name \<noteq> ''get_param''"
  shows "\<exists>out b'. dispatch lib name args b = (Inr out, b')"
proof -
  have pure: "\<exists>out b'. (case p of (r, b') \<Rightarrow> (Inr r, b')) = (Inr out :: outcome result, b')" for p :: "outcome \<times> 'a bridge"
    by (cases p) simp
  show ?thesis
    unfolding dispatch_def Let_def using assms pure by simp
qed

lemma typed_call_answered:
  assumes "name \<noteq> ''set_param''" and "name \<noteq> ''get_param''"
    and "name = ''arm'' \<Longrightarrow> \<not> isl (json_value_bool (PDict args) ''voice_confirmed'')"
  shows "\<exists>out b'. handle_call lib env name (PDict args) b = (Inr out, b')"
proof -
  have read: "\<exists>v. json_value_bool (PDict args) ''voice_confirmed'' = Inr v" if "name = ''arm''"
    using assms(3) [OF that] by (cases "json_value_bool (PDict args) ''voice_confirmed''") simp_all
  then obtain why where "check_tool name (PDict args) env (br_safety b) = Inr why"
    by (fastforce simp: check_tool_def)
  moreover obtain out b1 where "dispatch lib name (PDict args) b = (Inr out, b1)"
    using dispatch_no_throw [OF assms(1,2)] by blast
  moreover have "\<exists>b2. commit_latches name (PDict args) b1 = Inr b2"
    using read by (fastforce simp: commit_latches_def)
  ultimately show ?thesis
    by (auto simp: handle_call_def split: option.split sum.split)
qed

section \<open>Properties\<close>



end
