(* ===== verification/Telemetry.thy ===== *)
theory Telemetry
  imports Bridge
begin

text \<open>
  The telemetry message of the flight bridge: the struct of \<open>include/lexaire/messages.hpp\<close> and its JSON
  form, and one turn of the publishing thread of \<open>src/flight_bridge/main.cpp\<close>, which fills it from what
  MAVSDK reports. A float is a \<open>pyfloat\<close>; nlohmann's printer writes one that is no number as \<open>null\<close>. The
  conversion of a percentage that is infinite is undefined in C++ and stands as no percentage.
\<close>

section \<open>The message\<close>

record telemetry =
  tm_ts_ns :: int
  tm_connected :: bool
  tm_qgc_connected :: bool
  tm_armed :: bool
  tm_flight_mode :: string
  tm_battery_pct :: "int option"
  tm_battery_v :: "pyfloat option"
  tm_lat :: "pyfloat option"
  tm_lon :: "pyfloat option"
  tm_abs_alt_m :: "pyfloat option"
  tm_rel_alt_m :: "pyfloat option"
  tm_roll_deg :: pyfloat
  tm_pitch_deg :: pyfloat
  tm_yaw_deg :: pyfloat
  tm_ground_speed_mps :: pyfloat

definition new_telemetry :: telemetry where
  "new_telemetry =
     \<lparr>tm_ts_ns = 0, tm_connected = False, tm_qgc_connected = False, tm_armed = False, tm_flight_mode = ''N/A'',
      tm_battery_pct = None, tm_battery_v = None, tm_lat = None, tm_lon = None, tm_abs_alt_m = None,
      tm_rel_alt_m = None, tm_roll_deg = Fin 0, tm_pitch_deg = Fin 0, tm_yaw_deg = Fin 0,
      tm_ground_speed_mps = Fin 0\<rparr>"

text \<open>What a printed number is when it has been read again.\<close>

definition nl_float :: "pyfloat \<Rightarrow> pyval" where
  "nl_float x = (case x of Fin r \<Rightarrow> PFloat (Fin r) | _ \<Rightarrow> PNone)"

definition nl_optional :: "pyfloat option \<Rightarrow> pyval" where
  "nl_optional ox = (case ox of Some x \<Rightarrow> nl_float x | None \<Rightarrow> PNone)"

text \<open>An object of nlohmann's keeps its fields in the order of their names.\<close>

definition telemetry_json :: "telemetry \<Rightarrow> pydict" where
  "telemetry_json t =
     [(''abs_alt_m'', nl_optional (tm_abs_alt_m t)),
      (''armed'', PBool (tm_armed t)),
      (''battery_pct'', case tm_battery_pct t of Some i \<Rightarrow> PInt i | None \<Rightarrow> PNone),
      (''battery_v'', nl_optional (tm_battery_v t)),
      (''connected'', PBool (tm_connected t)),
      (''flight_mode'', PStr (tm_flight_mode t)),
      (''ground_speed_mps'', nl_float (tm_ground_speed_mps t)),
      (''lat'', nl_optional (tm_lat t)),
      (''lon'', nl_optional (tm_lon t)),
      (''pitch_deg'', nl_float (tm_pitch_deg t)),
      (''qgc_connected'', PBool (tm_qgc_connected t)),
      (''rel_alt_m'', nl_optional (tm_rel_alt_m t)),
      (''roll_deg'', nl_float (tm_roll_deg t)),
      (''ts_ns'', PInt (tm_ts_ns t)),
      (''yaw_deg'', nl_float (tm_yaw_deg t))]"

section \<open>The publishing thread\<close>

record veh_sample =
  vs_connected :: bool
  vs_armed :: bool
  vs_mode :: string
  vs_remaining :: pyfloat
  vs_voltage :: pyfloat
  vs_lat :: pyfloat
  vs_lon :: pyfloat
  vs_abs_alt :: pyfloat
  vs_rel_alt :: pyfloat
  vs_roll :: pyfloat
  vs_pitch :: pyfloat
  vs_yaw :: pyfloat
  vs_north :: pyfloat
  vs_east :: pyfloat

definition isfinite :: "pyfloat \<Rightarrow> bool" where
  "isfinite x = (case x of Fin _ \<Rightarrow> True | _ \<Rightarrow> False)"

definition when_finite :: "pyfloat \<Rightarrow> pyfloat option" where
  "when_finite x = (if isfinite x then Some x else None)"

fun flt_sqrt :: "pyfloat \<Rightarrow> pyfloat" where
  "flt_sqrt (Fin r) = (if r < 0 then NaN else Fin (sqrt r))"
| "flt_sqrt PInf = PInf"
| "flt_sqrt _ = NaN"

text \<open>
  The message filter: the time of the last heartbeat of a ground station, not touched while the program
  ends; and its freshness, 0 being never.
\<close>

definition on_mavlink :: "bool \<Rightarrow> bool \<Rightarrow> bool \<Rightarrow> int \<Rightarrow> int \<Rightarrow> int" where
  "on_mavlink stopping heartbeat from_gcs now_ms last_hb =
     (if stopping then last_hb else if heartbeat \<and> from_gcs then now_ms else last_hb)"

definition qgc_fresh :: "int \<Rightarrow> int \<Rightarrow> bool" where
  "qgc_fresh last_hb now_ms = (last_hb \<noteq> 0 \<and> now_ms - last_hb < 3000)"

definition sample_telemetry :: "int \<Rightarrow> int \<Rightarrow> int \<Rightarrow> veh_sample \<Rightarrow> telemetry" where
  "sample_telemetry now_ns now_ms last_hb v =
     (let fix = isfinite (vs_lat v) \<and> isfinite (vs_lon v) \<and> (vs_lat v \<noteq> Fin 0 \<or> vs_lon v \<noteq> Fin 0) in
      new_telemetry
        \<lparr>tm_ts_ns := now_ns,
         tm_qgc_connected := qgc_fresh last_hb now_ms,
         tm_connected := vs_connected v,
         tm_armed := vs_armed v,
         tm_flight_mode := vs_mode v,
         tm_battery_pct := (case vs_remaining v of Fin r \<Rightarrow> if 0 \<le> r then Some (trunc r) else None | _ \<Rightarrow> None),
         tm_battery_v := (if isfinite (vs_voltage v) \<and> flt_less (Fin 0) (vs_voltage v)
                          then Some (vs_voltage v) else None),
         tm_lat := (if fix then Some (vs_lat v) else None),
         tm_lon := (if fix then Some (vs_lon v) else None),
         tm_abs_alt_m := when_finite (vs_abs_alt v),
         tm_rel_alt_m := when_finite (vs_rel_alt v),
         tm_roll_deg := vs_roll v,
         tm_pitch_deg := vs_pitch v,
         tm_yaw_deg := vs_yaw v,
         tm_ground_speed_mps :=
           flt_sqrt (flt_add (flt_mul (vs_north v) (vs_north v)) (flt_mul (vs_east v) (vs_east v)))\<rparr>)"

section \<open>Lemmas\<close>

lemma isfiniteE [elim?]:
  assumes "isfinite x"
  obtains r where "x = Fin r"
  using assms by (cases x) (auto simp: isfinite_def)

lemma isfinite_Fin [simp]: "isfinite (Fin r)" "\<not> isfinite NaN" "\<not> isfinite PInf" "\<not> isfinite NInf"
  by (simp_all add: isfinite_def)

lemma nl_float_simps [simp]: "nl_float (Fin r) = PFloat (Fin r)" "\<not> isfinite x \<Longrightarrow> nl_float x = PNone"
  by (simp add: nl_float_def) (cases x; simp add: nl_float_def)

lemma nl_optional_simps [simp]: "nl_optional None = PNone" "nl_optional (Some x) = nl_float x"
  by (simp_all add: nl_optional_def)

text \<open>A message whose optional numbers are numbers, each within its bounds, a position whole or not at all.\<close>

definition plausible :: "telemetry \<Rightarrow> bool" where
  "plausible t =
     (pred_option (\<lambda>p. 0 \<le> p) (tm_battery_pct t)
      \<and> pred_option (\<lambda>v. isfinite v \<and> flt_less (Fin 0) v) (tm_battery_v t)
      \<and> (tm_lat t = None \<longleftrightarrow> tm_lon t = None)
      \<and> pred_option isfinite (tm_lat t) \<and> pred_option isfinite (tm_lon t)
      \<and> pred_option isfinite (tm_abs_alt_m t) \<and> pred_option isfinite (tm_rel_alt_m t))"

lemma sample_plausible: "plausible (sample_telemetry now_ns now_ms last_hb v)"
  by (cases "vs_remaining v")
    (auto simp: plausible_def sample_telemetry_def new_telemetry_def when_finite_def trunc_def Let_def)

lemma sample_fields [simp]:
  "tm_connected (sample_telemetry a b c v) = vs_connected v" "tm_armed (sample_telemetry a b c v) = vs_armed v"
  "tm_flight_mode (sample_telemetry a b c v) = vs_mode v" "tm_roll_deg (sample_telemetry a b c v) = vs_roll v"
  "tm_pitch_deg (sample_telemetry a b c v) = vs_pitch v" "tm_yaw_deg (sample_telemetry a b c v) = vs_yaw v"
  by (simp_all add: sample_telemetry_def Let_def)

end
