(* ===== verification/Panel.thy ===== *)
theory Panel
  imports Telemetry Json
begin

text \<open>
  The service panel of the terminal interface, \<open>src/services_panel.cpp\<close>: the watcher thread that keeps
  the last message of each channel as a snapshot, and what \<open>src/main.cpp\<close> shows of it (the rows with
  their ages, the alarm of the orchestrator). Drawing itself is left out. nlohmann's parser reads what
  \<open>decode_header\<close> reads, except that the texts \<open>NaN\<close> and \<open>Infinity\<close> and numbers too large for a double are
  errors. How a stream prints a double is a parameter.
\<close>

section \<open>Reading\<close>

fun finite_json :: "pyval \<Rightarrow> bool" where
  "finite_json (PFloat x) = isfinite x"
| "finite_json (PList vs) = list_all finite_json vs"
| "finite_json (PDict d) = list_all (\<lambda>(k, v). finite_json v) d"
| "finite_json _ = True"

definition nl_parse :: "string \<Rightarrow> pyval result" where
  "nl_parse frame =
     rbind (decode_header frame) (\<lambda>v. if finite_json v then Inr v else Inl (ValueError ''parse_error''))"

text \<open>\<open>get<T>()\<close> for the types the panel asks for; \<open>get<float>\<close> takes a boolean too.\<close>

definition get_as :: "(pyval \<Rightarrow> 'a option) \<Rightarrow> pyval \<Rightarrow> 'a result" where
  "get_as conv v = (case conv v of Some x \<Rightarrow> Inr x | None \<Rightarrow> Inl (TypeError ''type_error''))"

definition as_str :: "pyval \<Rightarrow> string option" where
  "as_str v = (case v of PStr s \<Rightarrow> Some s | _ \<Rightarrow> None)"

definition as_float :: "pyval \<Rightarrow> real option" where
  "as_float v = (case v of PBool b \<Rightarrow> Some (if b then 1 else 0) | _ \<Rightarrow> json_number v)"

text \<open>\<open>j.value(k, dflt)\<close>, and a field that is there and not null.\<close>

definition json_value :: "(pyval \<Rightarrow> 'a option) \<Rightarrow> pyval \<Rightarrow> string \<Rightarrow> 'a \<Rightarrow> 'a result" where
  "json_value conv j k dflt = (case j of
     PDict d \<Rightarrow> (case map_of d k of None \<Rightarrow> Inr dflt | Some v \<Rightarrow> get_as conv v)
   | _ \<Rightarrow> Inl (TypeError ''cannot use value()''))"

definition present :: "pyval \<Rightarrow> string \<Rightarrow> bool" where
  "present j k = (json_contains j k \<and> json_item j k \<noteq> PNone)"

definition field_or :: "(pyval \<Rightarrow> 'a option) \<Rightarrow> pyval \<Rightarrow> string \<Rightarrow> 'a \<Rightarrow> 'a result" where
  "field_or conv j k dflt = (if present j k then get_as conv (json_item j k) else Inr dflt)"

section \<open>Summaries\<close>

definition summarize_scene :: "string \<Rightarrow> string" where
  "summarize_scene header =
     (case rbind (nl_parse header) (\<lambda>j. rbind (json_value Some j ''detections'' (PList [])) (\<lambda>dets.
        case dets of
          PList (d # ds) \<Rightarrow>
            rbind (rmap (\<lambda>d. json_value as_str d ''label'' ''?'') (take 3 (d # ds))) (\<lambda>labels.
              Inr (nat_dec (length (d # ds)) @ '' detection'' @ (if ds = [] then [] else ''s'') @ '' (''
                   @ join '', '' labels @ (if 3 < length (d # ds) then '', ...'' else []) @ '')''))
        | _ \<Rightarrow> Inr ''no detections'')) of
        Inl _ \<Rightarrow> ''parse error''
      | Inr s \<Rightarrow> s)"

definition summarize_telemetry :: "(real \<Rightarrow> string) \<Rightarrow> string \<Rightarrow> string" where
  "summarize_telemetry show_double header =
     (case rbind (nl_parse header) (\<lambda>j.
        rbind (json_value_bool j ''connected'') (\<lambda>connected.
        rbind (json_value_string j ''flight_mode'') (\<lambda>mode.
          if \<not> connected then Inr ''autopilot heartbeat timeout''
          else
            rbind (json_value_bool j ''armed'') (\<lambda>armed.
            rbind (if present j ''rel_alt_m'' then rbind (get_as json_number (json_item j ''rel_alt_m''))
                     (\<lambda>a. Inr ('' / '' @ show_double a @ '' m'')) else Inr []) (\<lambda>alt.
            rbind (if present j ''battery_pct'' then rbind (get_as json_number (json_item j ''battery_pct''))
                     (\<lambda>b. Inr ('' / '' @ int_dec (trunc b) @ ''%'')) else Inr []) (\<lambda>bat.
              Inr (mode @ '' / '' @ (if armed then ''armed'' else ''disarmed'') @ alt @ bat))))))) of
        Inl _ \<Rightarrow> ''parse error''
      | Inr s \<Rightarrow> s)"

text \<open>\<open>parse_orch\<close>: the state and the last thought.\<close>

definition parse_orch :: "string \<Rightarrow> string \<times> string" where
  "parse_orch header =
     (case rbind (nl_parse header) (\<lambda>j.
        rbind (json_value as_str j ''state'' ''?'') (\<lambda>state.
        rbind (json_value as_str j ''last_thought'' []) (\<lambda>thought. Inr (state, thought)))) of
        Inl _ \<Rightarrow> (''parse error'', [])
      | Inr p \<Rightarrow> p)"

section \<open>The telemetry of the header line and the live monitor\<close>

record telem_view =
  tv_connected :: bool
  tv_qgc_connected :: bool
  tv_armed :: bool
  tv_flight_mode :: string
  tv_has_battery :: bool
  tv_battery_pct :: int
  tv_battery_v :: real
  tv_has_fix :: bool
  tv_latitude :: real
  tv_longitude :: real
  tv_abs_alt_m :: real
  tv_rel_alt_m :: real
  tv_roll_deg :: real
  tv_pitch_deg :: real
  tv_yaw_deg :: real
  tv_ground_spd :: real

definition empty_view :: telem_view where
  "empty_view =
     \<lparr>tv_connected = False, tv_qgc_connected = False, tv_armed = False, tv_flight_mode = ''N/A'',
      tv_has_battery = False, tv_battery_pct = 0, tv_battery_v = 0, tv_has_fix = False, tv_latitude = 0,
      tv_longitude = 0, tv_abs_alt_m = 0, tv_rel_alt_m = 0, tv_roll_deg = 0, tv_pitch_deg = 0, tv_yaw_deg = 0,
      tv_ground_spd = 0\<rparr>"

definition view_telemetry :: "pyval \<Rightarrow> telem_view result" where
  "view_telemetry j =
     rbind (json_value_bool j ''connected'') (\<lambda>connected.
     rbind (json_value_bool j ''qgc_connected'') (\<lambda>qgc.
     rbind (json_value_bool j ''armed'') (\<lambda>armed.
     rbind (json_value as_str j ''flight_mode'' ''N/A'') (\<lambda>mode.
     rbind (field_or json_number j ''battery_pct'' 0) (\<lambda>pct.
     rbind (field_or as_float j ''battery_v'' 0) (\<lambda>volts.
     let fix = present j ''lat'' \<and> present j ''lon'' in
     rbind (if fix then get_as json_number (json_item j ''lat'') else Inr 0) (\<lambda>lat.
     rbind (if fix then get_as json_number (json_item j ''lon'') else Inr 0) (\<lambda>lon.
     rbind (field_or as_float j ''abs_alt_m'' 0) (\<lambda>abs_alt.
     rbind (field_or as_float j ''rel_alt_m'' 0) (\<lambda>rel_alt.
     rbind (json_value as_float j ''roll_deg'' 0) (\<lambda>roll.
     rbind (json_value as_float j ''pitch_deg'' 0) (\<lambda>pitch.
     rbind (json_value as_float j ''yaw_deg'' 0) (\<lambda>yaw.
     rbind (json_value as_float j ''ground_speed_mps'' 0) (\<lambda>speed.
       Inr \<lparr>tv_connected = connected, tv_qgc_connected = qgc, tv_armed = armed, tv_flight_mode = mode,
            tv_has_battery = (present j ''battery_pct'' \<or> present j ''battery_v''),
            tv_battery_pct = trunc pct, tv_battery_v = volts, tv_has_fix = fix, tv_latitude = lat,
            tv_longitude = lon, tv_abs_alt_m = abs_alt, tv_rel_alt_m = rel_alt, tv_roll_deg = roll,
            tv_pitch_deg = pitch, tv_yaw_deg = yaw, tv_ground_spd = speed\<rparr>))))))))))))))"

text \<open>\<open>parse_telemetry\<close>: all or nothing.\<close>

definition parse_telemetry :: "string \<Rightarrow> telem_view" where
  "parse_telemetry header = (case rbind (nl_parse header) view_telemetry of Inl _ \<Rightarrow> empty_view | Inr v \<Rightarrow> v)"

section \<open>The watcher\<close>

record services_snapshot =
  perception_last_ns :: int
  telemetry_last_ns :: int
  orch_last_ns :: int
  perception_summary :: string
  telemetry_summary :: string
  orch_state :: string
  orch_thought :: string
  snap_telemetry :: telem_view
  watcher_last_ns :: int

definition new_snapshot :: services_snapshot where
  "new_snapshot =
     \<lparr>perception_last_ns = 0, telemetry_last_ns = 0, orch_last_ns = 0, perception_summary = [],
      telemetry_summary = [], orch_state = [], orch_thought = [], snap_telemetry = empty_view,
      watcher_last_ns = 0\<rparr>"

text \<open>
  One turn of the loop: the clock, and the header of the message on each channel that has one. A channel
  is a \<open>string option\<close>; its clock reading is that of the turn.
\<close>

definition on_scene_header :: "int \<Rightarrow> string option \<Rightarrow> services_snapshot \<Rightarrow> services_snapshot" where
  "on_scene_header now m snap = (case m of None \<Rightarrow> snap
     | Some hdr \<Rightarrow> snap\<lparr>perception_last_ns := now, perception_summary := summarize_scene hdr\<rparr>)"

definition on_telem_header :: "(real \<Rightarrow> string) \<Rightarrow> int \<Rightarrow> string option \<Rightarrow> services_snapshot \<Rightarrow> services_snapshot" where
  "on_telem_header show_double now m snap = (case m of None \<Rightarrow> snap
     | Some hdr \<Rightarrow> snap\<lparr>telemetry_last_ns := now, telemetry_summary := summarize_telemetry show_double hdr,
                       snap_telemetry := parse_telemetry hdr\<rparr>)"

definition on_orch_header :: "int \<Rightarrow> string option \<Rightarrow> services_snapshot \<Rightarrow> services_snapshot" where
  "on_orch_header now m snap = (case m of None \<Rightarrow> snap
     | Some hdr \<Rightarrow> (let (state, thought) = parse_orch hdr
                   in snap\<lparr>orch_last_ns := now, orch_state := state, orch_thought := thought\<rparr>))"

definition watcher_turn ::
    "(real \<Rightarrow> string) \<Rightarrow> int \<Rightarrow> string option \<times> string option \<times> string option \<Rightarrow> services_snapshot
     \<Rightarrow> services_snapshot" where
  "watcher_turn show_double now msgs snap =
     (case msgs of (scene, telem, orch) \<Rightarrow>
        on_orch_header now orch (on_telem_header show_double now telem
          (on_scene_header now scene (snap\<lparr>watcher_last_ns := now\<rparr>))))"

section \<open>What is shown\<close>

text \<open>The age of a message in milliseconds, negative for none; its text and its colour (1 green, 2 yellow, 3 red).\<close>

definition age_ms :: "int \<Rightarrow> int \<Rightarrow> int" where
  "age_ms now ts = (if ts = 0 then - 1 else (now - ts) div 1000000)"

definition fmt_age :: "int \<Rightarrow> string" where
  "fmt_age ms = (if ms < 0 then ''no data yet'' else if 10000 < ms then ''stale (>10s)'' else int_dec ms @ '' ms ago'')"

definition status_pair :: "int \<Rightarrow> nat" where
  "status_pair ms = (if ms < 0 then 3 else if 2000 < ms then 3 else if 500 < ms then 2 else 1)"

definition orch_alarm :: "string \<Rightarrow> bool" where
  "orch_alarm state = (state = ''bridge_offline'' \<or> state = ''vlm_error'' \<or> state = ''abort_failed'')"

record panel_row =
  row_pair :: nat
  row_age :: string
  row_detail :: string

definition panel_row_of :: "int \<Rightarrow> string \<Rightarrow> nat \<Rightarrow> panel_row" where
  "panel_row_of ms detail forced =
     \<lparr>row_pair = (if forced \<noteq> 0 then forced else status_pair ms), row_age = fmt_age ms,
      row_detail = (if detail = [] then ''-'' else detail)\<rparr>"

definition orch_row :: "int \<Rightarrow> services_snapshot \<Rightarrow> panel_row" where
  "orch_row now snap =
     panel_row_of (age_ms now (orch_last_ns snap))
       (orch_state snap @ (if orch_thought snap \<noteq> [] then '' : '' @ orch_thought snap else []))
       (if orch_alarm (orch_state snap) then 3 else 0)"

definition banner :: "services_snapshot \<Rightarrow> string option" where
  "banner snap =
     (if orch_state snap = ''bridge_offline'' then Some ''>> FLIGHT BRIDGE OFFLINE - tool calls suspended''
      else if orch_state snap = ''vlm_error'' then Some ''>> VLM ERROR - check API key, quota, network''
      else if orch_state snap = ''abort_failed'' then Some ''>> ABORT REJECTED - drone may still be in air''
      else None)"

section \<open>Lemmas\<close>

lemma nl_parse_encoded: "jsonable frepr v \<Longrightarrow> finite_json v \<Longrightarrow> nl_parse (encode_header frepr v) = Inr v"
  by (simp add: nl_parse_def hdr.rbind_dec_enc)

text \<open>A status of the orchestrator arrives with its state and its thought.\<close>

lemma parse_status: "parse_orch (encode_header frepr (status_asdict st)) = (os_state st, os_last_thought st)"
proof -
  have "finite_json (status_asdict st)" by (simp add: status_asdict_def)
  then have "nl_parse (encode_header frepr (status_asdict st)) = Inr (status_asdict st)"
    by (simp add: nl_parse_encoded)
  then show ?thesis
    by (simp add: parse_orch_def status_asdict_def json_value_def get_as_def as_str_def)
qed

end
