(* ===== verification/Panel_Props.thy ===== *)
theory Panel_Props
  imports Panel Store Vlm_Gemini
begin

text \<open>
  Telemetry from the vehicle to the screen and to the prompt: what the flight bridge publishes, as the
  panel and the orchestrator read it. A message with finite numbers is shown exactly; one number that is
  not finite loses the whole message.
\<close>

section \<open>What the panel should show\<close>

definition real_of_flt :: "pyfloat \<Rightarrow> real" where
  "real_of_flt x = (case x of Fin r \<Rightarrow> r | _ \<Rightarrow> 0)"

definition or_zero :: "pyfloat option \<Rightarrow> real" where
  "or_zero ox = (case ox of Some x \<Rightarrow> real_of_flt x | None \<Rightarrow> 0)"

definition faithful_view :: "telemetry \<Rightarrow> telem_view" where
  "faithful_view t =
     \<lparr>tv_connected = tm_connected t, tv_qgc_connected = tm_qgc_connected t, tv_armed = tm_armed t,
      tv_flight_mode = tm_flight_mode t,
      tv_has_battery = (tm_battery_pct t \<noteq> None \<or> tm_battery_v t \<noteq> None),
      tv_battery_pct = (case tm_battery_pct t of Some p \<Rightarrow> p | None \<Rightarrow> 0), tv_battery_v = or_zero (tm_battery_v t),
      tv_has_fix = (tm_lat t \<noteq> None), tv_latitude = or_zero (tm_lat t), tv_longitude = or_zero (tm_lon t),
      tv_abs_alt_m = or_zero (tm_abs_alt_m t), tv_rel_alt_m = or_zero (tm_rel_alt_m t),
      tv_roll_deg = real_of_flt (tm_roll_deg t), tv_pitch_deg = real_of_flt (tm_pitch_deg t),
      tv_yaw_deg = real_of_flt (tm_yaw_deg t), tv_ground_spd = real_of_flt (tm_ground_speed_mps t)\<rparr>"

definition attitude_known :: "telemetry \<Rightarrow> bool" where
  "attitude_known t =
     (isfinite (tm_roll_deg t) \<and> isfinite (tm_pitch_deg t) \<and> isfinite (tm_yaw_deg t)
      \<and> isfinite (tm_ground_speed_mps t))"

section \<open>Reading the fields\<close>

lemma trunc_of_int [simp]: "trunc (of_int i) = i"
  by (simp add: trunc_def)

lemma finite_nl_float [simp]: "finite_json (nl_float x)" "finite_json (nl_optional ox)"
  by (cases x; simp add: nl_float_def) (cases ox; simp add: nl_float_def split: pyfloat.split)

lemma finite_telemetry_json [simp]: "finite_json (PDict (telemetry_json t))"
  by (simp add: telemetry_json_def split: option.split)

text \<open>The fields of the message, as the accessors find them.\<close>

lemma map_of_telemetry_json:
  "map_of (telemetry_json t) ''ts_ns'' = Some (PInt (tm_ts_ns t))"
  "map_of (telemetry_json t) ''connected'' = Some (PBool (tm_connected t))"
  "map_of (telemetry_json t) ''qgc_connected'' = Some (PBool (tm_qgc_connected t))"
  "map_of (telemetry_json t) ''armed'' = Some (PBool (tm_armed t))"
  "map_of (telemetry_json t) ''flight_mode'' = Some (PStr (tm_flight_mode t))"
  "map_of (telemetry_json t) ''battery_pct'' =
     Some (case tm_battery_pct t of Some i \<Rightarrow> PInt i | None \<Rightarrow> PNone)"
  "map_of (telemetry_json t) ''battery_v'' = Some (nl_optional (tm_battery_v t))"
  "map_of (telemetry_json t) ''lat'' = Some (nl_optional (tm_lat t))"
  "map_of (telemetry_json t) ''lon'' = Some (nl_optional (tm_lon t))"
  "map_of (telemetry_json t) ''abs_alt_m'' = Some (nl_optional (tm_abs_alt_m t))"
  "map_of (telemetry_json t) ''rel_alt_m'' = Some (nl_optional (tm_rel_alt_m t))"
  "map_of (telemetry_json t) ''roll_deg'' = Some (nl_float (tm_roll_deg t))"
  "map_of (telemetry_json t) ''pitch_deg'' = Some (nl_float (tm_pitch_deg t))"
  "map_of (telemetry_json t) ''yaw_deg'' = Some (nl_float (tm_yaw_deg t))"
  "map_of (telemetry_json t) ''ground_speed_mps'' = Some (nl_float (tm_ground_speed_mps t))"
  by (simp_all add: telemetry_json_def)

text \<open>An accessor on a field that is known to be there.\<close>

lemma accessors_present:
  assumes "map_of d k = Some v"
  shows "json_item (PDict d) k = v" "json_contains (PDict d) k" "present (PDict d) k \<longleftrightarrow> v \<noteq> PNone"
    "json_value conv (PDict d) k x = get_as conv v"
    "field_or conv (PDict d) k x = (if v = PNone then Inr x else get_as conv v)"
  using assms by (simp_all add: json_item_def json_contains_def present_def json_value_def field_or_def)

lemma json_value_bool_present: "map_of d k = Some (PBool b) \<Longrightarrow> json_value_bool (PDict d) k = Inr b"
  by (simp add: json_value_bool_def)

lemma get_as_simps:
  "get_as as_str (PStr s) = Inr s" "get_as as_float (PFloat (Fin r)) = Inr r"
  "get_as json_number (PFloat (Fin r)) = Inr r" "get_as json_number (PInt i) = Inr (of_int i)"
  "get_as as_float PNone = Inl (TypeError ''type_error'')"
  by (simp_all add: get_as_def as_str_def as_float_def json_number_def)

text \<open>An optional number that is finite: the two accessors agree with \<open>or_zero\<close>.\<close>

lemma optional_number:
  assumes "pred_option isfinite ox"
  shows "nl_optional ox = PNone \<longleftrightarrow> ox = None"
    and "(if nl_optional ox = PNone then Inr 0 else get_as as_float (nl_optional ox)) = Inr (or_zero ox)"
    and "ox \<noteq> None \<Longrightarrow> get_as json_number (nl_optional ox) = Inr (or_zero ox)"
  using assms by (cases ox; auto simp: or_zero_def real_of_flt_def get_as_simps isfinite_def
      split: pyfloat.splits)+

lemma attitude_number: "isfinite x \<Longrightarrow> get_as as_float (nl_float x) = Inr (real_of_flt x)"
  by (cases x) (simp_all add: get_as_simps real_of_flt_def)

lemmas read_telemetry = map_of_telemetry_json [THEN accessors_present(4)] map_of_telemetry_json [THEN accessors_present(5)]
  map_of_telemetry_json [THEN accessors_present(3)] map_of_telemetry_json [THEN accessors_present(1)]

lemma view_known:
  assumes "plausible t" and "attitude_known t"
  shows "view_telemetry (PDict (telemetry_json t)) = Inr (faithful_view t)"
proof -
  let ?j = "PDict (telemetry_json t)"
  have b: "json_value_bool ?j ''connected'' = Inr (tm_connected t)"
    "json_value_bool ?j ''qgc_connected'' = Inr (tm_qgc_connected t)"
    "json_value_bool ?j ''armed'' = Inr (tm_armed t)"
    by (rule json_value_bool_present, simp add: map_of_telemetry_json)+
  have v: "pred_option isfinite (tm_battery_v t)"
    using assms(1) by (auto simp: plausible_def option.pred_set)
  have p: "pred_option isfinite (tm_lat t)" "pred_option isfinite (tm_lon t)"
    "pred_option isfinite (tm_abs_alt_m t)" "pred_option isfinite (tm_rel_alt_m t)"
    "tm_lat t = None \<longleftrightarrow> tm_lon t = None"
    using assms(1) by (simp_all add: plausible_def)
  have a: "get_as as_float (nl_float (tm_roll_deg t)) = Inr (real_of_flt (tm_roll_deg t))"
    "get_as as_float (nl_float (tm_pitch_deg t)) = Inr (real_of_flt (tm_pitch_deg t))"
    "get_as as_float (nl_float (tm_yaw_deg t)) = Inr (real_of_flt (tm_yaw_deg t))"
    "get_as as_float (nl_float (tm_ground_speed_mps t)) = Inr (real_of_flt (tm_ground_speed_mps t))"
    using assms(2) by (simp_all add: attitude_known_def attitude_number)
  note num = optional_number(2) [OF v] optional_number(2) [OF p(3)] optional_number(2) [OF p(4)]
  have pct: "field_or json_number ?j ''battery_pct'' 0
      = Inr (of_int (case tm_battery_pct t of Some i \<Rightarrow> i | None \<Rightarrow> 0))"
    by (cases "tm_battery_pct t") (simp_all add: read_telemetry get_as_simps)
  have fix_eq: "present ?j ''lat'' \<and> present ?j ''lon'' \<longleftrightarrow> tm_lat t \<noteq> None"
    using p(5) by (simp add: read_telemetry optional_number(1) [OF p(1)] optional_number(1) [OF p(2)])
  have pos: "(if tm_lat t \<noteq> None then get_as json_number (json_item ?j ''lat'') else Inr 0) = Inr (or_zero (tm_lat t))"
    "(if tm_lat t \<noteq> None then get_as json_number (json_item ?j ''lon'') else Inr 0) = Inr (or_zero (tm_lon t))"
    using p(5) optional_number(3) [OF p(1)] optional_number(3) [OF p(2)]
    by (auto simp: read_telemetry or_zero_def)
  have bat: "present ?j ''battery_pct'' \<or> present ?j ''battery_v'' \<longleftrightarrow> tm_battery_pct t \<noteq> None \<or> tm_battery_v t \<noteq> None"
    by (auto simp: read_telemetry optional_number(1) [OF v] split: option.split)
  show ?thesis
    unfolding view_telemetry_def b rbind_simps pct fix_eq Let_def pos bat
    by (simp add: read_telemetry num a get_as_simps faithful_view_def)
qed


text \<open>A number of the attitude that is \<open>null\<close> makes \<open>value()\<close> throw, and the view is reset.\<close>

lemma view_unknown:
  assumes "\<not> attitude_known t"
  shows "\<exists>e. view_telemetry (PDict (telemetry_json t)) = Inl e"
proof -
  let ?j = "PDict (telemetry_json t)"
  have "view_telemetry ?j \<noteq> Inr v" for v
  proof
    assume "view_telemetry ?j = Inr v"
    then obtain a b c d where "get_as as_float (nl_float (tm_roll_deg t)) = Inr a"
      "get_as as_float (nl_float (tm_pitch_deg t)) = Inr b" "get_as as_float (nl_float (tm_yaw_deg t)) = Inr c"
      "get_as as_float (nl_float (tm_ground_speed_mps t)) = Inr d"
      by (auto simp: view_telemetry_def rbind_Inr_iff Let_def read_telemetry)
    moreover have "isfinite x" if "get_as as_float (nl_float x) = Inr r" for x r
      using that by (cases x) (simp_all add: nl_float_def get_as_simps)
    ultimately show False using assms by (auto simp: attitude_known_def)
  qed
  then show ?thesis by (cases "view_telemetry ?j") auto
qed

lemma parse_telemetry_encoded:
  assumes "jsonable frepr (PDict (telemetry_json t))"
  shows "parse_telemetry (encode_header frepr (PDict (telemetry_json t))) =
    (case view_telemetry (PDict (telemetry_json t)) of Inl _ \<Rightarrow> empty_view | Inr v \<Rightarrow> v)"
  using nl_parse_encoded [OF assms finite_telemetry_json] by (simp add: parse_telemetry_def)

lemma ground_speed_known:
  "tm_ground_speed_mps (sample_telemetry a b c v) = flt_sqrt (flt_add (flt_mul (vs_north v) (vs_north v)) (flt_mul (vs_east v) (vs_east v)))"
  by (simp add: sample_telemetry_def Let_def)

lemma attitude_known_sample:
  "list_all isfinite [vs_roll v, vs_pitch v, vs_yaw v, vs_north v, vs_east v]
    \<Longrightarrow> attitude_known (sample_telemetry a b c v)"
  by (auto simp: attitude_known_def ground_speed_known not_less elim!: isfiniteE)

lemma watched_telemetry:
  "snap_telemetry (watcher_turn show_double now (scene, Some hdr, orch) snap) = parse_telemetry hdr"
  "telemetry_last_ns (watcher_turn show_double now (scene, Some hdr, orch) snap) = now"
  by (auto simp: watcher_turn_def on_orch_header_def on_telem_header_def on_scene_header_def
      split: option.split prod.split)


text \<open>The summary of a connected vehicle names its mode.\<close>

lemma summary_connected:
  assumes "tm_connected t" and "jsonable frepr (PDict (telemetry_json t))" and "plausible t"
  shows "\<exists>rest. summarize_telemetry show_double (encode_header frepr (PDict (telemetry_json t)))
    = tm_flight_mode t @ '' / '' @ rest"
proof -
  let ?j = "PDict (telemetry_json t)"
  have b: "json_value_bool ?j ''connected'' = Inr True" "json_value_bool ?j ''armed'' = Inr (tm_armed t)"
    "json_value_string ?j ''flight_mode'' = Inr (tm_flight_mode t)"
    using assms(1) by (simp_all add: json_value_bool_def json_value_string_def map_of_telemetry_json)
  have p: "pred_option isfinite (tm_rel_alt_m t)" using assms(3) by (simp add: plausible_def)
  have alt: "\<exists>a. (if present ?j ''rel_alt_m'' then rbind (get_as json_number (json_item ?j ''rel_alt_m''))
      (\<lambda>a. Inr ('' / '' @ show_double a @ '' m'')) else Inr []) = Inr a"
    using optional_number(1) [OF p] optional_number(3) [OF p] by (auto simp: read_telemetry)
  have bat: "\<exists>b. (if present ?j ''battery_pct'' then rbind (get_as json_number (json_item ?j ''battery_pct''))
      (\<lambda>b. Inr ('' / '' @ int_dec (trunc b) @ ''%'')) else Inr []) = Inr b"
    by (cases "tm_battery_pct t") (simp_all add: read_telemetry get_as_simps)
  show ?thesis
    using alt bat b by (auto simp: summarize_telemetry_def nl_parse_encoded [OF assms(2) finite_telemetry_json])
qed

section \<open>Properties\<close>

text \<open>
  C19: telemetry from the vehicle to the screen. What one turn of the publishing thread sends, with a known
  attitude and velocity, is what the watcher of the panel has next, field by field, and what the
  orchestrator tells the VLM of the vehicle.
\<close>

theorem telemetry_reaches_panel:
  assumes "list_all isfinite [vs_roll v, vs_pitch v, vs_yaw v, vs_north v, vs_east v]"
    and "jsonable frepr (PDict (telemetry_json (sample_telemetry now_ns now_ms last_hb v)))"
  shows "let t = sample_telemetry now_ns now_ms last_hb v; hdr = encode_header frepr (PDict (telemetry_json t)) in
    snap_telemetry (watcher_turn show_double now (scene, Some hdr, orch) snap) = faithful_view t
    \<and> decode_header hdr = Inr (PDict (telemetry_json t))
    \<and> telemetry_now (telemetry_json t) = PDict
        [(''connected'', PBool (vs_connected v)), (''armed'', PBool (vs_armed v)), (''flight_mode'', PStr (vs_mode v)),
         (''rel_alt_m'', nl_optional (when_finite (vs_rel_alt v))), (''yaw_deg'', PFloat (vs_yaw v)),
         (''ground_speed_mps'', PFloat (tm_ground_speed_mps t)),
         (''battery_pct'', case tm_battery_pct t of Some p \<Rightarrow> PInt p | None \<Rightarrow> PNone)]"
proof -
  let ?t = "sample_telemetry now_ns now_ms last_hb v"
  have known: "attitude_known ?t" using assms(1) by (rule attitude_known_sample)
  have "parse_telemetry (encode_header frepr (PDict (telemetry_json ?t))) = faithful_view ?t"
    using parse_telemetry_encoded [OF assms(2)] view_known [OF sample_plausible known] by simp
  moreover have "nl_float (vs_yaw v) = PFloat (vs_yaw v)"
    "nl_float (tm_ground_speed_mps ?t) = PFloat (tm_ground_speed_mps ?t)"
    using known by (auto simp: attitude_known_def elim!: isfiniteE)
  moreover have "tm_rel_alt_m ?t = when_finite (vs_rel_alt v)" by (simp add: sample_telemetry_def Let_def)
  ultimately show ?thesis
    by (simp add: Let_def watched_telemetry telemetry_now_def map_of_telemetry_json hdr.rbind_dec_enc [OF assms(2)]
        hdr.dec_enc [OF assms(2)])
qed

text \<open>
  C39: one number that is no number hides the vehicle. MAVSDK reports NaN for an attitude or a velocity it
  has not received; it is written as \<open>null\<close>, which \<open>value()\<close> rejects, so that a connected vehicle is shown
  as disconnected, without mode, battery or position, while the services panel goes on naming its mode.
\<close>

theorem nan_attitude_hides_link:
  assumes "vs_connected v" and "\<not> list_all isfinite [vs_roll v, vs_pitch v, vs_yaw v]"
    and "jsonable frepr (PDict (telemetry_json (sample_telemetry now_ns now_ms last_hb v)))"
  shows "let t = sample_telemetry now_ns now_ms last_hb v; hdr = encode_header frepr (PDict (telemetry_json t));
      snap' = watcher_turn show_double now (scene, Some hdr, orch) snap in
    tm_connected t \<and> snap_telemetry snap' = empty_view
    \<and> (\<exists>rest. summarize_telemetry show_double hdr = vs_mode v @ '' / '' @ rest)"
proof -
  let ?t = "sample_telemetry now_ns now_ms last_hb v"
  have "\<not> attitude_known ?t" using assms(2) by (auto simp: attitude_known_def)
  then obtain e where "view_telemetry (PDict (telemetry_json ?t)) = Inl e" using view_unknown by blast
  then have "parse_telemetry (encode_header frepr (PDict (telemetry_json ?t))) = empty_view"
    using parse_telemetry_encoded [OF assms(3)] by simp
  moreover have "tm_connected ?t" using assms(1) by simp
  moreover note summary_connected [OF this assms(3) sample_plausible]
  ultimately show ?thesis by (simp add: Let_def watched_telemetry)
qed

section \<open>At concrete inputs\<close>

definition half_sample :: veh_sample where
  "half_sample =
     \<lparr>vs_connected = True, vs_armed = True, vs_mode = ''OFFBOARD'', vs_remaining = Fin 74,
      vs_voltage = Fin (1 / 2), vs_lat = Fin (1 / 2), vs_lon = Fin (1 / 2), vs_abs_alt = Fin (1 / 2),
      vs_rel_alt = PInf, vs_roll = Fin (1 / 2), vs_pitch = Fin (1 / 2), vs_yaw = Fin (1 / 2),
      vs_north = Fin (1 / 2), vs_east = Fin 0\<rparr>"

lemma sqrt_quarter: "sqrt (1 / 4) = 1 / 2"
  using real_sqrt_abs [of "1 / 2 :: real"] by (simp add: power2_eq_square)

lemma half_sample_jsonable:
  "jsonable half_repr (PDict (telemetry_json (sample_telemetry 7 8 0 half_sample)))"
  "jsonable half_repr (PDict (telemetry_json (sample_telemetry 7 8 0 (half_sample\<lparr>vs_yaw := NaN\<rparr>))))"
  by (simp_all add: half_sample_def sample_telemetry_def new_telemetry_def telemetry_json_def when_finite_def
      sqrt_quarter half_repr_text nl_float_def)

theorem telemetry_reaches_panel_witness:
  "snap_telemetry (watcher_turn (\<lambda>_. ''0'') 5
     (None, Some (encode_header half_repr (PDict (telemetry_json (sample_telemetry 7 8 0 half_sample)))), None)
     new_snapshot) = faithful_view (sample_telemetry 7 8 0 half_sample)"
  using telemetry_reaches_panel [of half_sample half_repr 7 8 0 "\<lambda>_. ''0''" 5 None None new_snapshot]
    half_sample_jsonable(1) by (simp add: half_sample_def Let_def)

theorem nan_attitude_hides_link_witness:
  "snap_telemetry (watcher_turn (\<lambda>_. ''0'') 5
     (None, Some (encode_header half_repr (PDict (telemetry_json
        (sample_telemetry 7 8 0 (half_sample\<lparr>vs_yaw := NaN\<rparr>))))), None)
     new_snapshot) = empty_view"
  using nan_attitude_hides_link [of "half_sample\<lparr>vs_yaw := NaN\<rparr>" half_repr 7 8 0 "\<lambda>_. ''0''" 5 None None new_snapshot]
    half_sample_jsonable(2) by (simp add: half_sample_def Let_def)

end
