(* ===== verification/Orch_Status.thy ===== *)
theory Orch_Status
  imports Orch_Witnesses Panel
begin

text \<open>
  The statuses the orchestrator publishes, as a protocol: an automaton over the states documented for
  \<open>OrchestratorStatus\<close>, and that what is published for any command is one of its runs. With the panel
  it gives the alarm: an abort that did not work turns the pilot's screen red.
\<close>

section \<open>The protocol of a command\<close>

datatype phase = Ready | Thinking | Executing | Unreachable | Aborting | Abort_Unsent | Finished

definition phase_step :: "phase \<Rightarrow> string \<Rightarrow> phase option" where
  "phase_step p x =
     map_of
       (case p of
          Ready \<Rightarrow> [(''thinking'', Thinking), (''idle'', Finished), (''aborted'', Aborting)]
        | Thinking \<Rightarrow> [(''executing'', Executing), (''idle'', Finished), (''vlm_error'', Finished)]
        | Executing \<Rightarrow> [(''thinking'', Thinking), (''bridge_offline'', Unreachable), (''idle'', Finished)]
        | Unreachable \<Rightarrow> [(''idle'', Finished)]
        | Aborting \<Rightarrow> [(''bridge_offline'', Abort_Unsent), (''abort_failed'', Finished)]
        | Abort_Unsent \<Rightarrow> [(''bridge_offline'', Finished)]
        | Finished \<Rightarrow> []) x"

fun phases :: "phase \<Rightarrow> string list \<Rightarrow> phase option" where
  "phases p [] = Some p"
| "phases p (x # xs) = Option.bind (phase_step p x) (\<lambda>q. phases q xs)"

text \<open>Where a command may end.\<close>

definition accepting :: "phase \<Rightarrow> bool" where
  "accepting p = (p = Finished \<or> p = Unreachable \<or> p = Aborting)"

lemma phases_append: "phases p (xs @ ys) = Option.bind (phases p xs) (\<lambda>q. phases q ys)"
  by (induction xs arbitrary: p) (simp_all add: bind_assoc)

section \<open>What the operations publish\<close>

definition states :: "'w sys \<Rightarrow> string list" where
  "states s = map os_state (status_out (orch_of s))"

lemma states_simps [simp]:
  "states (yield ops s) = states s" "states (upd (publish_status a b) s) = states s @ [a]"
  "states (s\<lparr>world := w\<rparr>) = states s" "states (upd (start_command cmd) s) = states s"
  "states (upd (add_history l) s) = states s"
  by (simp_all add: states_def add_history_def)

text \<open>A dispatch says that the bridge is offline when it finds it so, and then it fails.\<close>

definition found_offline :: "'w sys \<Rightarrow> tool_result \<Rightarrow> 'w sys \<Rightarrow> bool" where
  "found_offline s res t \<longleftrightarrow>
     (if bridge_offline_flag (orch_of t)
      then states t = states s @ [''bridge_offline''] \<and> is_offline_error (tr_error res) \<and> \<not> tr_ok res
      else states t = states s)"

lemma after_rpc_states:
  assumes "after_rpc tc out ob = (res, ob')" and "\<not> bridge_offline_flag ob"
  shows "if bridge_offline_flag ob'
    then map os_state (status_out ob') = map os_state (status_out ob) @ [''bridge_offline'']
      \<and> is_offline_error (tr_error res) \<and> \<not> tr_ok res
    else status_out ob' = status_out ob"
proof (cases out)
  case (Reply v)
  with assms show ?thesis by (cases v) (auto simp: after_rpc_def reset_req_socket_def)
qed (use assms in \<open>auto simp: after_rpc_def reset_req_socket_def on_timeout_def on_zmq_error_def
      is_offline_error_def fail_result_def startswith_def\<close>)

lemma dispatch_states:
  assumes "dispatch_tool_call ops tc s = (res, t)" and "\<not> bridge_offline_flag (orch_of s)"
  shows "found_offline s res t"
  using assms(1)
proof (cases rule: dispatch_cases)
  case refused
  with assms(2) show ?thesis by simp
next
  case (unconnected e s1)
  then obtain b where "orch_of s1 = (orch_of s)\<lparr>req_open := b\<rparr>"
    using ensure_req_socket_fields(1) by blast
  with unconnected show ?thesis
    by (auto simp: found_offline_def states_def on_zmq_error_def reset_req_socket_def fail_result_def
        is_offline_error_def startswith_def)
next
  case (sent s1 out w ob)
  then obtain b where "orch_of s1 = (orch_of s)\<lparr>req_open := b\<rparr>"
    using ensure_req_socket_fields(1) by blast
  with after_rpc_states [OF sent(4)] sent(1,5) show ?thesis
    by (auto simp: found_offline_def states_def split: if_splits)
qed

lemma batch_states:
  "run_batch ops tcs v s = (v', s') \<Longrightarrow> \<not> bridge_offline_flag (orch_of s)
     \<Longrightarrow> if bridge_offline_flag (orch_of s') then states s' = states s @ [''bridge_offline''] \<and> offline v'
       else states s' = states s"
proof (induction tcs arbitrary: v s)
  case (Cons tc rest)
  show ?case
    using Cons.prems(1)
  proof (cases rule: run_batch_Cons_cases)
    case flag
    with Cons.prems(2) show ?thesis by simp
  next
    case (last res v1 why)
    with dispatch_states [OF last(2)] Cons.prems(2) show ?thesis
      by (auto simp: found_offline_def split: if_splits)
  next
    case (going_on res t v1)
    with dispatch_states [OF going_on(2)] Cons.prems(2)
    have "\<not> bridge_offline_flag (orch_of t)" "states t = states s"
      by (auto simp: found_offline_def split: if_splits)
    with Cons.IH [OF going_on(7)] show ?thesis by simp
  qed
qed simp

section \<open>The mission loop keeps to the protocol\<close>

text \<open>
  At the head of the loop (\<open>live\<close>) nothing or a whole decision has been published. Behind it, the phase
  says whether the bridge went offline, and an error of the VLM is known only while it is thought.
\<close>

definition on_protocol :: "'w sys \<Rightarrow> bool \<Rightarrow> mvars \<Rightarrow> 'w sys \<Rightarrow> bool" where
  "on_protocol s0 live v s \<longleftrightarrow>
     (\<exists>xs p. states s = states s0 @ xs \<and> phases Ready xs = Some p
        \<and> p \<in> {Ready, Thinking, Executing, Unreachable}
        \<and> (live \<longrightarrow> p = Ready \<or> p = Executing)
        \<and> (bridge_offline_flag (orch_of s) \<longleftrightarrow> p = Unreachable)
        \<and> (vlm_error v \<noteq> None \<longrightarrow> p = Thinking))"

text \<open>One asked decision, from the head of the loop to what follows the wait.\<close>

definition thought_of :: "'w sys \<Rightarrow> 'w sys \<Rightarrow> bool" where
  "thought_of s t \<longleftrightarrow> states t = states s @ [''thinking'']
     \<and> bridge_offline_flag (orch_of t) = bridge_offline_flag (orch_of s)"

definition status_kept :: "'w sys \<Rightarrow> 'w sys \<Rightarrow> bool" where
  "status_kept s t \<longleftrightarrow> states t = states s \<and> bridge_offline_flag (orch_of t) = bridge_offline_flag (orch_of s)"

interpretation stk: wait_effect status_kept
  by unfold_locales (simp_all add: status_kept_def)

lemma asked_thought:
  assumes "await_future ops p ((thinking ops cmd n v s)\<lparr>world := w\<rparr>) = Some s4"
  shows "thought_of s (yield ops s4)"
  using stk.await [OF assms] by (simp add: status_kept_def thought_of_def thinking_def)

lemma thinking_phase:
  assumes "on_protocol s0 True v s" and "thought_of s t"
  obtains xs where "states t = states s0 @ xs" "phases Ready xs = Some Thinking"
    "\<not> bridge_offline_flag (orch_of t)" "vlm_error v = None"
proof -
  from assms(1) obtain xs p where xs: "states s = states s0 @ xs" "phases Ready xs = Some p"
    "p = Ready \<or> p = Executing" "\<not> bridge_offline_flag (orch_of s)" "vlm_error v = None"
    by (fastforce simp: on_protocol_def)
  have "phases Ready (xs @ [''thinking'']) = Some Thinking"
    using xs(2,3) by (auto simp: phases_append phase_step_def)
  with xs assms(2) show ?thesis by (intro that) (auto simp: thought_of_def)
qed

lemma decision_on_protocol:
  assumes p: "on_protocol s0 True v s" "thought_of s t"
    and "on_decision ops d v t = Again v' s' \<and> live \<or> on_decision ops d v t = Break v' s' \<and> \<not> live"
  shows "on_protocol s0 live v' s'"
proof -
  obtain xs where xs: "states t = states s0 @ xs" "phases Ready xs = Some Thinking"
    "\<not> bridge_offline_flag (orch_of t)" "vlm_error v = None"
    by (rule thinking_phase [OF p])
  show ?thesis
    using refl [of "on_decision ops d v t"]
  proof (cases rule: on_decision_cases)
    case none
    with assms(3) have "s' = t" "\<not> live" by (auto split: if_splits)
    with xs show ?thesis by (auto simp: on_protocol_def)
  next
    case (batch v1 s1)
    from assms(3) batch(3) have same: "v' = v1" "s' = s1" and go: "live \<Longrightarrow> \<not> offline v1"
      by (auto split: if_splits)
    have "phases Ready (xs @ [''executing'']) = Some Executing"
      and "phases Ready (xs @ [''executing'', ''bridge_offline'']) = Some Unreachable"
      using xs(2) by (simp_all add: phases_append phase_step_def)
    moreover have "vlm_error v' = None" using batch_vlm_error [OF batch(2)] xs(4) same by simp
    ultimately show ?thesis
      using batch_states [OF batch(2)] xs(1,3) same go
      by (cases "bridge_offline_flag (orch_of s1)") (auto simp: on_protocol_def)
  qed
qed

lemma reach_on_protocol:
  assumes "mission_reach ops cmd n v0 s0 live v s" and "vlm_error v0 = None" and "\<not> bridge_offline_flag (orch_of s0)"
  shows "on_protocol s0 live v s"
  using assms(1)
proof induction
  case start
  with assms show ?case by (simp add: on_protocol_def)
next
  case (again v s v' s')
  show ?case
    using again.hyps(4)
  proof (cases rule: mission_iter_cases)
    case (asked ctx p ans w s4)
    then obtain d where "on_decision ops d v (yield ops s4) = Again v' s'" by (auto split: if_splits sum.splits)
    with decision_on_protocol [OF again.IH asked_thought [OF asked(5)]] show ?thesis by blast
  qed simp_all
next
  case (broken v s v' s')
  show ?case
    using broken.hyps(4)
  proof (cases rule: mission_iter_cases)
    case head
    with broken.IH show ?thesis by (auto simp: on_protocol_def)
  next
    case (asked ctx p ans w s4)
    note th = asked_thought [OF asked(5)]
    obtain xs where xs: "states (yield ops s4) = states s0 @ xs" "phases Ready xs = Some Thinking"
      "\<not> bridge_offline_flag (orch_of (yield ops s4))" "vlm_error v = None"
      by (rule thinking_phase [OF broken.IH th])
    consider "s' = yield ops s4" | d where "on_decision ops d v (yield ops s4) = Break v' s'"
      using asked(6) by (auto split: if_splits sum.splits)
    then show ?thesis
    proof cases
      case 1
      with xs show ?thesis by (auto simp: on_protocol_def)
    next
      case 2
      with decision_on_protocol [OF broken.IH th] show ?thesis by blast
    qed
  qed simp_all
qed

section \<open>The end of a command\<close>

text \<open>What is published at the end of a mission; nothing if the bridge is offline and nothing else ended it.\<close>

lemma finish_states:
  "states (upd (finish_mission cmd n v) s) =
     states s @ (let r = end_reason (orch_of s) n v in
       if r = ''vlm_error'' then [''vlm_error''] else if r = ''bridge_offline'' then [] else [''idle''])"
  by (simp add: states_def finish_mission_def add_history_def Let_def)

lemma end_reason_special:
  "end_reason ob n v = ''vlm_error'' \<Longrightarrow> vlm_error v \<noteq> None"
  "end_reason ob n v = ''bridge_offline'' \<Longrightarrow> bridge_offline_flag ob"
  by (auto simp: end_reason_def split: if_splits option.splits)

lemma finish_accepted:
  assumes "on_protocol s0 live v s"
  obtains xs p where "states (upd (finish_mission cmd n v) (yield ops s)) = states s0 @ xs"
    "phases Ready xs = Some p" "accepting p"
proof -
  from assms obtain xs p where xs: "states s = states s0 @ xs" "phases Ready xs = Some p"
    "p \<in> {Ready, Thinking, Executing, Unreachable}" "bridge_offline_flag (orch_of s) \<longleftrightarrow> p = Unreachable"
    "vlm_error v \<noteq> None \<longrightarrow> p = Thinking"
    by (auto simp: on_protocol_def)
  let ?r = "end_reason (orch_of (yield ops s)) n v"
  note fin = finish_states [of cmd n v "yield ops s"]
  consider "?r = ''vlm_error''" | "?r = ''bridge_offline''" | "?r \<noteq> ''vlm_error''" "?r \<noteq> ''bridge_offline''"
    by blast
  then show ?thesis
  proof cases
    case 1
    then have "p = Thinking" using end_reason_special(1) xs(5) by blast
    with xs fin 1 show ?thesis
      by (intro that [of "xs @ [''vlm_error'']" Finished]) (simp_all add: phases_append phase_step_def accepting_def)
  next
    case 2
    then have "p = Unreachable" using end_reason_special(2) xs(4) by fastforce
    with xs fin 2 show ?thesis by (intro that [of xs Unreachable]) (simp_all add: accepting_def)
  next
    case 3
    have "phase_step p ''idle'' = Some Finished" using xs(3) by (auto simp: phase_step_def)
    with xs fin 3 show ?thesis
      by (intro that [of "xs @ [''idle'']" Finished]) (simp_all add: phases_append accepting_def)
  qed
qed

text \<open>An abort: the dispatch, and a second status if it failed.\<close>

lemma handle_abort_run:
  assumes "\<not> bridge_offline_flag (orch_of s)"
  obtains (landed) "states (handle_abort ops cmd s) = states s @ [''aborted'']"
      "last (history (orch_of (handle_abort ops cmd s))) = ''user: '' @ vc_text cmd @ '' | end: aborted''"
    | (unsent) "states (handle_abort ops cmd s) = states s @ [''aborted'', ''bridge_offline'', ''bridge_offline'']"
    | (refused) "states (handle_abort ops cmd s) = states s @ [''aborted'', ''abort_failed'']"
proof -
  let ?s1 = "upd (publish_status ''aborted'' (''abort keyword: '' @ py_repr (vc_text cmd))) s"
  obtain h w where "w_uuid_hex ops (world ?s1) = (h, w)" by fastforce
  then obtain rid where n: "new_request_id ops ?s1 = (rid, ?s1\<lparr>world := w\<rparr>)"
    by (simp add: new_request_id_def)
  obtain res t where d: "dispatch_tool_call ops
      \<lparr>tc_request_id = rid, tc_name = ''abort'', tc_args = []\<rparr> (?s1\<lparr>world := w\<rparr>) = (res, t)"
    by fastforce
  have "\<not> bridge_offline_flag (orch_of (?s1\<lparr>world := w\<rparr>))" using assms by simp
  from dispatch_states [OF d this] have f: "found_offline (?s1\<lparr>world := w\<rparr>) res t" .
  have s: "states (?s1\<lparr>world := w\<rparr>) = states s @ [''aborted'']" by simp
  have split: "states (upd (\<lambda>ob. add_history l (publish_status a b ob)) u) = states u @ [a]" for l a b u
    by (simp add: states_def add_history_def)
  show thesis
  proof (cases "tr_ok res")
    case True
    have "states t = states s @ [''aborted'']" using f s True by (auto simp: found_offline_def split: if_splits)
    then have "states (handle_abort ops cmd s) = states s @ [''aborted'']" using n d True by (simp add: handle_abort_def Let_def)
    then show thesis using n d True by (intro landed) (simp_all add: handle_abort_def Let_def add_history_def last_n_snoc)
  next
    case False
    show thesis
    proof (cases "bridge_offline_flag (orch_of t)")
      case True
      have "states t = states s @ [''aborted'', ''bridge_offline'']" using f s True by (simp add: found_offline_def)
      then show thesis using n d False True by (intro unsent) (simp add: handle_abort_def Let_def)
    next
      case off: False
      have "states t = states s @ [''aborted'']" using f s off by (simp add: found_offline_def)
      then show thesis using n d False off by (intro refused) (simp add: handle_abort_def Let_def)
    qed
  qed
qed


section \<open>Properties\<close>

text \<open>
  C12: what is published for a command, abort or mission, under every interleaving and every answer of the
  VLM and the bridge, is a run of the protocol, from ready to a phase where a command may end.
\<close>

theorem statuses_follow_protocol:
  assumes "on_command ops cmd s = Some (Inr t)"
  shows "\<exists>xs p. states t = states s @ xs \<and> phases Ready xs = Some p \<and> accepting p"
proof (cases "is_abort_command (orch_of s) cmd")
  case True
  let ?s = "upd (start_command cmd) (yield ops s)"
  have t: "t = handle_abort ops cmd ?s" using on_command_abort [OF True, of ops] assms by simp
  have on: "\<not> bridge_offline_flag (orch_of ?s)" and s: "states ?s = states s" by simp_all
  show ?thesis
    using on
  proof (cases rule: handle_abort_run [of ?s ops cmd])
    case landed
    then show ?thesis using s t
      by (intro exI [of _ "[''aborted'']"] exI [of _ Aborting]) (simp add: phase_step_def accepting_def)
  next
    case unsent
    then show ?thesis using s t
      by (intro exI [of _ "[''aborted'', ''bridge_offline'', ''bridge_offline'']"] exI [of _ Finished])
        (simp add: phase_step_def accepting_def)
  next
    case refused
    then show ?thesis using s t
      by (intro exI [of _ "[''aborted'', ''abort_failed'']"] exI [of _ Finished])
        (simp add: phase_step_def accepting_def)
  qed
next
  case False
  from assms False show ?thesis
  proof (cases rule: on_command_mission)
    case (1 n v s1)
    let ?s = "upd (start_command cmd) (yield ops s)"
    obtain live where r: "mission_reach ops cmd n (new_vars cmd (orch_of ?s)) ?s live v s1"
      using mission_loop_reach [OF mission_reach.start 1(1)] by blast
    have "on_protocol ?s live v s1" by (rule reach_on_protocol [OF r]) (simp_all add: new_vars_def)
    then show ?thesis unfolding 1(3) by (cases rule: finish_accepted [of _ _ _ _ cmd n ops]) auto
  qed
qed


section \<open>At concrete inputs\<close>

theorem statuses_follow_protocol_witness:
  "states (after_command (say ''go'') timing_out) = [''thinking'', ''executing'', ''bridge_offline'']
    \<and> (\<exists>xs p. states (after_command (say ''go'') timing_out) = states timing_out @ xs
         \<and> phases Ready xs = Some p \<and> accepting p)"
proof
  show "states (after_command (say ''go'') timing_out) = [''thinking'', ''executing'', ''bridge_offline'']"
    by code_simp
  have "case on_command scripted (say ''go'') timing_out of Some (Inr t) \<Rightarrow> True | _ \<Rightarrow> False" by code_simp
  then show "\<exists>xs p. states (after_command (say ''go'') timing_out) = states timing_out @ xs
      \<and> phases Ready xs = Some p \<and> accepting p"
    by (rule statuses_follow_protocol [OF after_command])
qed

text \<open>A bridge that does not answer an abort.\<close>

definition deaf_bridge :: "script sys" where
  "deaf_bridge = demo [] ([], [TimedOut])"


end
