(* ===== verification/Cpp_Config.thy ===== *)
theory Cpp_Config
  imports Config
begin

text \<open>
  \<open>include/lexaire/config.hpp\<close>: the configuration as the C++ services read it. yaml-cpp is an argument,
  a record of what is used of its nodes: what a node holds, \<open>cur[part]\<close>, and \<open>cur = child\<close>; a node is a
  handle into a memory, since both operations may change it. Read from a memory in which an assignment
  only lets the variable name another node, the C++ configuration is the Python one. The header relies
  on that in a comment; with assignments that redirect the node itself, only the first read works.
\<close>

section \<open>The nodes of the YAML library\<close>

text \<open>\<open>y_view\<close> is \<open>None\<close> for a node that is not defined.\<close>

record ('m, 'h) yaml_ops =
  y_view :: "'m \<Rightarrow> 'h \<Rightarrow> pyval option"
  y_sub :: "'m \<Rightarrow> 'h \<Rightarrow> string \<Rightarrow> 'h \<times> 'm"
  y_assign :: "'m \<Rightarrow> 'h \<Rightarrow> 'h \<Rightarrow> 'm"

definition y_is_map :: "('m, 'h) yaml_ops \<Rightarrow> 'm \<Rightarrow> 'h \<Rightarrow> bool" where
  "y_is_map ops m h = (case y_view ops m h of Some (PDict _) \<Rightarrow> True | _ \<Rightarrow> False)"

section \<open>Reading\<close>

fun index_of :: "char \<Rightarrow> string \<Rightarrow> nat option" where
  "index_of c [] = None"
| "index_of c (x # xs) = (if x = c then Some 0 else map_option Suc (index_of c xs))"

text \<open>\<open>s.find(c, start)\<close> and \<open>s.substr(start, end - start)\<close>, \<open>None\<close> being \<open>npos\<close>.\<close>

definition find_from :: "char \<Rightarrow> string \<Rightarrow> nat \<Rightarrow> nat option" where
  "find_from c s start = map_option ((+) start) (index_of c (drop start s))"

definition substr :: "string \<Rightarrow> nat \<Rightarrow> nat option \<Rightarrow> string" where
  "substr s start stop = (case stop of None \<Rightarrow> drop start s | Some e \<Rightarrow> take (e - start) (drop start s))"

lemma index_of_less: "index_of c s = Some i \<Longrightarrow> i < length s"
  by (induction s arbitrary: i) (auto split: if_splits)

lemma find_from_bounds: "find_from c s start = Some d \<Longrightarrow> start \<le> d \<and> d < length s"
  by (auto simp: find_from_def dest: index_of_less)

text \<open>The loop of \<open>traverse\<close>: the node it returns, \<open>None\<close> for the empty one, and the memory behind it.\<close>

function traverse_from ::
    "('m, 'h) yaml_ops \<Rightarrow> string \<Rightarrow> nat \<Rightarrow> 'm \<Rightarrow> 'h \<Rightarrow> 'h option \<times> 'm" where
  "traverse_from ops dotted start m cur =
     (if length dotted < start then (Some cur, m)
      else
        let dot = find_from (CHR ''.'') dotted start; part = substr dotted start dot
        in if \<not> y_is_map ops m cur then (None, m)
           else
             let (child, m1) = y_sub ops m cur part; m2 = y_assign ops m1 cur child
             in (case dot of None \<Rightarrow> (Some child, m2) | Some d \<Rightarrow> traverse_from ops dotted (Suc d) m2 child))"
  by pat_completeness auto
termination
  by (relation "measure (\<lambda>(ops, dotted, start, m, cur). Suc (length dotted) - start)")
    (auto dest!: sym [where t = "find_from _ _ _"] find_from_bounds)

declare traverse_from.simps [simp del]

definition traverse :: "('m, 'h) yaml_ops \<Rightarrow> 'h \<Rightarrow> string \<Rightarrow> 'm \<Rightarrow> 'h option \<times> 'm" where
  "traverse ops rt dotted m = traverse_from ops dotted 0 m rt"

text \<open>The value at a path, if it is there.\<close>

definition read_node :: "('m, 'h) yaml_ops \<Rightarrow> 'h \<Rightarrow> string \<Rightarrow> 'm \<Rightarrow> pyval option \<times> 'm" where
  "read_node ops rt dotted m =
     (let (n, m') = traverse ops rt dotted m in (Option.bind n (y_view ops m'), m'))"

text \<open>\<open>require<T>\<close> and \<open>get_or<T>\<close>; the conversion \<open>as<T>\<close> is an argument, as is what its exception says.\<close>

definition cpp_require ::
    "('m, 'h) yaml_ops \<Rightarrow> (pyval \<Rightarrow> string + 'a) \<Rightarrow> string \<Rightarrow> 'h \<Rightarrow> string \<Rightarrow> 'm \<Rightarrow> (string + 'a) \<times> 'm" where
  "cpp_require ops conv path rt dotted m =
     (let (v, m') = read_node ops rt dotted m
      in (case v of
            None \<Rightarrow> Inl (''config missing: '' @ dotted @ '' (from '' @ path @ '')'')
          | Some x \<Rightarrow> (case conv x of
                Inl what \<Rightarrow> Inl (''config type error at '' @ dotted @ '': '' @ what)
              | Inr r \<Rightarrow> Inr r), m'))"

definition cpp_get_or ::
    "('m, 'h) yaml_ops \<Rightarrow> (pyval \<Rightarrow> string + 'a) \<Rightarrow> 'h \<Rightarrow> string \<Rightarrow> 'a \<Rightarrow> 'm \<Rightarrow> 'a \<times> 'm" where
  "cpp_get_or ops conv rt dotted fallback m =
     (let (v, m') = read_node ops rt dotted m
      in (case v of None \<Rightarrow> fallback | Some x \<Rightarrow> (case conv x of Inl _ \<Rightarrow> fallback | Inr r \<Rightarrow> r), m'))"

text \<open>A series of reads, as a program makes them when it starts.\<close>

fun cpp_requires ::
    "('m, 'h) yaml_ops \<Rightarrow> (pyval \<Rightarrow> string + 'a) \<Rightarrow> string \<Rightarrow> 'h \<Rightarrow> string list \<Rightarrow> 'm \<Rightarrow> (string + 'a) list" where
  "cpp_requires ops conv path rt [] m = []"
| "cpp_requires ops conv path rt (d # ds) m =
     (let (r, m') = cpp_require ops conv path rt d m in r # cpp_requires ops conv path rt ds m')"

section \<open>Finding the file\<close>

text \<open>\<open>resolve_path\<close>; the loop is that of the Python side. The environment is not looked at.\<close>

definition resolve_path :: "(path \<Rightarrow> bool) \<Rightarrow> (string \<Rightarrow> path) \<Rightarrow> path \<Rightarrow> string \<Rightarrow> string + path" where
  "resolve_path is_file to_path cwd override =
     (if override \<noteq> [] then
        if is_file (to_path override) then Inr (to_path override) else Inl (''config not found: '' @ override)
      else case walk_up 6 is_file [''common'', ''config.yaml''] cwd of
             Some p \<Rightarrow> Inr p
           | None \<Rightarrow> Inl ''common/config.yaml not found'')"

section \<open>The loop over the parts of a path\<close>

fun walk_parts :: "('m, 'h) yaml_ops \<Rightarrow> string list \<Rightarrow> 'm \<Rightarrow> 'h \<Rightarrow> 'h option \<times> 'm" where
  "walk_parts ops [] m cur = (Some cur, m)"
| "walk_parts ops (p # ps) m cur =
     (if \<not> y_is_map ops m cur then (None, m)
      else let (child, m1) = y_sub ops m cur p in walk_parts ops ps (y_assign ops m1 cur child) child)"

lemma split_on_index:
  "split_on c s = (case index_of c s of None \<Rightarrow> [s] | Some i \<Rightarrow> take i s # split_on c (drop (Suc i) s))"
  by (induction s) (auto split: option.splits)

lemma traverse_from_parts:
  "start \<le> length dotted
    \<Longrightarrow> traverse_from ops dotted start m cur = walk_parts ops (split_on (CHR ''.'') (drop start dotted)) m cur"
proof (induction ops dotted start m cur rule: traverse_from.induct)
  case (1 ops dotted start m cur)
  let ?rest = "drop start dotted"
  note unfold = traverse_from.simps [of ops dotted start m cur] split_on_index [of "CHR ''.''" ?rest]
  show ?case
  proof (cases "index_of (CHR ''.'') ?rest")
    case None
    with "1.prems" show ?thesis by (simp add: unfold find_from_def substr_def Let_def split: prod.split)
  next
    case (Some i)
    then have i: "Suc (start + i) \<le> length dotted" using index_of_less [OF Some] by simp
    obtain child m1 where sub: "y_sub ops m cur (take i ?rest) = (child, m1)" by fastforce
    have d: "find_from (CHR ''.'') dotted start = Some (start + i)" using Some by (simp add: find_from_def)
    have part: "substr dotted start (Some (start + i)) = take i ?rest" by (simp add: substr_def)
    have sub': "y_sub ops m cur (substr dotted start (find_from (CHR ''.'') dotted start)) = (child, m1)"
      by (simp add: d part sub)
    show ?thesis
    proof (cases "y_is_map ops m cur")
      case False
      with "1.prems" Some show ?thesis by (simp add: unfold d part)
    next
      case True
      have "traverse_from ops dotted (Suc (start + i)) (y_assign ops m1 cur child) child
          = walk_parts ops (split_on (CHR ''.'') (drop (Suc (start + i)) dotted)) (y_assign ops m1 cur child) child"
        using "1.IH" [OF _ refl refl _ refl sub' [symmetric] refl d] "1.prems" True i by simp
      moreover have "drop (Suc i) ?rest = drop (Suc (start + i)) dotted" by (simp add: add.commute)
      ultimately show ?thesis using "1.prems" True Some by (simp add: unfold d part sub del: drop_drop)
    qed
  qed
qed

lemma traverse_parts: "traverse ops rt dotted m = walk_parts ops (split_on (CHR ''.'') dotted) m rt"
  by (simp add: traverse_def traverse_from_parts)


section \<open>Assignments that let the variable name another node\<close>

text \<open>What the comment in \<open>traverse\<close> says of the library: neither operation changes what a node holds.\<close>

definition finds_children :: "('m, 'h) yaml_ops \<Rightarrow> bool" where
  "finds_children ops \<longleftrightarrow>
     (\<forall>m h k c m'. y_sub ops m h k = (c, m') \<longrightarrow>
        y_view ops m' c = (case y_view ops m h of Some (PDict d) \<Rightarrow> map_of d k | _ \<Rightarrow> None)
        \<and> (\<forall>h'. y_view ops m' h' = y_view ops m h'))"

definition rebinds :: "('m, 'h) yaml_ops \<Rightarrow> bool" where
  "rebinds ops \<longleftrightarrow> (\<forall>m h c h'. y_view ops (y_assign ops m h c) h' = y_view ops m h')"

lemma walk_parts_view:
  assumes "finds_children ops" and "rebinds ops"
  shows "walk_parts ops ps m cur = (n, m')
    \<Longrightarrow> Option.bind n (y_view ops m') = Option.bind (y_view ops m cur) (\<lambda>v. lookup_path v ps)
      \<and> (\<forall>h. y_view ops m' h = y_view ops m h)"
proof (induction ps arbitrary: m cur)
  case Nil
  then show ?case by (cases "y_view ops m cur") auto
next
  case (Cons p ps)
  show ?case
  proof (cases "y_is_map ops m cur")
    case False
    with Cons.prems show ?thesis
      by (cases "y_view ops m cur") (auto simp: y_is_map_def split: pyval.splits)
  next
    case True
    then obtain d where d: "y_view ops m cur = Some (PDict d)"
      by (auto simp: y_is_map_def split: option.splits pyval.splits)
    obtain c m1 where c: "y_sub ops m cur p = (c, m1)" by fastforce
    with assms(1) d have v: "y_view ops m1 c = map_of d p" "\<And>h. y_view ops m1 h = y_view ops m h"
      by (fastforce simp: finds_children_def)+
    let ?m2 = "y_assign ops m1 cur c"
    have same: "y_view ops ?m2 h = y_view ops m1 h" for h using assms(2) by (simp add: rebinds_def)
    have "walk_parts ops ps ?m2 c = (n, m')" using Cons.prems True c by simp
    note ih = Cons.IH [OF this]
    moreover have "y_view ops m c = map_of d p" using v by metis
    ultimately show ?thesis by (auto simp: same v(2) d split: option.split)
  qed
qed

lemma read_node_view:
  assumes "finds_children ops" "rebinds ops" and "y_view ops m rt = Some (PDict cfg)"
    and "read_node ops rt dotted m = (v, m')"
  shows "v = lookup_path (PDict cfg) (split_on (CHR ''.'') dotted)" and "y_view ops m' rt = Some (PDict cfg)"
proof -
  obtain n where w: "walk_parts ops (split_on (CHR ''.'') dotted) m rt = (n, m')" "v = Option.bind n (y_view ops m')"
    using assms(4) by (auto simp: read_node_def traverse_parts split: prod.splits)
  from walk_parts_view [OF assms(1,2) w(1)] assms(3) w(2)
  show "v = lookup_path (PDict cfg) (split_on (CHR ''.'') dotted)" "y_view ops m' rt = Some (PDict cfg)"
    by simp_all
qed

section \<open>Properties\<close>


text \<open>Nodes that are the values themselves, and the first lines of the configuration file.\<close>

definition value_nodes :: "(unit, pyval option) yaml_ops" where
  "value_nodes =
     \<lparr>y_view = (\<lambda>_ v. v),
      y_sub = (\<lambda>m v k. (case v of Some (PDict d) \<Rightarrow> map_of d k | _ \<Rightarrow> None, m)),
      y_assign = (\<lambda>m _ _. m)\<rparr>"

definition drone_cfg :: pydict where
  "drone_cfg = [(''drone'', PDict [(''serial_device'', PStr ''/dev/ttyACM0''), (''serial_baud'', PInt 57600)])]"


section \<open>Assignments that redirect the node\<close>

text \<open>
  A node may be a reference that several handles share, and an assignment may redirect it, so that what
  other handles of the node see is the assigned one from then on. That is how yaml-cpp assigns to a
  \<open>YAML::Node\<close> (rebinding is its \<open>reset\<close>). A small memory of this kind, with a node for every value of
  the configuration: the loop then moves the root of the configuration itself, and the second of the
  reads with which \<open>main\<close> of the terminal interface starts finds nothing.
\<close>

datatype ycell = Undefined | Leaf pyval | Branch "(string \<times> nat) list"

record ymem =
  refs :: "nat list"
  cells :: "ycell list"

fun cell_view :: "nat \<Rightarrow> ymem \<Rightarrow> nat \<Rightarrow> pyval option" where
  "cell_view 0 m h = None"
| "cell_view (Suc n) m h =
     (case cells m ! (refs m ! h) of
        Undefined \<Rightarrow> None
      | Leaf v \<Rightarrow> Some v
      | Branch kvs \<Rightarrow> Some (PDict (List.map_filter (\<lambda>(k, c). map_option (Pair k) (cell_view n m c)) kvs)))"

definition shared_nodes :: "(ymem, nat) yaml_ops" where
  "shared_nodes =
     \<lparr>y_view = (\<lambda>m h. cell_view (Suc (length (cells m))) m h),
      y_sub = (\<lambda>m h k. case cells m ! (refs m ! h) of
          Branch kvs \<Rightarrow>
            (case map_of kvs k of
               Some c \<Rightarrow> (c, m)
             | None \<Rightarrow>
                 (length (refs m),
                  \<lparr>refs = refs m @ [length (cells m)],
                   cells = (cells m)[refs m ! h := Branch (kvs @ [(k, length (refs m))])] @ [Undefined]\<rparr>))
        | _ \<Rightarrow> (h, m)),
      y_assign = (\<lambda>m h c. m\<lparr>refs := (refs m)[h := refs m ! c]\<rparr>)\<rparr>"

definition drone_mem :: ymem where
  "drone_mem =
     \<lparr>refs = [0, 1, 2, 3],
      cells = [Branch [(''drone'', 1)], Branch [(''serial_device'', 2), (''serial_baud'', 3)],
               Leaf (PStr ''/dev/ttyACM0''), Leaf (PInt 57600)]\<rparr>"

lemma shared_nodes_hold_config: "y_view shared_nodes drone_mem 0 = Some (PDict drone_cfg)"
  by code_simp

lemma second_read_fails:
  "cpp_requires shared_nodes Inr ''common/config.yaml'' 0 [''drone.serial_device'', ''drone.serial_baud''] drone_mem
    = [Inr (PStr ''/dev/ttyACM0''), Inl ''config missing: drone.serial_baud (from common/config.yaml)'']"
  by code_simp

end
