(* ===== verification/Bridge_Main.thy ===== *)
theory Bridge_Main
  imports Bridge_Props Watchdog Panel Cpp_Config
begin

text \<open>
  \<open>run\<close> of \<open>src/flight_bridge/main.cpp\<close> around the handlers: the start with its exit codes, the request
  loop at the level of the socket, the shutdown. What the sockets and the vehicle's library answer is a
  list of observations; what the program does to its sockets is a trace.
\<close>

section \<open>The envelope of the configuration\<close>

text \<open>\<open>SafetyEnvelope::from_config\<close>: four reads with the defaults of the struct.\<close>

definition env_from_config ::
    "('m, 'h) yaml_ops \<Rightarrow> (pyval \<Rightarrow> string + pyfloat) \<Rightarrow> (pyval \<Rightarrow> string + bool) \<Rightarrow> 'h \<Rightarrow> 'm \<Rightarrow> safety_env \<times> 'm" where
  "env_from_config ops as_double as_bool rt m0 =
     (let (alt, m1) = cpp_get_or ops as_double rt ''safety.max_altitude_m'' (Fin 5) m0;
          (radius, m2) = cpp_get_or ops as_double rt ''safety.geofence_radius_m'' (Fin 10) m1;
          (speed, m3) = cpp_get_or ops as_double rt ''safety.max_velocity_mps'' (Fin (3 / 2)) m2;
          (spoken, m4) = cpp_get_or ops as_bool rt ''safety.require_spoken_arm'' True m3
      in (\<lparr>max_altitude_m = alt, geofence_radius_m = radius, max_velocity_mps = speed,
           require_spoken_arm = spoken\<rparr>, m4))"

section \<open>The trace\<close>

datatype bridge_sock = Rep_Sock | Pub_Sock

datatype zmq_act =
    New_Context | New_Socket bridge_sock | Bind_Socket bridge_sock string | Recv_Request string
  | Send_Reply pyval | Send_Failed | Close_Socket bridge_sock | Destroy_Context

section \<open>Start\<close>

text \<open>Fifty looks for an autopilot, one every 100 ms, unless the stop signal has come.\<close>

fun find_autopilot :: "nat \<Rightarrow> (bool \<times> bool) list \<Rightarrow> bool" where
  "find_autopilot (Suc n) ((stop, seen) # obs) = (if stop then False else if seen then True else find_autopilot n obs)"
| "find_autopilot _ _ = False"

record start_obs =
  so_connected :: bool
  so_looks :: "(bool \<times> bool) list"
  so_context :: bool
  so_rep :: bool
  so_pub :: bool
  so_bind_rep :: bool
  so_bind_pub :: bool

definition opened :: "bool \<Rightarrow> zmq_act list \<Rightarrow> zmq_act list" where
  "opened ok acts = (if ok then acts else [])"

text \<open>The exit code, or the two sockets ready to serve.\<close>

definition bridge_startup :: "string \<Rightarrow> string \<Rightarrow> string \<Rightarrow> start_obs \<Rightarrow> (nat + unit) \<times> zmq_act list" where
  "bridge_startup rep_ep telemetry_ep hb_action ob =
     (if \<not> hb_action_valid hb_action then (Inl 5, [])
      else if \<not> so_connected ob then (Inl 2, [])
      else if \<not> find_autopilot 50 (so_looks ob) then (Inl 4, [])
      else if \<not> so_context ob then (Inl 6, [])
      else
        let socks = opened (so_rep ob) [New_Socket Rep_Sock] @ opened (so_pub ob) [New_Socket Pub_Sock];
            rep_bind = bind_endpoint rep_ep; tele_bind = bind_endpoint telemetry_ep;
            close = [Close_Socket Rep_Sock, Close_Socket Pub_Sock, Destroy_Context]
        in if \<not> so_rep ob \<or> \<not> so_pub ob then
             (Inl 6, New_Context # socks @ opened (so_rep ob) [Close_Socket Rep_Sock]
                @ opened (so_pub ob) [Close_Socket Pub_Sock] @ [Destroy_Context])
           else if \<not> so_bind_rep ob then (Inl 3, New_Context # socks @ close)
           else if \<not> so_bind_pub ob then (Inl 3, New_Context # socks @ [Bind_Socket Rep_Sock rep_bind] @ close)
           else (Inr (), New_Context # socks @ [Bind_Socket Rep_Sock rep_bind, Bind_Socket Pub_Sock tele_bind]))"

section \<open>The request loop\<close>

text \<open>One turn: the stop signal, whether a request waits, the frame received, and what becomes of the reply.\<close>

record turn_obs =
  to_stop :: bool
  to_ready :: bool
  to_frame :: "string option"
  to_sent :: bool
  to_renewed :: bool
  to_rebound :: bool

text \<open>The trace, the bridge, and whether there is a REP socket at the end.\<close>

fun serve ::
    "'v mavsdk \<Rightarrow> safety_env \<Rightarrow> string \<Rightarrow> turn_obs list \<Rightarrow> 'v bridge \<Rightarrow> zmq_act list \<times> 'v bridge \<times> bool" where
  "serve lib env rep_bind [] b = ([], b, True)"
| "serve lib env rep_bind (ob # obs) b =
     (if to_stop ob then ([], b, True)
      else if \<not> to_ready ob then serve lib env rep_bind obs b
      else case to_frame ob of
        None \<Rightarrow> serve lib env rep_bind obs b
      | Some raw \<Rightarrow>
          let (reply, b') = handle_request lib env (nl_parse raw) b in
          if to_sent ob then
            let (acts, r) = serve lib env rep_bind obs b' in (Recv_Request raw # Send_Reply reply # acts, r)
          else if \<not> to_renewed ob then ([Recv_Request raw, Send_Failed, Close_Socket Rep_Sock], b', False)
          else if \<not> to_rebound ob then
            ([Recv_Request raw, Send_Failed, Close_Socket Rep_Sock, New_Socket Rep_Sock], b', True)
          else
            let (acts, r) = serve lib env rep_bind obs b'
            in (Recv_Request raw # Send_Failed # Close_Socket Rep_Sock # New_Socket Rep_Sock
                 # Bind_Socket Rep_Sock rep_bind # acts, r))"

definition shutdown :: "bool \<Rightarrow> zmq_act list" where
  "shutdown has_rep = opened has_rep [Close_Socket Rep_Sock] @ [Close_Socket Pub_Sock, Destroy_Context]"

text \<open>The whole of \<open>run\<close>: exit code, trace, and the bridge as it was left.\<close>

definition bridge_main ::
    "'v mavsdk \<Rightarrow> safety_env \<Rightarrow> string \<Rightarrow> string \<Rightarrow> string \<Rightarrow> start_obs \<Rightarrow> turn_obs list \<Rightarrow> 'v bridge
     \<Rightarrow> nat \<times> zmq_act list \<times> 'v bridge" where
  "bridge_main lib env rep_ep telemetry_ep hb_action so obs b =
     (case bridge_startup rep_ep telemetry_ep hb_action so of
        (Inl code, acts) \<Rightarrow> (code, acts, b)
      | (Inr _, acts) \<Rightarrow>
          (let (served, b', has_rep) = serve lib env (bind_endpoint rep_ep) obs b
           in (0, acts @ served @ shutdown has_rep, b')))"

section \<open>Socket discipline\<close>

text \<open>
  What ZMQ asks of the caller: a socket is bound, used and closed only while it exists, and a REP socket
  alternates between receiving and sending; after a failed send it can only be closed. The state: no
  context, or the REP socket's state with the existence of the PUB socket.
\<close>

datatype rep_mode = Absent | May_Recv | Must_Send | Wedged

datatype sock_state = No_Context | Sockets rep_mode bool

fun zmq_ok :: "sock_state \<Rightarrow> zmq_act \<Rightarrow> sock_state option" where
  "zmq_ok No_Context New_Context = Some (Sockets Absent False)"
| "zmq_ok (Sockets Absent p) (New_Socket Rep_Sock) = Some (Sockets May_Recv p)"
| "zmq_ok (Sockets r False) (New_Socket Pub_Sock) = Some (Sockets r True)"
| "zmq_ok (Sockets May_Recv p) (Bind_Socket Rep_Sock e) = Some (Sockets May_Recv p)"
| "zmq_ok (Sockets r True) (Bind_Socket Pub_Sock e) = Some (Sockets r True)"
| "zmq_ok (Sockets May_Recv p) (Recv_Request raw) = Some (Sockets Must_Send p)"
| "zmq_ok (Sockets Must_Send p) (Send_Reply v) = Some (Sockets May_Recv p)"
| "zmq_ok (Sockets Must_Send p) Send_Failed = Some (Sockets Wedged p)"
| "zmq_ok (Sockets r p) (Close_Socket Rep_Sock) = (if r = Absent then None else Some (Sockets Absent p))"
| "zmq_ok (Sockets r True) (Close_Socket Pub_Sock) = Some (Sockets r False)"
| "zmq_ok (Sockets Absent False) Destroy_Context = Some No_Context"
| "zmq_ok _ _ = None"

fun zmq_run :: "sock_state \<Rightarrow> zmq_act list \<Rightarrow> sock_state option" where
  "zmq_run s [] = Some s"
| "zmq_run s (a # acts) = Option.bind (zmq_ok s a) (\<lambda>t. zmq_run t acts)"

lemma zmq_run_append: "zmq_run s (xs @ ys) = Option.bind (zmq_run s xs) (\<lambda>t. zmq_run t ys)"
  by (induction xs arbitrary: s) (simp_all add: bind_assoc)

text \<open>The frames of a trace, and the replies.\<close>

definition frames :: "zmq_act list \<Rightarrow> string list" where
  "frames acts = List.map_filter (\<lambda>a. case a of Recv_Request raw \<Rightarrow> Some raw | _ \<Rightarrow> None) acts"

lemma frames_simps [simp]:
  "frames [] = []" "frames (Recv_Request raw # acts) = raw # frames acts"
  "frames (Send_Reply v # acts) = frames acts" "frames (Send_Failed # acts) = frames acts"
  "frames (Close_Socket k # acts) = frames acts" "frames (New_Socket k # acts) = frames acts"
  "frames (Bind_Socket k e # acts) = frames acts" "frames (New_Context # acts) = frames acts"
  "frames (Destroy_Context # acts) = frames acts" "frames (xs @ ys) = frames xs @ frames ys"
  by (simp_all add: frames_def map_filter_simps map_filter_def)

text \<open>Every reply of a trace is that of the bridge to the frame received before it.\<close>

fun answered :: "'v mavsdk \<Rightarrow> safety_env \<Rightarrow> 'v bridge \<Rightarrow> zmq_act list \<Rightarrow> bool" where
  "answered lib env b [] = True"
| "answered lib env b (Recv_Request raw # acts) =
     (let (reply, b') = handle_request lib env (nl_parse raw) b
      in (case acts of Send_Reply v # _ \<Rightarrow> v = reply | Send_Failed # _ \<Rightarrow> True | _ \<Rightarrow> False) \<and> answered lib env b' acts)"
| "answered lib env b (_ # acts) = answered lib env b acts"

section \<open>Lemmas\<close>

lemma serve_answered:
  "serve lib env e obs b = (acts, b', r) \<Longrightarrow> answered lib env b (acts @ shutdown r)"
proof (induction lib env e obs b arbitrary: acts rule: serve.induct)
  case (1 lib env e b)
  then show ?case by (auto simp: shutdown_def opened_def)
next
  case (2 lib env e ob obs b)
  show ?case
    using 2 by (auto simp: Let_def shutdown_def opened_def split: if_splits option.splits prod.splits)
qed

lemma serve_discipline:
  "serve lib env e obs b = (acts, b', r)
    \<Longrightarrow> zmq_run (Sockets May_Recv True) acts = Some (Sockets (if r then May_Recv else Absent) True)"
proof (induction lib env e obs b arbitrary: acts rule: serve.induct)
  case (2 lib env e ob obs b)
  show ?case
    using 2 by (auto simp: Let_def split: if_splits option.splits prod.splits)
qed simp

lemma serve_bridge:
  "serve lib env e obs b = (acts, b', r)
    \<Longrightarrow> b' = bridge_run lib env b (map (\<lambda>raw. Request (nl_parse raw)) (frames acts))"
proof (induction lib env e obs b arbitrary: acts rule: serve.induct)
  case (1 lib env e b)
  then show ?case by (simp add: bridge_run_def)
next
  case (2 lib env e ob obs b)
  have one: "bridge_run lib env b (Request q # evs) = bridge_run lib env (snd (handle_request lib env q b)) evs" for q evs
    by (simp add: bridge_run_def bridge_step_def)
  show ?case
    using 2 by (auto simp: Let_def one bridge_run_def [of _ _ _ "[]"] split: if_splits option.splits prod.splits)
qed


lemma startup_discipline:
  "bridge_startup rep_ep tele_ep act so = (Inr u, acts)
    \<Longrightarrow> zmq_run No_Context acts = Some (Sockets May_Recv True) \<and> frames acts = [] \<and> find_autopilot 50 (so_looks so)
      \<and> hb_action_valid act \<and> (\<forall>later. answered lib env b (acts @ later) = answered lib env b later)"
  "bridge_startup rep_ep tele_ep act so = (Inl code, acts)
    \<Longrightarrow> zmq_run No_Context acts = Some No_Context \<and> frames acts = [] \<and> code \<in> {2, 3, 4, 5, 6}
      \<and> answered lib env b acts"
  by (auto simp: bridge_startup_def Let_def opened_def split: if_splits)

lemma shutdown_discipline:
  "zmq_run (Sockets (if r then May_Recv else Absent) True) (shutdown r) = Some No_Context"
  "frames (shutdown r) = []"
  by (simp_all add: shutdown_def opened_def)

text \<open>A look at which an autopilot was seen, before the stop signal and within five seconds.\<close>

lemma find_autopilot_iff:
  "find_autopilot n obs \<longleftrightarrow> (\<exists>i<n. i < length obs \<and> snd (obs ! i) \<and> (\<forall>j\<le>i. \<not> fst (obs ! j)))"
proof (induction n obs rule: find_autopilot.induct)
  case (1 n stop seen obs)
  show ?case
  proof (cases "stop \<or> seen")
    case True
    then show ?thesis by (cases stop) (auto intro!: exI [of _ 0])
  next
    case False
    have "(\<exists>i<Suc n. i < Suc (length obs) \<and> snd (((stop, seen) # obs) ! i) \<and> (\<forall>j\<le>i. \<not> fst (((stop, seen) # obs) ! j)))
      \<longleftrightarrow> (\<exists>i<n. i < length obs \<and> snd (obs ! i) \<and> (\<forall>j\<le>i. \<not> fst (obs ! j)))" (is "?L \<longleftrightarrow> ?R")
    proof
      assume ?L
      then obtain i where i: "i < Suc n" "i < Suc (length obs)" "snd (((stop, seen) # obs) ! i)"
        "\<forall>j\<le>i. \<not> fst (((stop, seen) # obs) ! j)" by blast
      with False obtain k where k: "i = Suc k" by (cases i) auto
      have "\<not> fst (obs ! j)" if "j \<le> k" for j using i(4) that k by (metis Suc_le_mono nth_Cons_Suc)
      with i k show ?R by auto
    next
      assume ?R
      then obtain i where "i < n" "i < length obs" "snd (obs ! i)" "\<forall>j\<le>i. \<not> fst (obs ! j)" by blast
      with False show ?L by (intro exI [of _ "Suc i"]) (auto simp: nth_Cons split: nat.split)
    qed
    with 1 False show ?thesis by simp
  qed
qed simp_all

section \<open>Properties\<close>



text \<open>What a setting is: the configured value if it is there and can be converted, else the default.\<close>

definition setting :: "pydict \<Rightarrow> string \<Rightarrow> (pyval \<Rightarrow> string + 'a) \<Rightarrow> 'a \<Rightarrow> 'a" where
  "setting cfg path conv dflt =
     (case Option.bind (lookup_path (PDict cfg) (split_on (CHR ''.'') path)) (\<lambda>v. case conv v of Inr x \<Rightarrow> Some x | Inl _ \<Rightarrow> None) of
        Some x \<Rightarrow> x | None \<Rightarrow> dflt)"

lemma cpp_get_or_setting:
  assumes "finds_children ops" "rebinds ops" and "y_view ops m rt = Some (PDict cfg)"
    and "cpp_get_or ops conv rt path dflt m = (x, m')"
  shows "x = setting cfg path conv dflt" and "y_view ops m' rt = Some (PDict cfg)"
proof -
  obtain v where r: "read_node ops rt path m = (v, m')"
    and x: "x = (case v of None \<Rightarrow> dflt | Some y \<Rightarrow> (case conv y of Inl _ \<Rightarrow> dflt | Inr z \<Rightarrow> z))"
    using assms(4) by (auto simp: cpp_get_or_def split: prod.splits)
  note v = read_node_view [OF assms(1-3) r]
  show "x = setting cfg path conv dflt" using x v(1) by (auto simp: setting_def split: option.split sum.split)
  show "y_view ops m' rt = Some (PDict cfg)" by (rule v(2))
qed

text \<open>
  The envelope the bridge enforces is the configured one: each limit is the value in the file if it is
  there and a number, else the default of the struct.
\<close>

theorem envelope_as_configured:
  assumes "finds_children ops" and "rebinds ops" and "y_view ops m rt = Some (PDict cfg)"
  shows "fst (env_from_config ops as_double as_bool rt m) =
    \<lparr>max_altitude_m = setting cfg ''safety.max_altitude_m'' as_double (Fin 5),
     geofence_radius_m = setting cfg ''safety.geofence_radius_m'' as_double (Fin 10),
     max_velocity_mps = setting cfg ''safety.max_velocity_mps'' as_double (Fin (3 / 2)),
     require_spoken_arm = setting cfg ''safety.require_spoken_arm'' as_bool True\<rparr>"
proof -
  note read = cpp_get_or_setting [OF assms(1,2)]
  obtain alt m1 where 1: "cpp_get_or ops as_double rt ''safety.max_altitude_m'' (Fin 5) m = (alt, m1)" by fastforce
  obtain rad m2 where 2: "cpp_get_or ops as_double rt ''safety.geofence_radius_m'' (Fin 10) m1 = (rad, m2)" by fastforce
  obtain sp m3 where 3: "cpp_get_or ops as_double rt ''safety.max_velocity_mps'' (Fin (3 / 2)) m2 = (sp, m3)" by fastforce
  obtain arm m4 where 4: "cpp_get_or ops as_bool rt ''safety.require_spoken_arm'' True m3 = (arm, m4)" by fastforce
  note r1 = read [OF assms(3) 1] note r2 = read [OF r1(2) 2] note r3 = read [OF r2(2) 3] note r4 = read [OF r3(2) 4]
  show ?thesis by (simp add: env_from_config_def 1 2 3 4 r1(1) r2(1) r3(1) r4(1))
qed

section \<open>At concrete inputs\<close>

text \<open>A start that succeeds at the third look; a request whose reply cannot be sent; the stop signal.\<close>

definition good_start :: start_obs where
  "good_start =
     \<lparr>so_connected = True, so_looks = [(False, False), (False, False), (False, True)], so_context = True,
      so_rep = True, so_pub = True, so_bind_rep = True, so_bind_pub = True\<rparr>"

definition lost_reply :: "turn_obs list" where
  "lost_reply =
     [\<lparr>to_stop = False, to_ready = True, to_frame = Some ''{}'', to_sent = False, to_renewed = True, to_rebound = True\<rparr>,
      \<lparr>to_stop = True, to_ready = False, to_frame = None, to_sent = True, to_renewed = True, to_rebound = True\<rparr>]"

definition demo_run :: "nat \<times> zmq_act list \<times> unit bridge" where
  "demo_run = bridge_main demo_lib demo_env ''tcp://flight-bridge:6300'' ''tcp://flight-bridge:6101'' ''rtl''
     good_start lost_reply demo_bridge"


theorem envelope_as_configured_witness:
  "max_altitude_m (fst (env_from_config value_nodes (\<lambda>v. case v of PFloat x \<Rightarrow> Inr x | _ \<Rightarrow> Inl ''bad conversion'')
     (\<lambda>v. case v of PBool b \<Rightarrow> Inr b | _ \<Rightarrow> Inl ''bad conversion'')
     (Some (PDict [(''safety'', PDict [(''max_altitude_m'', PFloat (Fin 7)), (''max_velocity_mps'', PStr ''fast'')])])) ()))
   = Fin 7"
proof -
  have "finds_children value_nodes" "rebinds value_nodes" "y_view value_nodes () (Some (PDict c)) = Some (PDict c)" for c
    by (simp_all add: finds_children_def rebinds_def value_nodes_def)
  from envelope_as_configured [OF this] show ?thesis by (simp add: setting_def)
qed

end
