(* ===== verification/Shell.thy ===== *)
theory Shell
  imports PyText
begin

text \<open>
  The shell commands the terminal interface builds from the configuration (\<open>src/main.cpp\<close>), and what a
  POSIX shell reads them as: the quoting of the configured values holds on this side, for every value,
  and is lost on the other side of \<open>ssh\<close>.
\<close>

section \<open>Building commands\<close>

text \<open>A quote character becomes: close, an escaped one, reopen.\<close>

definition shell_squote :: "string \<Rightarrow> string" where
  "shell_squote s = concat (map (\<lambda>c. if c = CHR 0x27 then [CHR 0x27, CHR 0x5C, CHR 0x27, CHR 0x27] else [c]) s)"

definition tui_log_path :: string where "tui_log_path = ''/tmp/lexaire-tui.log''"
definition pi_setup_dir :: string where "pi_setup_dir = ''/workspace/pi-setup''"

definition publisher_deploy_cmd :: "string \<Rightarrow> string \<Rightarrow> string" where
  "publisher_deploy_cmd drone_host publisher_repo =
     ''ssh -o BatchMode=yes -o StrictHostKeyChecking=accept-new ''
     @ [CHR 0x27] @ shell_squote drone_host @ [CHR 0x27]
     @ '' '' @ [CHR 0x27] @ ''bash -s -- '' @ shell_squote publisher_repo @ [CHR 0x27]
     @ '' < '' @ pi_setup_dir @ ''/deploy-publisher.sh''
     @ '' >>'' @ tui_log_path @ '' 2>&1''"

definition relay_deploy_cmd :: "string \<Rightarrow> string \<Rightarrow> int \<Rightarrow> string" where
  "relay_deploy_cmd drone_host serial_device serial_baud =
     ''DOCKER_HOST='' @ [CHR 0x27] @ ''ssh://'' @ shell_squote drone_host @ [CHR 0x27]
     @ '' SERIAL_DEVICE='' @ [CHR 0x27] @ shell_squote serial_device @ [CHR 0x27]
     @ '' SERIAL_BAUD='' @ int_dec serial_baud
     @ '' docker compose -f relay/docker-compose.yaml up -d --build''
     @ '' >>'' @ tui_log_path @ '' 2>&1''"

text \<open>The exit status of the query is 0 for a running container, 1 for none, 2 for a daemon out of reach.\<close>

definition ps_query_shell :: "string \<Rightarrow> string \<Rightarrow> string" where
  "ps_query_shell env_prefix filter_args =
     env_prefix @ '' out=$(docker ps -q '' @ filter_args @ '' 2>>'' @ tui_log_path @ '')'' @ '' ; rc=$?''
     @ '' ; if [ '' @ [CHR 0x22] @ ''$rc'' @ [CHR 0x22] @ '' -ne 0 ]; then exit 2''
     @ '' ; elif [ -z '' @ [CHR 0x22] @ ''$out'' @ [CHR 0x22] @ '' ]; then exit 1''
     @ '' ; else exit 0'' @ '' ; fi''"

definition relay_check_cmd :: "string \<Rightarrow> string" where
  "relay_check_cmd drone_host =
     ps_query_shell (''DOCKER_HOST='' @ [CHR 0x27] @ ''ssh://'' @ shell_squote drone_host @ [CHR 0x27])
       ''--filter name=lexaire-relay''"

definition publisher_check_cmd :: "string \<Rightarrow> string" where
  "publisher_check_cmd drone_host =
     ''ssh -o BatchMode=yes -o ConnectTimeout=5 ''
     @ [CHR 0x27] @ shell_squote drone_host @ [CHR 0x27]
     @ '' '' @ [CHR 0x27] @ ''bash -s'' @ [CHR 0x27]
     @ '' < '' @ pi_setup_dir @ ''/check-publisher.sh''
     @ '' >>'' @ tui_log_path @ '' 2>&1''"

section \<open>How a shell reads a command\<close>

text \<open>
  Token recognition of the POSIX shell, as far as these commands go: blanks separate words, an operator
  character is a token, a single-quoted part and an escaped character stand for themselves. A text with
  an expansion, a double quote, a pattern or a comment outside quotes has no reading here (\<open>None\<close>), nor
  has one with an open quote.
\<close>

datatype token = Word string | Op char

definition is_blank :: "char \<Rightarrow> bool" where
  "is_blank c = (c = CHR '' '' \<or> c = CHR 0x09)"

definition is_operator :: "char \<Rightarrow> bool" where
  "is_operator c = (c \<in> {CHR '';'', CHR ''&'', CHR ''|'', CHR ''<'', CHR ''>'', CHR ''('', CHR '')'', CHR 0x0A})"

definition is_active :: "char \<Rightarrow> bool" where
  "is_active c = (c \<in> {CHR ''$'', CHR 0x60, CHR 0x22, CHR ''*'', CHR ''?'', CHR ''['', CHR ''#'', CHR ''~'', CHR ''!'', CHR ''{''})"

definition is_plain :: "char \<Rightarrow> bool" where
  "is_plain c = (c \<noteq> CHR 0x27 \<and> c \<noteq> CHR 0x5C \<and> \<not> is_blank c \<and> \<not> is_operator c \<and> \<not> is_active c)"

text \<open>The word read so far, if one has begun.\<close>

definition word_of :: "string option \<Rightarrow> string" where
  "word_of cur = (case cur of None \<Rightarrow> [] | Some w \<Rightarrow> w)"

definition flush :: "string option \<Rightarrow> token list" where
  "flush cur = (case cur of None \<Rightarrow> [] | Some w \<Rightarrow> [Word w])"

fun sh_scan :: "bool \<Rightarrow> string option \<Rightarrow> string \<Rightarrow> token list option" where
  "sh_scan True cur [] = None"
| "sh_scan True cur (c # cs) =
     (if c = CHR 0x27 then sh_scan False cur cs else sh_scan True (Some (word_of cur @ [c])) cs)"
| "sh_scan False cur [] = Some (flush cur)"
| "sh_scan False cur (c # cs) =
     (if c = CHR 0x27 then sh_scan True (Some (word_of cur)) cs
      else if c = CHR 0x5C then
        (case cs of [] \<Rightarrow> None | d # ds \<Rightarrow> sh_scan False (Some (word_of cur @ [d])) ds)
      else if is_blank c then map_option ((@) (flush cur)) (sh_scan False None cs)
      else if is_operator c then map_option ((@) (flush cur @ [Op c])) (sh_scan False None cs)
      else if is_active c then None
      else sh_scan False (Some (word_of cur @ [c])) cs)"

definition sh_tokens :: "string \<Rightarrow> token list option" where
  "sh_tokens cmd = sh_scan False None cmd"

section \<open>Lemmas\<close>

lemma word_of_simps [simp]: "word_of None = []" "word_of (Some w) = w"
  by (simp_all add: word_of_def)

lemma flush_simps [simp]: "flush None = []" "flush (Some w) = [Word w]"
  by (simp_all add: flush_def)

lemma shell_squote_Cons:
  "shell_squote [] = []"
  "shell_squote (c # s) = (if c = CHR 0x27 then [CHR 0x27, CHR 0x5C, CHR 0x27, CHR 0x27] else [c]) @ shell_squote s"
  by (simp_all add: shell_squote_def)

text \<open>Inside quotes, a quoted value is read as the value, and the quote is still open.\<close>

lemma sh_scan_squote: "sh_scan True (Some w) (shell_squote s @ rest) = sh_scan True (Some (w @ s)) rest"
  by (induction s arbitrary: w) (simp_all add: shell_squote_Cons)

text \<open>Fixed text inside the quotes, and a plain word outside.\<close>

lemma sh_scan_inside: "CHR 0x27 \<notin> set t \<Longrightarrow> sh_scan True (Some w) (t @ rest) = sh_scan True (Some (w @ t)) rest"
  by (induction t arbitrary: w) auto

lemma sh_scan_plain:
  "list_all is_plain t \<Longrightarrow> t \<noteq> [] \<Longrightarrow> sh_scan False cur (t @ rest) = sh_scan False (Some (word_of cur @ t)) rest"
proof (induction t arbitrary: cur)
  case (Cons c t)
  then show ?case by (cases "t = []") (simp_all add: is_plain_def)
qed simp


lemma is_plain_digit: "is_digit c \<Longrightarrow> is_plain c"
  by (auto simp: is_digit_def is_plain_def is_blank_def is_operator_def is_active_def)

lemma int_dec_plain: "list_all is_plain (int_dec i)" "int_dec i \<noteq> []"
  by (auto simp: int_dec_def list_all_iff dest: nat_dec_digits is_plain_digit)
    (simp add: is_plain_def is_blank_def is_operator_def is_active_def)

lemmas sh_chars = is_blank_def is_operator_def is_active_def

section \<open>Properties\<close>

definition to_log :: "token list" where
  "to_log = [Op CHR ''>'', Op CHR ''>'', Word tui_log_path, Word ''2'', Op CHR ''>'', Op CHR ''&'', Word ''1'']"


text \<open>
  The quoting ends at the network. \<open>ssh\<close> hands its last argument to the shell of the other side, which
  reads it again: a repository address with an operator in it is split there, and what follows the
  operator is a command of its own.
\<close>

theorem repository_reread_remotely:
  assumes "list_all is_plain url" "url \<noteq> []" and "list_all is_plain cmd" "cmd \<noteq> []"
    and "publisher_deploy_cmd host (url @ '';'' @ cmd) = ssh_line"
  shows "\<exists>remote local_part. sh_tokens ssh_line = Some ([Word ''ssh'', Word ''-o'', Word ''BatchMode=yes'', Word ''-o'',
        Word ''StrictHostKeyChecking=accept-new'', Word host, Word remote] @ local_part)
    \<and> sh_tokens remote = Some [Word ''bash'', Word ''-s'', Word ''--'', Word url, Op CHR '';'', Word cmd]"
proof (intro exI conjI)
  show "sh_tokens ssh_line = Some ([Word ''ssh'', Word ''-o'', Word ''BatchMode=yes'', Word ''-o'',
      Word ''StrictHostKeyChecking=accept-new'', Word host, Word (''bash -s -- '' @ url @ '';'' @ cmd)]
      @ [Op CHR ''<'', Word ''/workspace/pi-setup/deploy-publisher.sh''] @ to_log)"
    unfolding assms(5) [symmetric]
    by (simp add: sh_tokens_def publisher_deploy_cmd_def sh_scan_squote sh_chars to_log_def tui_log_path_def pi_setup_dir_def)
  have "sh_scan False None (url @ CHR '';'' # cmd @ []) = Some [Word url, Op CHR '';'', Word cmd]"
    using assms(1-4) by (subst sh_scan_plain) (simp_all add: sh_scan_plain [of cmd None "[]", simplified] sh_chars)
  then show "sh_tokens (''bash -s -- '' @ url @ '';'' @ cmd)
      = Some [Word ''bash'', Word ''-s'', Word ''--'', Word url, Op CHR '';'', Word cmd]"
    by (simp add: sh_tokens_def sh_chars)
qed

theorem repository_reread_remotely_witness:
  "\<exists>remote local_part. sh_tokens (publisher_deploy_cmd ''user@pi'' ''https://host/repo;reboot'') =
      Some ([Word ''ssh'', Word ''-o'', Word ''BatchMode=yes'', Word ''-o'',
        Word ''StrictHostKeyChecking=accept-new'', Word ''user@pi'', Word remote] @ local_part)
    \<and> sh_tokens remote = Some [Word ''bash'', Word ''-s'', Word ''--'', Word ''https://host/repo'', Op CHR '';'', Word ''reboot'']"
  by (rule repository_reread_remotely) (simp_all add: is_plain_def sh_chars)

end
