(* ===== verification/Tui.thy ===== *)
theory Tui
  imports Shell Panel
begin

text \<open>
  The terminal interface, \<open>src/main.cpp\<close>: the menu, the keys, and the processes it starts. The io context
  runs one handler at a time, so the program is a state and handlers: a key, the end of a process, the
  tick of a timer. Drawing, the contents of what a preflight script prints and the processes themselves
  are outside; a process is a job that may end at any time with any exit status.
\<close>

section \<open>State\<close>

datatype tui_state = MainMenu | SubMenu | Monitoring | Services

datatype service_state = Unknown | Down | Deploying | Up

text \<open>The three services with a state, and the processes the program starts for them.\<close>

datatype service = Relay | Publisher | Stack

datatype job = Preflight | Redeploy service | Check service | Startup_Deploy service | Stack_Query

record tui =
  view :: tui_state
  relay_state :: service_state
  publisher_state :: service_state
  stack_state :: service_state
  input_line :: string
  sub_content :: string
  drone_host :: string
  serial_device :: string
  serial_baud :: int
  publisher_repo :: string
  jobs :: "(job \<times> string) list"

text \<open>\<open>jobs\<close>: the processes that have not ended, with their commands.\<close>

definition new_tui :: "string \<Rightarrow> string \<Rightarrow> int \<Rightarrow> string \<Rightarrow> tui" where
  "new_tui host device baud repo =
     \<lparr>view = MainMenu, relay_state = Unknown, publisher_state = Unknown, stack_state = Unknown,
      input_line = [], sub_content = [], drone_host = host, serial_device = device, serial_baud = baud,
      publisher_repo = repo, jobs = []\<rparr>"

fun state_of :: "service \<Rightarrow> tui \<Rightarrow> service_state" where
  "state_of Relay s = relay_state s"
| "state_of Publisher s = publisher_state s"
| "state_of Stack s = stack_state s"

fun set_service :: "service \<Rightarrow> service_state \<Rightarrow> tui \<Rightarrow> tui" where
  "set_service Relay x s = s\<lparr>relay_state := x\<rparr>"
| "set_service Publisher x s = s\<lparr>publisher_state := x\<rparr>"
| "set_service Stack x s = s\<lparr>stack_state := x\<rparr>"

text \<open>\<open>async_system\<close>: the process has been started.\<close>

definition spawn :: "job \<Rightarrow> string \<Rightarrow> tui \<Rightarrow> tui" where
  "spawn j cmd s = s\<lparr>jobs := jobs s @ [(j, cmd)]\<rparr>"

definition show_sub :: "string list \<Rightarrow> tui \<Rightarrow> tui" where
  "show_sub ls s = s\<lparr>sub_content := join [CHR 0x0A] ls, view := SubMenu\<rparr>"

section \<open>Commands\<close>

text \<open>\<open>std::stoi\<close>: \<open>None\<close> for an exception. A remainder behind the number is not looked at.\<close>

definition stoi :: "string \<Rightarrow> int option" where
  "stoi s =
     (let t = dropWhile is_space s;
          (neg, u) = (case t of c # cs \<Rightarrow> if c = CHR ''-'' then (True, cs) else if c = CHR ''+'' then (False, cs) else (False, t)
                      | [] \<Rightarrow> (False, []));
          ds = takeWhile is_digit u;
          n = (if neg then - 1 else 1) * int (digits_val ds)
      in if ds = [] \<or> n < - (2 ^ 31) \<or> 2 ^ 31 \<le> n then None else Some n)"

definition menu_choice :: "string \<Rightarrow> int" where
  "menu_choice cmd = (case stoi cmd of Some n \<Rightarrow> n | None \<Rightarrow> 0)"

definition run_deploy :: "service \<Rightarrow> string \<Rightarrow> string \<Rightarrow> string \<Rightarrow> tui \<Rightarrow> tui" where
  "run_deploy svc title progress shell_cmd s =
     spawn (Redeploy svc) shell_cmd
       (show_sub [''  '' @ title, [], ''  '' @ progress, [], []] (set_service svc Deploying s))"

text \<open>The menu entry of a service: refused while its state says that a deploy is running.\<close>

definition in_progress :: "string \<Rightarrow> string \<Rightarrow> tui \<Rightarrow> tui" where
  "in_progress title what s =
     show_sub [''  '' @ title, [], ''  A '' @ what @ '' is already in progress. Wait for it'',
       ''  to finish before retrying.'', [], ''  Press Enter to return.''] s"

definition stack_deploy_cmd :: string where
  "stack_deploy_cmd = ''docker compose up -d --build >>'' @ tui_log_path @ '' 2>&1''"

definition preflight_out :: string where "preflight_out = ''/tmp/lexaire-preflight.out''"

definition qgc_host :: "string \<Rightarrow> string" where
  "qgc_host host = (let (before, found, after) = partition_on (CHR ''@'') host in if found then after else host)"

definition process_command :: "string \<Rightarrow> tui \<Rightarrow> tui" where
  "process_command cmd s =
     (if view s \<noteq> MainMenu then s\<lparr>view := MainMenu\<rparr>
      else if cmd = [] then s
      else
        let choice = menu_choice cmd in
        if choice = 1 then
          spawn Preflight (''bash /workspace/scripts/preflight.sh > '' @ preflight_out @ '' 2>&1'')
            (show_sub [''  PRE-FLIGHT CHECK'', [], ''  Running checks...'', [], []] s)
        else if choice = 2 then
          show_sub [''  QGROUNDCONTROL SETUP'', [], ''  Connect QGC:'', ''    Comm Links -> Add -> UDP'',
            ''    Server address : '' @ qgc_host (drone_host s), ''    Port           : 14550'', [],
            ''  Press Enter to return.''] s
        else if choice = 3 then s\<lparr>view := Monitoring\<rparr>
        else if choice = 4 then s\<lparr>view := Services\<rparr>
        else if choice = 5 then
          if relay_state s = Deploying then in_progress ''RESTART RELAY'' ''deploy'' s
          else run_deploy Relay ''RESTART RELAY'' ''Redeploying - may take a few minutes if the image rebuilds...''
                 (relay_deploy_cmd (drone_host s) (serial_device s) (serial_baud s)) s
        else if choice = 6 then
          if publisher_state s = Deploying then in_progress ''RESTART PUBLISHER'' ''deploy'' s
          else if publisher_repo s = [] then
            show_sub [''  RESTART PUBLISHER'', [], ''  sensor.publisher_repo is not set in common/config.yaml.'',
              ''  Set it to a docker-based ZMQ publisher repo URL'',
              ''  (default: https://github.com/9LogM/RS-L515-Docker)'', ''  and try again.'', [],
              ''  Press Enter to return.''] s
          else run_deploy Publisher ''RESTART PUBLISHER''
                 ''Syncing with origin and rebuilding if needed - may take a few minutes...''
                 (publisher_deploy_cmd (drone_host s) (publisher_repo s)) s
        else if choice = 7 then
          if stack_state s = Deploying then in_progress ''RESTART GCS STACK'' ''restart'' s
          else run_deploy Stack ''RESTART GCS STACK'' ''Rebuilding and restarting local services...'' stack_deploy_cmd s
        else s)"

section \<open>Keys\<close>

text \<open>\<open>getch()\<close>: a character, or one of the keys ncurses has a code for.\<close>

datatype key = Ch nat | Key_Resize | Key_Enter | Key_Backspace

definition on_key :: "key \<Rightarrow> tui \<Rightarrow> tui" where
  "on_key k s =
     (if k = Key_Resize then s
      else if k = Ch 10 \<or> k = Key_Enter then process_command (input_line s) (s\<lparr>input_line := []\<rparr>)
      else if k = Key_Backspace \<or> k = Ch 127 \<or> k = Ch 8 then s\<lparr>input_line := butlast (input_line s)\<rparr>
      else case k of
             Ch c \<Rightarrow> if 32 \<le> c \<and> c < 127 then s\<lparr>input_line := input_line s @ [char_of c]\<rparr> else s
           | _ \<Rightarrow> s)"

section \<open>The ends of processes\<close>

definition exit_to_state :: "int \<Rightarrow> service_state" where
  "exit_to_state rc = (if rc = 0 then Up else if rc = 1 then Down else Unknown)"

definition deploy_end :: "int \<Rightarrow> service_state" where
  "deploy_end rc = (if rc = 0 then Up else Unknown)"

definition ok_suffix :: "service \<Rightarrow> string" where
  "ok_suffix svc = (case svc of Relay \<Rightarrow> ''  Relay redeployed.'' | Publisher \<Rightarrow> ''  Publisher redeployed.''
     | Stack \<Rightarrow> ''  GCS stack restarted.'')"

definition press_enter :: string where
  "press_enter = [CHR 0x0A, CHR 0x0A] @ ''  Press Enter to return.''"

definition redeploy_done :: "service \<Rightarrow> int \<Rightarrow> tui \<Rightarrow> tui" where
  "redeploy_done svc rc s =
     (set_service svc (deploy_end rc) s)
       \<lparr>sub_content := sub_content s
          @ (if rc = 0 then ok_suffix svc
             else ''  Failed (exit '' @ int_dec rc @ '').'' @ [CHR 0x0A] @ ''  See '' @ tui_log_path @ '' for stderr.'')
          @ press_enter\<rparr>"

definition startup_deploy_cmd :: "service \<Rightarrow> tui \<Rightarrow> string" where
  "startup_deploy_cmd svc s =
     (case svc of Publisher \<Rightarrow> publisher_deploy_cmd (drone_host s) (publisher_repo s)
      | _ \<Rightarrow> relay_deploy_cmd (drone_host s) (serial_device s) (serial_baud s))"

definition check_done :: "service \<Rightarrow> int \<Rightarrow> tui \<Rightarrow> tui" where
  "check_done svc rc s =
     (if exit_to_state rc = Up then set_service svc Up s
      else spawn (Startup_Deploy svc) (startup_deploy_cmd svc s) (set_service svc Deploying s))"

definition stack_query_done :: "int \<Rightarrow> tui \<Rightarrow> tui" where
  "stack_query_done rc s = (if stack_state s \<noteq> Deploying then s\<lparr>stack_state := exit_to_state rc\<rparr> else s)"

definition preflight_done :: "int \<Rightarrow> string \<Rightarrow> tui \<Rightarrow> tui" where
  "preflight_done rc out s =
     s\<lparr>sub_content :=
         (if out = [] then ''  PRE-FLIGHT CHECK'' @ [CHR 0x0A, CHR 0x0A]
            @ ''  Script produced no output. Verify scripts/preflight.sh exists and is executable.'' else out)
         @ [CHR 0x0A, CHR 0x0A] @ ''  Exit code '' @ int_dec rc
         @ (if rc = 0 then ''  (passed)'' else ''  (blocked - fix [FAIL] entries above)'') @ [CHR 0x0A]
         @ [CHR 0x0A] @ ''  Press Enter to return.''\<rparr>"

definition on_exit :: "job \<Rightarrow> int \<Rightarrow> string \<Rightarrow> tui \<Rightarrow> tui" where
  "on_exit j rc out s =
     (case j of
        Preflight \<Rightarrow> preflight_done rc out s
      | Redeploy svc \<Rightarrow> redeploy_done svc rc s
      | Check svc \<Rightarrow> check_done svc rc s
      | Startup_Deploy svc \<Rightarrow> set_service svc (deploy_end rc) s
      | Stack_Query \<Rightarrow> stack_query_done rc s)"

section \<open>Start and timers\<close>

definition stack_query_cmd :: string where
  "stack_query_cmd =
     '' for n in lexaire-perception lexaire-orchestrator lexaire-flight-bridge; do''
     @ ''   out=$(docker ps -q --filter name=$n 2>>'' @ tui_log_path @ '');'' @ ''   rc=$?;''
     @ ''   if [ '' @ [CHR 0x22] @ ''$rc'' @ [CHR 0x22] @ '' -ne 0 ]; then exit 2; fi;''
     @ ''   if [ -z '' @ [CHR 0x22] @ ''$out'' @ [CHR 0x22] @ '' ]; then exit 1; fi;'' @ '' done;'' @ '' exit 0''"

definition refresh_stack_state :: "tui \<Rightarrow> tui" where
  "refresh_stack_state s = spawn Stack_Query stack_query_cmd s"

definition ensure_relay_running :: "tui \<Rightarrow> tui" where
  "ensure_relay_running s = spawn (Check Relay) (relay_check_cmd (drone_host s)) s"

definition ensure_publisher_running :: "tui \<Rightarrow> tui" where
  "ensure_publisher_running s =
     (if publisher_repo s = [] then s else spawn (Check Publisher) (publisher_check_cmd (drone_host s)) s)"

definition tui_start :: "tui \<Rightarrow> tui" where
  "tui_start s = ensure_publisher_running (ensure_relay_running (refresh_stack_state s))"

section \<open>The header line\<close>

text \<open>The labels with their colours (1 green, 2 yellow, 3 red).\<close>

definition relay_label :: "telem_view \<Rightarrow> tui \<Rightarrow> string \<times> nat" where
  "relay_label tv s = (case relay_state s of
     Up \<Rightarrow> if tv_connected tv then (''Active'', 1) else (''No Heartbeat'', 3)
   | Deploying \<Rightarrow> (''Deploying...'', 2) | Down \<Rightarrow> (''Inactive'', 2) | Unknown \<Rightarrow> (''Unknown'', 3))"

definition publisher_label :: "tui \<Rightarrow> string \<times> nat" where
  "publisher_label s = (case publisher_state s of
     Up \<Rightarrow> (''Active'', 1) | Deploying \<Rightarrow> (''Deploying...'', 2) | Down \<Rightarrow> (''Inactive'', 2) | Unknown \<Rightarrow> (''Unknown'', 3))"

definition stack_label :: "tui \<Rightarrow> string \<times> nat" where
  "stack_label s = (case stack_state s of
     Up \<Rightarrow> (''Up'', 1) | Deploying \<Rightarrow> (''Starting...'', 2) | Down \<Rightarrow> (''Down'', 2) | Unknown \<Rightarrow> (''Unknown'', 3))"

definition qgc_label :: "telem_view \<Rightarrow> string" where
  "qgc_label tv = (if tv_qgc_connected tv then ''Connected'' else ''Disconnected'')"

end
