(* ===== verification/Tui_Props.thy ===== *)
theory Tui_Props
  imports Tui
begin

text \<open>
  The terminal interface as a transition system: keys, ticks and ends of processes in any order. The
  re-entry guards of the menu keep the deploys of a service apart, except while the check that the
  program starts with is under way.
\<close>

section \<open>Steps\<close>

datatype event = Key key | Tick | Exit job int string

inductive tui_step :: "tui \<Rightarrow> event \<Rightarrow> tui \<Rightarrow> bool" where
  key: "tui_step s (Key k) (on_key k s)"
| tick: "tui_step s Tick (refresh_stack_state s)"
| exit: "(j, cmd) \<in> set (jobs s)
    \<Longrightarrow> tui_step s (Exit j rc out) (on_exit j rc out (s\<lparr>jobs := remove1 (j, cmd) (jobs s)\<rparr>))"

inductive_cases tui_stepE: "tui_step s e t"

text \<open>The states that events a schedule allows lead to.\<close>

inductive tui_reach :: "(event \<Rightarrow> tui \<Rightarrow> bool) \<Rightarrow> tui \<Rightarrow> tui \<Rightarrow> bool"
  for allowed s0 where
  start: "tui_reach allowed s0 (tui_start s0)"
| step: "tui_reach allowed s0 s \<Longrightarrow> tui_step s e t \<Longrightarrow> allowed e s \<Longrightarrow> tui_reach allowed s0 t"

section \<open>Deploys of a service\<close>

definition is_deploy :: "service \<Rightarrow> job \<times> string \<Rightarrow> bool" where
  "is_deploy svc p = (fst p = Redeploy svc \<or> fst p = Startup_Deploy svc)"

text \<open>How many are running, and the jobs the program never starts for the local services.\<close>

definition deploys :: "service \<Rightarrow> tui \<Rightarrow> nat" where
  "deploys svc s = length (filter (is_deploy svc) (jobs s))"

definition deploy_inv :: "service \<Rightarrow> tui \<Rightarrow> bool" where
  "deploy_inv svc s \<longleftrightarrow>
     deploys svc s = (if state_of svc s = Deploying then 1 else 0)
     \<and> Check Stack \<notin> fst ` set (jobs s) \<and> Startup_Deploy Stack \<notin> fst ` set (jobs s)"

lemma state_of_set [simp]: "state_of svc (set_service svc' x s) = (if svc = svc' then x else state_of svc s)"
  by (cases svc; cases svc'; simp)

lemma jobs_frame [simp]:
  "jobs (set_service svc x s) = jobs s" "jobs (show_sub ls s) = jobs s" "jobs (spawn j c s) = jobs s @ [(j, c)]"
  "jobs (s\<lparr>input_line := l\<rparr>) = jobs s" "jobs (s\<lparr>sub_content := c\<rparr>) = jobs s" "jobs (s\<lparr>view := v\<rparr>) = jobs s"
  by (cases svc; simp) (simp_all add: show_sub_def spawn_def)

lemma state_of_frame [simp]:
  "state_of svc (show_sub ls s) = state_of svc s" "state_of svc (spawn j c s) = state_of svc s"
  "state_of svc (s\<lparr>input_line := l\<rparr>) = state_of svc s" "state_of svc (s\<lparr>sub_content := t\<rparr>) = state_of svc s"
  "state_of svc (s\<lparr>view := v\<rparr>) = state_of svc s" "state_of svc (s\<lparr>jobs := js\<rparr>) = state_of svc s"
  by (cases svc; simp add: show_sub_def spawn_def)+

lemma run_deploy_frame [simp]:
  "jobs (run_deploy svc' title prog c s) = jobs s @ [(Redeploy svc', c)]"
  "state_of svc (run_deploy svc' title prog c s) = (if svc = svc' then Deploying else state_of svc s)"
  by (simp_all add: run_deploy_def)

text \<open>What a command does to jobs and states: nothing, a preflight, or a deploy of a service that has none.\<close>

definition job_effect :: "tui \<Rightarrow> tui \<Rightarrow> bool" where
  "job_effect s t \<longleftrightarrow>
     (jobs t = jobs s \<or> (\<exists>c. jobs t = jobs s @ [(Preflight, c)])) \<and> (\<forall>svc. state_of svc t = state_of svc s)
     \<or> (\<exists>svc' c. state_of svc' s \<noteq> Deploying \<and> jobs t = jobs s @ [(Redeploy svc', c)]
          \<and> (\<forall>svc. state_of svc t = (if svc = svc' then Deploying else state_of svc s)))"

lemma job_effect_if: "(b \<Longrightarrow> job_effect s t) \<Longrightarrow> (\<not> b \<Longrightarrow> job_effect s u) \<Longrightarrow> job_effect s (if b then t else u)"
  by simp

lemma job_effects:
  "job_effect s s" "job_effect s (s\<lparr>view := v\<rparr>)" "job_effect s (show_sub ls s)" "job_effect s (in_progress title what s)"
  "job_effect s (spawn Preflight c (show_sub ls s))"
  "state_of svc' s \<noteq> Deploying \<Longrightarrow> job_effect s (run_deploy svc' title prog c s)"
  by (auto simp: job_effect_def in_progress_def)

lemma process_command_effect: "job_effect s (process_command cmd s)"
  unfolding process_command_def Let_def by (intro job_effect_if job_effects) simp_all

lemma on_key_jobs:
  obtains (quiet) "jobs (on_key k s) = jobs s" "\<And>svc. state_of svc (on_key k s) = state_of svc s"
    | (entered) cmd where "on_key k s = process_command cmd (s\<lparr>input_line := []\<rparr>)"
  by (cases "k = Ch 10 \<or> k = Key_Enter") (auto simp: on_key_def split: key.splits)

lemma deploys_snoc:
  "jobs t = jobs s @ [p] \<Longrightarrow> deploys svc t = deploys svc s + (if is_deploy svc p then 1 else 0)"
  by (simp add: deploys_def)

lemma deploys_remove:
  "(j, c) \<in> set (jobs s) \<Longrightarrow> jobs t = remove1 (j, c) (jobs s)
    \<Longrightarrow> deploys svc t = deploys svc s - (if is_deploy svc (j, c) then 1 else 0)"
  by (auto simp: deploys_def filter_remove1 length_remove1)

lemma effect_inv:
  assumes "job_effect s t" and "deploy_inv svc s"
  shows "deploy_inv svc t"
proof -
  consider "jobs t = jobs s" "state_of svc t = state_of svc s"
    | c where "jobs t = jobs s @ [(Preflight, c)]" "state_of svc t = state_of svc s"
    | svc' c where "state_of svc' s \<noteq> Deploying" "jobs t = jobs s @ [(Redeploy svc', c)]"
        "state_of svc t = (if svc = svc' then Deploying else state_of svc s)"
    using assms(1) unfolding job_effect_def by blast
  then show ?thesis
  proof cases
    case 1
    with assms(2) show ?thesis by (simp add: deploy_inv_def deploys_def)
  next
    case (2 c)
    with assms(2) deploys_snoc [OF 2(1), of svc] show ?thesis by (auto simp: deploy_inv_def is_deploy_def)
  next
    case (3 svc' c)
    with assms(2) deploys_snoc [OF 3(2), of svc] show ?thesis by (auto simp: deploy_inv_def is_deploy_def)
  qed
qed

lemma key_inv:
  assumes "deploy_inv svc s"
  shows "deploy_inv svc (on_key k s)"
proof (cases rule: on_key_jobs [of k s])
  case quiet
  with assms show ?thesis by (simp add: deploy_inv_def deploys_def)
next
  case (entered cmd)
  let ?s = "s\<lparr>input_line := []\<rparr>"
  have s: "deploy_inv svc ?s" using assms by (simp add: deploy_inv_def deploys_def)
  then show ?thesis using effect_inv [OF process_command_effect] by (simp add: entered)
qed

text \<open>The check that the program starts with has ended, or ends when no redeploy is under way.\<close>

definition check_first :: "service \<Rightarrow> event \<Rightarrow> tui \<Rightarrow> bool" where
  "check_first svc e s = ((\<exists>rc out. e = Exit (Check svc) rc out) \<longrightarrow> state_of svc s \<noteq> Deploying)"

lemma exit_inv:
  assumes "deploy_inv svc s" and "(j, cmd) \<in> set (jobs s)"
    and "svc \<noteq> Stack \<longrightarrow> check_first svc (Exit j rc out) s"
  shows "deploy_inv svc (on_exit j rc out (s\<lparr>jobs := remove1 (j, cmd) (jobs s)\<rparr>))"
proof -
  let ?s = "s\<lparr>jobs := remove1 (j, cmd) (jobs s)\<rparr>"
  have one: "deploys svc ?s = deploys svc s - (if is_deploy svc (j, cmd) then 1 else 0)"
    by (rule deploys_remove [OF assms(2)]) simp
  have sub: "fst ` set (jobs ?s) \<subseteq> fst ` set (jobs s)" by (auto dest: notin_set_remove1 set_remove1_subset [THEN subsetD])
  have j: "j \<noteq> Check Stack" "j \<noteq> Startup_Deploy Stack"
    using assms(1,2) by (force simp: deploy_inv_def)+
  note inv = assms(1) [unfolded deploy_inv_def]
  show ?thesis
  proof (cases j)
    case Preflight
    with one inv sub show ?thesis by (auto simp: deploy_inv_def on_exit_def preflight_done_def is_deploy_def deploys_def)
  next
    case (Redeploy svc')
    have "jobs (redeploy_done svc' rc ?s) = jobs ?s"
      and "state_of svc (redeploy_done svc' rc ?s) = (if svc = svc' then deploy_end rc else state_of svc s)"
      by (simp_all add: redeploy_done_def)
    with Redeploy one inv sub show ?thesis
      by (auto simp: deploy_inv_def on_exit_def is_deploy_def deploys_def deploy_end_def split: if_splits)
  next
    case (Check svc')
    then have "svc' \<noteq> Stack" using j by auto
    moreover have "state_of svc s \<noteq> Deploying" if "svc' = svc"
      using assms(3) Check that \<open>svc' \<noteq> Stack\<close> by (auto simp: check_first_def)
    moreover note deploys_snoc [of "check_done svc' rc ?s" ?s _ svc]
    ultimately show ?thesis
      using Check one inv sub
      by (auto simp: deploy_inv_def on_exit_def is_deploy_def deploys_def check_done_def)
  next
    case (Startup_Deploy svc')
    with one inv sub show ?thesis
      by (auto simp: deploy_inv_def on_exit_def is_deploy_def deploys_def deploy_end_def split: if_splits)
  next
    case Stack_Query
    have "jobs (stack_query_done rc ?s) = jobs ?s"
      and "state_of svc (stack_query_done rc ?s) = Deploying \<longleftrightarrow> state_of svc s = Deploying"
      by (cases svc; simp add: stack_query_done_def exit_to_state_def)+
    with Stack_Query one inv sub show ?thesis
      by (auto simp: deploy_inv_def on_exit_def is_deploy_def deploys_def)
  qed
qed


lemma step_inv:
  assumes "tui_step s e t" and "deploy_inv svc s" and "svc \<noteq> Stack \<longrightarrow> check_first svc e s"
  shows "deploy_inv svc t"
  using assms(1)
proof (cases rule: tui_step.cases)
  case (key k)
  then show ?thesis using key_inv [OF assms(2)] by simp
next
  case tick
  then show ?thesis
    using assms(2) by (auto simp: deploy_inv_def refresh_stack_state_def deploys_def is_deploy_def)
next
  case (exit j cmd rc out)
  then show ?thesis using exit_inv [OF assms(2)] assms(3) by simp
qed

lemma spawn_fields [simp]:
  "drone_host (spawn j c s) = drone_host s" "serial_device (spawn j c s) = serial_device s"
  "serial_baud (spawn j c s) = serial_baud s" "publisher_repo (spawn j c s) = publisher_repo s"
  "view (spawn j c s) = view s" "input_line (spawn j c s) = input_line s" "relay_state (spawn j c s) = relay_state s"
  "publisher_state (spawn j c s) = publisher_state s" "stack_state (spawn j c s) = stack_state s"
  by (simp_all add: spawn_def)

lemma start_fields:
  "jobs (tui_start s) = jobs s @ [(Stack_Query, stack_query_cmd), (Check Relay, relay_check_cmd (drone_host s))]
     @ (if publisher_repo s = [] then [] else [(Check Publisher, publisher_check_cmd (drone_host s))])"
  "state_of svc (tui_start s) = state_of svc s" "relay_state (tui_start s) = relay_state s"
  "view (tui_start s) = view s" "input_line (tui_start s) = input_line s"
  "drone_host (tui_start s) = drone_host s" "serial_device (tui_start s) = serial_device s"
  "serial_baud (tui_start s) = serial_baud s"
  by (simp_all add: tui_start_def ensure_publisher_running_def ensure_relay_running_def refresh_stack_state_def)

lemma start_inv: "deploy_inv svc (tui_start (new_tui host device baud repo))"
  by (cases svc) (auto simp: start_fields new_tui_def deploy_inv_def deploys_def is_deploy_def)

section \<open>Properties\<close>

text \<open>
  C37: the re-entry guards of the menu. Whatever is typed and in whatever order processes end, there is never
  more than one restart of the local services under way, and the header says so exactly while there is one.
  For the relay and the publisher the same holds if the check made at the start does not end
  while a redeploy asked for in the menu is running.
\<close>

theorem deploys_exclusive:
  assumes "tui_reach (\<lambda>e s. svc \<noteq> Stack \<longrightarrow> check_first svc e s) (new_tui host device baud repo) s"
  shows "deploys svc s = (if state_of svc s = Deploying then 1 else 0)
    \<and> (svc = Stack \<longrightarrow> (fst (stack_label s) = ''Starting...'' \<longleftrightarrow> deploys Stack s = 1))"
proof -
  from assms have "deploy_inv svc s" by induction (auto intro: start_inv step_inv)
  then show ?thesis
    by (auto simp: deploy_inv_def stack_label_def split: service_state.splits)
qed

text \<open>The keys of a text and the return key.\<close>

fun type_keys :: "key list \<Rightarrow> tui \<Rightarrow> tui" where
  "type_keys [] s = s"
| "type_keys (k # ks) s = type_keys ks (on_key k s)"

lemma reach_keys: "tui_reach allowed s0 s \<Longrightarrow> (\<And>k t. allowed (Key k) t) \<Longrightarrow> tui_reach allowed s0 (type_keys ks s)"
  by (induction ks arbitrary: s) (simp_all add: tui_reach.step [OF _ tui_step.key])

definition chosen :: "char \<Rightarrow> key list" where
  "chosen c = [Ch (of_char c), Ch 10]"

lemma type_chosen:
  assumes "input_line s = []" and "32 \<le> (of_char c :: nat)" "(of_char c :: nat) < 127"
  shows "type_keys (chosen c) s = process_command [c] s"
proof -
  have "s\<lparr>input_line := []\<rparr> = s" using assms(1) by (cases s) simp
  then have "process_command [c] (s\<lparr>input_line := []\<rparr>) = process_command [c] s" by (rule arg_cong)
  with assms show ?thesis by (simp add: chosen_def on_key_def)
qed

lemma chosen_relay:
  assumes "input_line s = []" and "view s = MainMenu" and "relay_state s \<noteq> Deploying"
  shows "jobs (type_keys (chosen CHR ''5'') s)
    = jobs s @ [(Redeploy Relay, relay_deploy_cmd (drone_host s) (serial_device s) (serial_baud s))]"
proof -
  have "menu_choice ''5'' = 5" by code_simp
  then show ?thesis using assms by (simp add: type_chosen process_command_def Let_def)
qed

lemma missing_relay: "jobs (check_done svc 1 s) = jobs s @ [(Startup_Deploy svc, startup_deploy_cmd svc s)]"
  by (simp add: check_done_def exit_to_state_def)

text \<open>
  C40: the check at the start defeats the guard. A redeploy of the relay can be asked for while the check is
  still under way; when the check then finds no relay it starts a deploy of its own, and two of them
  race for one build context, which the guard is there to prevent.
\<close>

theorem startup_check_races_redeploy:
  "\<exists>s. tui_reach (\<lambda>_ _. True) (new_tui host device baud repo) s
    \<and> map fst (filter (is_deploy Relay) (jobs s)) = [Redeploy Relay, Startup_Deploy Relay]"
proof -
  define s0 where "s0 = tui_start (new_tui host device baud repo)"
  define s1 where "s1 = type_keys (chosen CHR ''5'') s0"
  let ?c = "relay_check_cmd host"
  define s2 where "s2 = on_exit (Check Relay) 1 [] (s1\<lparr>jobs := remove1 (Check Relay, ?c) (jobs s1)\<rparr>)"
  have s0: "jobs s0 = (Stack_Query, stack_query_cmd) # (Check Relay, ?c)
      # (if repo = [] then [] else [(Check Publisher, publisher_check_cmd host)])"
    by (simp add: s0_def start_fields new_tui_def)
  have "jobs s1 = jobs s0 @ [(Redeploy Relay, relay_deploy_cmd (drone_host s0) (serial_device s0) (serial_baud s0))]"
    unfolding s1_def by (rule chosen_relay) (simp_all add: s0_def start_fields new_tui_def)
  note js = this [unfolded s0]
  have "tui_reach (\<lambda>_ _. True) (new_tui host device baud repo) s1"
    unfolding s1_def s0_def by (rule reach_keys [OF tui_reach.start]) simp
  moreover have "tui_step s1 (Exit (Check Relay) 1 []) s2"
    unfolding s2_def by (rule tui_step.exit) (simp add: js)
  ultimately have "tui_reach (\<lambda>_ _. True) (new_tui host device baud repo) s2" by (rule tui_reach.step) simp
  moreover have "map fst (filter (is_deploy Relay) (jobs s2)) = [Redeploy Relay, Startup_Deploy Relay]"
    by (simp add: s2_def on_exit_def missing_relay js is_deploy_def)
  ultimately show ?thesis by (intro exI conjI)
qed

text \<open>A view belongs to no command: the end of a redeploy writes into whichever text is shown.\<close>

lemma redeploy_writes_into_view:
  "sub_content (on_exit (Redeploy svc) 0 out s) = sub_content s @ ok_suffix svc @ press_enter"
  by (cases svc) (simp_all add: on_exit_def redeploy_done_def)

section \<open>At concrete inputs\<close>

definition demo_tui :: tui where
  "demo_tui = new_tui ''user@pi'' ''/dev/ttyACM0'' 57600 []"

theorem deploys_exclusive_witness:
  "deploys Stack (type_keys (chosen CHR ''7'') (tui_start demo_tui)) = 1
    \<and> fst (stack_label (type_keys (chosen CHR ''7'') (tui_start demo_tui))) = ''Starting...''"
proof -
  have r: "tui_reach (\<lambda>e s. Stack \<noteq> Stack \<longrightarrow> check_first Stack e s) demo_tui
      (type_keys (chosen CHR ''7'') (tui_start demo_tui))"
    by (rule reach_keys [OF tui_reach.start]) simp
  have "stack_state (type_keys (chosen CHR ''7'') (tui_start demo_tui)) = Deploying" by code_simp
  with deploys_exclusive [OF r [unfolded demo_tui_def]] show ?thesis by (simp add: demo_tui_def)
qed

end
