(* ===== verification/Tui_View.thy ===== *)
theory Tui_View
  imports Tui_Props Panel_Props
begin

text \<open>
  What the terminal interface draws (\<open>render\<close> of \<open>src/main.cpp\<close>), as text: the lines of each view without
  their columns and colours, and the loop that limits how often it is drawn. \<open>fmt d x\<close> stands for a
  float printed with \<open>d\<close> decimals.
\<close>

section \<open>The live telemetry monitor\<close>

definition battery_line :: "(nat \<Rightarrow> real \<Rightarrow> string) \<Rightarrow> telem_view \<Rightarrow> string" where
  "battery_line fmt v =
     (if tv_has_battery v
      then ''Battery     : '' @ int_dec (tv_battery_pct v) @ ''%  ('' @ fmt 1 (tv_battery_v v) @ '' V)''
      else ''Battery     : N/A'')"

definition position_lines :: "(nat \<Rightarrow> real \<Rightarrow> string) \<Rightarrow> telem_view \<Rightarrow> string list" where
  "position_lines fmt v =
     (if tv_has_fix v
      then [''Latitude    : '' @ fmt 6 (tv_latitude v), ''Longitude   : '' @ fmt 6 (tv_longitude v),
            ''Altitude    : '' @ fmt 1 (tv_abs_alt_m v) @ '' m (rel: '' @ fmt 1 (tv_rel_alt_m v) @ '' m)'']
      else [''No GPS fix''])"

definition monitor_lines :: "(nat \<Rightarrow> real \<Rightarrow> string) \<Rightarrow> telem_view \<Rightarrow> string list" where
  "monitor_lines fmt v =
     (if tv_connected v then []
      else [''Autopilot link not present.'', ''Live telemetry will populate when the bridge connects to PX4.'', []])
     @ [''Status'', ''Armed       : '' @ (if tv_armed v then ''Yes'' else ''No''), ''Flight mode : '' @ tv_flight_mode v, [],
        ''Power'', battery_line fmt v, [], ''Position''] @ position_lines fmt v
     @ [[], ''Attitude'', ''Roll        : '' @ fmt 1 (tv_roll_deg v) @ '' deg'',
        ''Pitch       : '' @ fmt 1 (tv_pitch_deg v) @ '' deg'', ''Yaw         : '' @ fmt 1 (tv_yaw_deg v) @ '' deg'', [],
        ''Speed'', ''Ground      : '' @ fmt 1 (tv_ground_spd v) @ '' m/s'', ''Press Enter to return.'']"

section \<open>The other views\<close>

definition menu_lines :: "string list" where
  "menu_lines =
     [''1. Pre-flight check'', ''2. QGroundControl setup'', ''3. Live telemetry monitor'', ''4. Service status monitor'',
      ''5. Restart relay'', ''6. Restart publisher'', ''7. Restart GCS stack'', ''Ctrl+C to exit'']"

text \<open>\<open>std::getline\<close> over the text of a sub-view: no line after a last line break.\<close>

definition text_lines :: "string \<Rightarrow> string list" where
  "text_lines s = (let ls = split_on (CHR 0x0A) s in if last ls = [] then butlast ls else ls)"

definition service_rows :: "int \<Rightarrow> services_snapshot \<Rightarrow> panel_row list" where
  "service_rows now snap =
     [panel_row_of (age_ms now (perception_last_ns snap)) (perception_summary snap) 0,
      panel_row_of (age_ms now (telemetry_last_ns snap)) (telemetry_summary snap) 0,
      orch_row now snap]"

datatype body = Lines "string list" | Service_Table "panel_row list" "string option" string

definition view_body :: "(nat \<Rightarrow> real \<Rightarrow> string) \<Rightarrow> int \<Rightarrow> services_snapshot \<Rightarrow> tui \<Rightarrow> body" where
  "view_body fmt now snap s = (case view s of
     MainMenu \<Rightarrow> Lines menu_lines
   | SubMenu \<Rightarrow> Lines (text_lines (sub_content s))
   | Monitoring \<Rightarrow> Lines (monitor_lines fmt (snap_telemetry snap))
   | Services \<Rightarrow> Service_Table (service_rows now snap) (banner snap)
       (''Subscriber heartbeat: '' @ fmt_age (age_ms now (watcher_last_ns snap))))"

record screen =
  scr_labels :: "string list"
  scr_body :: body
  scr_prompt :: string

definition render :: "(nat \<Rightarrow> real \<Rightarrow> string) \<Rightarrow> int \<Rightarrow> services_snapshot \<Rightarrow> tui \<Rightarrow> screen" where
  "render fmt now snap s =
     \<lparr>scr_labels =
        [''Stack: '' @ fst (stack_label s), ''Pub: '' @ fst (publisher_label s),
         ''Relay: '' @ fst (relay_label (snap_telemetry snap) s), ''QGC: '' @ qgc_label (snap_telemetry snap)],
      scr_body = view_body fmt now snap s, scr_prompt = ''> '' @ input_line s\<rparr>"

section \<open>The render loop\<close>

text \<open>\<open>render_dirty\<close> and the deadline of the timer, in milliseconds; the second result is whether it draws.\<close>

record render_loop =
  render_dirty :: bool
  render_due :: "int option"

definition request_render :: "int \<Rightarrow> render_loop \<Rightarrow> render_loop" where
  "request_render now r = (if render_dirty r then r else \<lparr>render_dirty = True, render_due = Some (now + 33)\<rparr>)"

definition on_render_timer :: "render_loop \<Rightarrow> render_loop \<times> bool" where
  "on_render_timer r = (\<lparr>render_dirty = False, render_due = None\<rparr>, render_dirty r)"

inductive loop_step :: "int \<times> render_loop \<Rightarrow> bool \<Rightarrow> int \<times> render_loop \<Rightarrow> bool" where
  request: "now \<le> t \<Longrightarrow> loop_step (now, r) False (t, request_render t r)"
| expired: "now \<le> t \<Longrightarrow> render_due r = Some d \<Longrightarrow> d \<le> t \<Longrightarrow> on_render_timer r = (r', drawn)
    \<Longrightarrow> loop_step (now, r) drawn (t, r')"

inductive loop_reach :: "int \<times> render_loop \<Rightarrow> bool" where
  fresh: "loop_reach (now, \<lparr>render_dirty = False, render_due = None\<rparr>)"
| later: "loop_reach p \<Longrightarrow> loop_step p drawn q \<Longrightarrow> loop_reach q"

inductive_cases loop_stepE: "loop_step (now, r) drawn (t, r')"

text \<open>
  The picture is out of date exactly while the timer runs, which is at most 33 ms: a request is always
  followed by a drawing, and each expiry of the timer draws.
\<close>

lemma loop_invariant:
  assumes "loop_reach p"
  shows "(render_dirty (snd p) \<longleftrightarrow> render_due (snd p) \<noteq> None) \<and> pred_option (\<lambda>d. d \<le> fst p + 33) (render_due (snd p))"
  using assms
proof induction
  case (later p drawn q)
  from later.hyps(2) later.IH show ?case
    by cases (auto simp: request_render_def on_render_timer_def option.pred_set)
qed simp

lemma request_is_drawn:
  assumes "loop_reach (now, r)"
  obtains d where "render_due (request_render now r) = Some d" "d \<le> now + 33"
    "loop_step (now, request_render now r) True (max now d, fst (on_render_timer (request_render now r)))"
proof -
  have "loop_reach (now, request_render now r)"
    by (rule loop_reach.later [OF assms loop_step.request]) simp
  note inv = loop_invariant [OF this]
  have dirty: "render_dirty (request_render now r)" by (simp add: request_render_def)
  with inv obtain d where d: "render_due (request_render now r) = Some d" "d \<le> now + 33" by auto
  with dirty show thesis
    by (intro that [of d] loop_step.expired [OF _ d(1)]) (simp_all add: on_render_timer_def)
qed

section \<open>What a missing percentage looks like\<close>

text \<open>
  The autopilot reports -1 while it does not monitor the battery, and the bridge then sends no percentage.
  The flag that gates the line is raised by the voltage alone, so that the pilot reads an empty battery.
\<close>

theorem missing_percentage_shown_as_zero:
  assumes "vs_remaining v = Fin r" "r < 0" and "vs_voltage v = Fin u" "0 < u"
    and "list_all isfinite [vs_roll v, vs_pitch v, vs_yaw v, vs_north v, vs_east v]"
    and "jsonable frepr (PDict (telemetry_json (sample_telemetry now_ns now_ms last_hb v)))"
  shows "let t = sample_telemetry now_ns now_ms last_hb v in
    tm_battery_pct t = None
    \<and> battery_line fmt (parse_telemetry (encode_header frepr (PDict (telemetry_json t))))
        = ''Battery     : 0%  ('' @ fmt 1 u @ '' V)''"
proof -
  let ?t = "sample_telemetry now_ns now_ms last_hb v"
  have "tm_battery_pct ?t = None" "tm_battery_v ?t = Some (Fin u)"
    using assms(1-4) by (simp_all add: sample_telemetry_def Let_def)
  moreover have "parse_telemetry (encode_header frepr (PDict (telemetry_json ?t))) = faithful_view ?t"
    using parse_telemetry_encoded [OF assms(6)] view_known [OF sample_plausible attitude_known_sample [OF assms(5)]]
    by simp
  moreover have "int_dec 0 = ''0''" by code_simp
  ultimately show ?thesis
    by (simp add: Let_def battery_line_def faithful_view_def or_zero_def real_of_flt_def)
qed

theorem missing_percentage_shown_as_zero_witness:
  "battery_line (\<lambda>d x. ''0.5'') (parse_telemetry (encode_header half_repr
     (PDict (telemetry_json (sample_telemetry 7 8 0 (half_sample\<lparr>vs_remaining := Fin (- 1)\<rparr>))))))
   = ''Battery     : 0%  (0.5 V)''"
proof -
  have "jsonable half_repr (PDict (telemetry_json (sample_telemetry 7 8 0 (half_sample\<lparr>vs_remaining := Fin (- 1)\<rparr>))))"
    by (simp add: half_sample_def sample_telemetry_def new_telemetry_def telemetry_json_def when_finite_def
        sqrt_quarter half_repr_text nl_float_def)
  from missing_percentage_shown_as_zero [OF _ _ _ _ _ this, of "- 1" "1 / 2" "\<lambda>d x. ''0.5''"]
  show ?thesis by (simp add: half_sample_def Let_def)
qed

end
