(* ===== verification/Spec2Isabelle.thy ===== *)
theory Spec2Isabelle
  imports Orch_Witnesses Lib_Props Perception Speech Replay_Cli Orch_Main Vlm_Gemini Bridge_Props Watchdog
    Wire_Types Panel_Props Orch_Status Bridge_Main Tui_View
begin

text \<open>
  Lexaire: verification of the ground station of a voice-controlled quadcopter.

  \<^bold>\<open>The program.\<close> A pilot speaks; the speech service (\<open>python/services/stt\<close>) turns text, files or clips
  into voice commands; the orchestrator (\<open>python/services/orchestrator\<close>) takes them from a queue, asks a
  vision-language model again and again for tool calls until the mission ends, and sends each call over
  a request socket to the flight bridge (\<open>src/flight_bridge\<close>, C++), whose safety gate decides what gets
  to the vehicle. The perception service (\<open>python/services/perception\<close>) pairs colour and depth frames,
  detects objects and publishes scenes; the replay harness (\<open>python/services/replay\<close>) records and plays
  the sensor channels. All services share \<open>python/lexaire\<close>: configuration, messages, sockets, the
  sensor subscriber and logging. The terminal interface (\<open>src/main.cpp\<close>, \<open>src/services_panel.cpp\<close>, C++)
  watches what the services publish and starts the deploys; it and the bridge read the configuration
  with \<open>include/lexaire/config.hpp\<close>.

  \<^bold>\<open>Theories, in the order of the code.\<close>
    \<^item> \<open>Prelude\<close>, \<open>PyText\<close>, \<open>PyVal\<close>: results (\<open>py_error + 'a\<close>) with \<open>rbind\<close> and \<open>rmap\<close>; Python strings
      (Latin-1), \<open>strip\<close>, \<open>splitlines\<close>, \<open>repr\<close>, the word search of a compiled pattern; JSON-like values,
      floats with infinities and NaN (\<open>pyfloat\<close>), \<open>int()\<close>, \<open>float()\<close> and truth of a value.
    \<^item> \<open>Config\<close> (\<open>config.py\<close>), \<open>Messages\<close> (\<open>messages.py\<close>), \<open>Transport\<close> (\<open>transport.py\<close>), \<open>PyQueue\<close>
      (\<open>queue.Queue\<close>), \<open>Subscriber\<close> (\<open>subscriber.py\<close>), \<open>Logs\<close> (\<open>logs.py\<close>), \<open>Lib_Props\<close> (their properties).
    \<^item> \<open>Json\<close>: \<open>json.dumps\<close> and \<open>json.loads\<close> as the messages use them, the header codec of \<open>messages.py\<close>, and
      the locale \<open>json_codec\<close> with its two instances, headers (bytes) and lines (text).
    \<^item> \<open>Orch_State\<close>, \<open>Orch_Mission\<close> (\<open>orchestrator/main.py\<close>, \<open>vlm_base.py\<close>): the state with the handlers
      of the four feeding threads, then the dispatcher, the mission loop and the decision loop;
      \<open>Orch_Main\<close>: start, stop and \<open>cli\<close>. \<open>Vlm_Gemini\<close>: \<open>vlm_gemini.py\<close> and \<open>tools.py\<close>.
    \<^item> \<open>Orch_Effects\<close>: the locale \<open>main_effect\<close>, a relation every step of the main thread keeps; it is
      interpreted for each invariant, so each is proved once per operation. \<open>Orch_Safety\<close> (the arm
      gate), \<open>Orch_Props\<close> (aborts, termination, bounds), \<open>Orch_Batch\<close> (batches of calls), \<open>Orch_Failures\<close>
      (error behaviour), \<open>Orch_Examples\<close> and \<open>Orch_Witnesses\<close> (a scripted world; the properties at
      concrete inputs).
    \<^item> \<open>Detectors\<close>, \<open>Perception\<close> (\<open>perception/\<close>); \<open>Stt\<close>, \<open>Whisper\<close>, \<open>Speech\<close> (\<open>stt/\<close>); \<open>Base64\<close>, \<open>Store\<close>,
      \<open>Replay\<close>, \<open>Replay_Cli\<close> (\<open>replay/\<close>).
    \<^item> \<open>Bridge\<close>, \<open>Bridge_Props\<close>: the safety gate (\<open>safety.hpp\<close>), the handlers (\<open>handlers.cpp\<close>) and a turn of
      the request loop (\<open>main.cpp\<close>). The locale \<open>gate_contract\<close> is what a gate promises; it is interpreted for
      the envelope and for the arm gate. \<open>Watchdog\<close>: the heartbeat thread (\<open>main.cpp\<close>), its
      specification over losses of the link, and that it implements it. \<open>Bridge_Main\<close>: start with its exit
      codes, the request loop down to the socket, shutdown, and \<open>SafetyEnvelope::from_config\<close>. \<open>Wire_Types\<close>:
      the types of the requests the two sides exchange.
    \<^item> \<open>Telemetry\<close>: the telemetry message (\<open>messages.hpp\<close>) and the publishing thread of the bridge; \<open>Panel\<close>: its
      reading and that of scenes and statuses by the watcher (\<open>services_panel.cpp\<close>), and what is shown;
      \<open>Panel_Props\<close>. \<open>Orch_Status\<close>: the statuses of the orchestrator as a protocol, and the alarm.
    \<^item> \<open>Cpp_Config\<close> (\<open>config.hpp\<close>, with yaml-cpp's nodes as an argument); \<open>Shell\<close>: the commands the terminal
      interface builds, and a POSIX shell's reading of them; \<open>Tui\<close>: its state, keys, menu and processes,
      \<open>Tui_Props\<close>: the transition system they make and its invariant; \<open>Tui_View\<close>: the text of its views
      and the render loop.

  \<^bold>\<open>Concurrency.\<close> The orchestrator's threads and its main loop share one state. A schedule, a list of
  groups of thread events, stands for the interleaving: whenever the main thread has let others run
  (a wait, a poll, a socket call) it takes the next group (\<open>yield\<close>). The properties hold for every
  schedule. A call of the VLM that never returns has no number of polls (\<open>None\<close>); the decision loop
  is a \<open>partial_function\<close>, so that running for ever is the value \<open>None\<close> and termination is proved as such.
  The perception loop, the recorder and the player take the observations of their clock and their stop
  signal from a list in the same way; the bridge takes its requests and the vehicle's armed reports, which
  come between requests. The terminal interface runs one handler at a time; its handlers are the steps
  of a relation, in any order.

  \<^bold>\<open>Parameters.\<close> Code outside the repository is an argument: the VLM, the request socket and \<open>uuid4\<close>
  (\<open>world_ops\<close>), the YOLO network and \<open>numpy.median\<close>, the Whisper model and \<open>numpy.interp\<close>, JPEG decoding,
  the YAML parser, the nodes of yaml-cpp, the decimal of a finite float, the Gemini client and Pillow, MAVSDK and
  the vehicle.

  \<^bold>\<open>Fuel and bounds.\<close> The JSON scanner takes \<open>2 * length + 2\<close> as fuel, which its adequacy lemma shows to
  be enough for every text (\<open>decode_header_total\<close>: it ends with a value or a \<open>ValueError\<close>, fuel never
  runs out). The bridge looks fifty times for an autopilot, as in the code. The mission loop is bounded by
  \<open>mission_max_steps\<close>, the passes of the player by their observations; each has a measure.

  \<^bold>\<open>What is shown.\<close> The arm gate from the pilot's words to the vehicle (no arm, no takeoff without the
  word); the abort path from the spoken keyword through the bytes on the wire, the queue, the next turn
  of the decision loop and the bridge to the order to land; the safety envelope at the vehicle; the heartbeat watchdog;
  the types of the requests; the discipline of the bridge's sockets; the protocol of the statuses and the
  alarm of a failed abort; telemetry from the vehicle to the screen and to the prompt; that both
  languages read one configuration; the guards and the quoting of the deploys;
  termination of commands, of a hung VLM call and of the service on a stop signal; the step budget; the
  audit trail and the requests of a batch; bounds of queues, buffers and histories; the matcher; depth
  and position of detections; rate and freshness of scenes; round trips of commands and recordings; order
  and timing of a replay; the behaviour of error paths, some of which are defects (a scene that is no
  object ends the decision loop, a time stamp of Infinity ends the matcher, a line that is no object
  ends a replay, an abort keyword in punctuation is never found, a failure in a long batch is never
  found stuck, a NaN in the attitude hides the vehicle, the check at the start of the terminal interface
  races a redeploy, a remote shell reads the repository address again, a battery without percentage is
  shown as empty).

  \<^bold>\<open>Not modelled, and why.\<close> Spawning and joining of threads, signal handlers beyond the stop flags they
  set, sleeping, logging output and argument parsers: no logic of their own. ZMQ delivery, numpy and
  the models: outside the repository. The rounding of floating-point numbers (reals are exact) and the
  float conversions of the bridge and of the panel; text beyond Latin-1; \<open>RecursionError\<close> on deeply nested
  JSON. ncurses (the text of a view is modelled, its place and colour on the screen are not); shell scripts
  and containers: input and output only.
\<close>

section \<open>From the speech service to the vehicle\<close>

lemma sent_command:
  assumes "stt_send (Some utt) st = (st', True)"
  shows "s_sent st' = s_sent st @ [command_asdict (command_of st (strip utt))]"
proof -
  have "strip utt \<noteq> []" using assms by (auto simp: stt_send_def Let_def)
  then show ?thesis using stt_send_sent [of utt st] assms by simp
qed

text \<open>
  C4: a spoken abort gets to the vehicle. The pilot says something with the abort keyword while a
  command is being handled, the bytes of the speech service's message are among those that reach the
  command thread meanwhile: then the next turn of the decision loop, whatever else has come in, sends
  one request, and from the bytes of it the bridge orders the vehicle to land, whatever its latches and
  limits are; in the air the abort latch is set afterwards. The sockets are assumed to connect and the
  bridge to have its action plugin; the bridge's JSON parser is taken to read what the codec reads.
\<close>

theorem spoken_abort_lands_vehicle:
  assumes "stt_send (Some utt) st = (st', True)" and "re_word_search (s_abort_kw st) (strip utt)"
    and "on_command ops cmd s = Some (Inr t)" and "schedule s = seen @ schedule t"
    and "EvCommand (decode_header (encode_header frepr (last (s_sent st')))) \<in> set (concat seen)"
    and "\<forall>w. fst (w_connect ops w) = None" and "fc_action b"
  shows "\<exists>u r b'. run_turn ops t = Some (Inr u) \<and> req_sent (orch_of u) = req_sent (orch_of t) @ [r]
    \<and> b' = bridge_step lib env b (Request (decode_header (encode_header frepr r)))
    \<and> br_issued b' = br_issued b @ [Land]
    \<and> (aborted (br_safety b') \<longleftrightarrow> aborted (br_safety b) \<or> fc_telemetry b \<and> va_in_air lib (br_vehicle b))"
proof -
  let ?c = "command_of st (strip utt)"
  have "vc_is_abort ?c" using assms(2) by (simp add: command_of_def)
  moreover have "EvCommand (Inr (command_asdict ?c)) \<in> set (concat seen)"
    using assms(5) sent_command [OF assms(1)] by (simp add: hdr.dec_enc)
  ultimately have "\<exists>e\<in>set (concat seen). abort_event e" unfolding abort_event_def by blast
  from abort_first_turn [OF abort_event_first [OF assms(3,4) this], of ops] assms(6)
  obtain u rid where "run_turn ops t = Some (Inr u)" "req_sent (orch_of u) = req_sent (orch_of t)
      @ [call_asdict \<lparr>tc_request_id = rid, tc_name = ''abort'', tc_args = []\<rparr>]" by auto
  moreover have "decode_header (encode_header frepr (call_asdict \<lparr>tc_request_id = rid, tc_name = ''abort'', tc_args = []\<rparr>))
      = Inr (call_asdict \<lparr>tc_request_id = rid, tc_name = ''abort'', tc_args = []\<rparr>)"
    by (simp add: hdr.dec_enc)
  ultimately show ?thesis using abort_step [OF assms(7)] by metis
qed

text \<open>\<open>Abort!\<close>, spoken while the VLM is thinking about a command to land.\<close>

definition abort_heard :: "thread_event list list" where
  "abort_heard = [[], [], [], [EvCommand (decode_header (encode_header (\<lambda>_. [])
     (last (s_sent (fst (stt_send (Some '' Abort! '') stt_demo))))))], []]"

lemma abort_heard: "abort_heard = [[], [], [], [EvCommand (Inr (command_asdict (command_of stt_demo ''Abort!'')))], []]"
proof -
  have "s_sent (fst (stt_send (Some '' Abort! '') stt_demo)) = [command_asdict (command_of stt_demo ''Abort!'')]"
    by code_simp
  then show ?thesis by (simp add: abort_heard_def hdr.dec_enc)
qed

abbreviation busy_landing :: "script sys" where
  "busy_landing \<equiv> demo abort_heard ([(Some 3, Inr \<lparr>thought = ''go'', tool_calls = [call ''land'']\<rparr>)], [])"

theorem spoken_abort_lands_vehicle_witness:
  "\<exists>u r. run_turn scripted (after_command (say ''land'') busy_landing) = Some (Inr u)
    \<and> req_sent (orch_of u) = req_sent (orch_of (after_command (say ''land'') busy_landing)) @ [r]
    \<and> br_issued (bridge_step demo_lib demo_env demo_bridge (Request (decode_header (encode_header (\<lambda>_. []) r)))) = [Land]"
proof -
  let ?t = "after_command (say ''land'') busy_landing" and ?st = "fst (stt_send (Some '' Abort! '') stt_demo)"
  have "snd (stt_send (Some '' Abort! '') stt_demo)" by code_simp
  then have "stt_send (Some '' Abort! '') stt_demo = (?st, True)" by (simp add: prod_eq_iff)
  moreover have "re_word_search (s_abort_kw stt_demo) (strip '' Abort! '')" by code_simp
  moreover have "on_command scripted (say ''land'') busy_landing = Some (Inr ?t)"
    unfolding abort_heard by (rule after_command) code_simp
  moreover have "schedule busy_landing = abort_heard @ schedule ?t"
  proof -
    have "schedule ?t = []" unfolding abort_heard by code_simp
    then show ?thesis by (simp add: demo_def)
  qed
  moreover have "EvCommand (decode_header (encode_header (\<lambda>_. []) (last (s_sent ?st)))) \<in> set (concat abort_heard)"
    by (simp add: abort_heard_def)
  moreover have "\<forall>w. fst (w_connect scripted w) = None" by (simp add: scripted_def)
  moreover have "fc_action demo_bridge" "br_issued demo_bridge = []" by (simp_all add: demo_bridge_def)
  ultimately show ?thesis
    using spoken_abort_lands_vehicle [of "'' Abort! ''" stt_demo ?st scripted "say ''land''" busy_landing ?t
        abort_heard "\<lambda>_. []" demo_bridge demo_lib demo_env] by fastforce
qed

end
